theory Spec2Isabelle
  imports Complex_Main "HOL-Library.Sublist" "HOL-Library.Char_ord" "HOL-Library.List_Lexorder"
begin

section \<open>JavaScript strings and numbers used by the invoice model\<close>

text \<open>
  Strings are byte lists. Numbers are modelled as unbounded integers: the JavaScript
  values are doubles, which agree with the integers below \<open>2 ^ 53\<close>; a sequence
  that does not parse is \<open>NaN\<close>, written \<open>None\<close>.
\<close>

definition padStart :: "nat \<Rightarrow> char \<Rightarrow> string \<Rightarrow> string" where
  "padStart n c s = replicate (n - length s) c @ s"

definition digit_char :: "nat \<Rightarrow> char" where
  "digit_char d = ''0123456789'' ! d"

fun string_of_nat :: "nat \<Rightarrow> string" where
  "string_of_nat n =
     (if n < 10 then [digit_char n] else string_of_nat (n div 10) @ [digit_char (n mod 10)])"

declare string_of_nat.simps [simp del]

text \<open>\<open>String(x)\<close> for a number \<open>x\<close>: \<open>"NaN"\<close>, or the decimal digits with a sign.\<close>

definition String :: "int option \<Rightarrow> string" where
  "String x =
     (case x of
        None \<Rightarrow> ''NaN''
      | Some i \<Rightarrow> (if i < 0 then CHR ''-'' # string_of_nat (nat (- i)) else string_of_nat (nat i)))"

text \<open>The value of a character as a digit of radix 16 (\<open>0-9\<close>, \<open>a-f\<close>, \<open>A-F\<close>).\<close>

definition digit_of :: "char \<Rightarrow> nat option" where
  "digit_of c =
     (let n = (of_char c :: nat) in
      if 48 \<le> n \<and> n \<le> 57 then Some (n - 48)
      else if 97 \<le> n \<and> n \<le> 102 then Some (n - 87)
      else if 65 \<le> n \<and> n \<le> 70 then Some (n - 55)
      else None)"

definition is_digit :: "nat \<Rightarrow> char \<Rightarrow> bool" where
  "is_digit radix c = (case digit_of c of None \<Rightarrow> False | Some d \<Rightarrow> d < radix)"

definition digits_value :: "nat \<Rightarrow> string \<Rightarrow> nat" where
  "digits_value radix ds = foldl (\<lambda>acc c. acc * radix + the (digit_of c)) 0 ds"

definition is_whitespace :: "char \<Rightarrow> bool" where
  "is_whitespace c = ((of_char c :: nat) \<in> {9, 10, 11, 12, 13, 32})"

text \<open>
  \<open>parseInt(s)\<close> with no radix: leading white space is skipped, a sign is read, the
  prefix \<open>0x\<close> or \<open>0X\<close> selects radix 16, and the longest prefix of digits is the
  value; no digit at all gives \<open>NaN\<close>.
\<close>

definition parseInt :: "string \<Rightarrow> int option" where
  "parseInt s =
     (let s1 = dropWhile is_whitespace s;
          negative = (s1 \<noteq> [] \<and> hd s1 = CHR ''-'');
          s2 = (if s1 \<noteq> [] \<and> (hd s1 = CHR ''-'' \<or> hd s1 = CHR ''+'') then tl s1 else s1);
          hex = (take 2 s2 = ''0x'' \<or> take 2 s2 = ''0X'');
          radix = (if hex then 16 else 10);
          s3 = (if hex then drop 2 s2 else s2);
          ds = takeWhile (is_digit radix) s3
      in if ds = [] then None
         else Some ((if negative then - 1 else 1) * int (digits_value radix ds)))"

text \<open>\<open>s.split('-').pop()\<close>: the part of \<open>s\<close> after its last \<open>-\<close>.\<close>

definition split_pop :: "string \<Rightarrow> string" where
  "split_pop s = rev (takeWhile (\<lambda>c. c \<noteq> CHR ''-'') (rev s))"

section \<open>SQL pattern matching\<close>

text \<open>
  The schema names no collation, so the tables get the default one of the server, which
  does not tell the case of letters apart: a letter \<open>A-Z\<close> counts as its small letter.
  Other characters are compared as bytes.
\<close>

definition fold_case :: "char \<Rightarrow> char" where
  "fold_case c =
     (case map_of (zip ''ABCDEFGHIJKLMNOPQRSTUVWXYZ'' ''abcdefghijklmnopqrstuvwxyz'') c of
        None \<Rightarrow> c
      | Some small \<Rightarrow> small)"

text \<open>
  \<open>subject LIKE pattern\<close>: \<open>%\<close> matches any run of characters and \<open>_\<close> one
  character.
\<close>

fun sql_like :: "string \<Rightarrow> string \<Rightarrow> bool" where
  "sql_like [] s = (s = [])"
| "sql_like (p # ps) [] = (p = CHR ''%'' \<and> sql_like ps [])"
| "sql_like (p # ps) (c # cs) =
     (if p = CHR ''%'' then sql_like ps (c # cs) \<or> sql_like (p # ps) cs
      else (p = CHR ''_'' \<or> fold_case p = fold_case c) \<and> sql_like ps cs)"

section \<open>The database schema (database_setup.sql)\<close>

text \<open>
  A table is the list of its rows in insertion order. Only the columns that the modelled
  statements read or write are kept. Amounts (\<open>DECIMAL(10,2)\<close>) are counted in
  hundredths; quantities and stock levels (\<open>INT\<close>) are integers assumed to stay in
  the column's range, and strings are assumed to fit their columns.
\<close>

type_synonym money = int

record users_row =
  u_id :: nat
  u_full_name :: string

record companies_row =
  c_id :: nat
  c_company_name :: string

record medicines_row =
  m_id :: nat
  m_medicine_name :: string
  m_generic_name :: "string option"
  m_company_id :: "nat option"
  m_selling_price :: money
  m_quantity_in_stock :: int
  m_min_stock_level :: int
  m_is_active :: bool

record invoices_row =
  i_id :: nat
  i_invoice_number :: string
  i_customer_name :: "string option"
  i_customer_mobile :: "string option"
  i_customer_address :: "string option"
  i_pharmacist_id :: nat
  i_total_amount :: money
  i_discount_amount :: money
  i_final_amount :: money
  i_payment_method :: string
  i_invoice_date :: string
  i_created_at :: nat

record invoice_items_row =
  ii_id :: nat
  ii_invoice_id :: nat
  ii_medicine_id :: nat
  ii_quantity :: int
  ii_unit_price :: money
  ii_total_price :: money

datatype movement_type = MoveIn | MoveOut | MoveAdjustment

datatype reference_type = RefPurchase | RefSale | RefAdjustment | RefReturn

record stock_movements_row =
  sm_id :: nat
  sm_medicine_id :: nat
  sm_movement_type :: movement_type
  sm_quantity :: int
  sm_reference_type :: reference_type
  sm_reference_id :: "nat option"
  sm_notes :: "string option"
  sm_created_by :: nat

record db =
  users :: "users_row list"
  companies :: "companies_row list"
  medicines :: "medicines_row list"
  invoices :: "invoices_row list"
  invoice_items :: "invoice_items_row list"
  stock_movements :: "stock_movements_row list"

text \<open>The \<open>AUTO_INCREMENT\<close> counters; the storage engine does not roll them back.\<close>

record auto_increment =
  next_invoice_id :: nat
  next_invoice_item_id :: nat
  next_stock_movement_id :: nat

section \<open>The storage engine as seen by config/database.js\<close>

text \<open>A statement sent to the server, with the parameters bound to it.\<close>

datatype statement =
    BeginTransaction
  | Commit
  | Rollback
  | SelectLastInvoiceNumber string
  | InsertInvoice string
  | InsertInvoiceItem nat nat int
  | UpdateStock nat int
  | InsertStockMovement nat int nat
  | SelectInvoiceById nat
  | SelectInvoiceItems nat
  | SelectInvoices nat nat
  | SearchInvoices string
  | SelectSalesStats "nat option" "string option" "string option"
  | SelectActiveMedicines

datatype db_error = ER_DUP_ENTRY | ER_NO_REFERENCED_ROW | ER_DATA_TRUNCATED | ConnectionLost

text \<open>
  The world outside the process: the committed tables, the counters, and the log of the
  statements sent so far (the latest last).
\<close>

record world =
  tables :: db
  auto_inc :: auto_increment
  oplog :: "statement list"

text \<open>
  What a call reads from its surroundings: the clock of the process, the clock of the
  server, and which statements fail for a reason outside the data (connection loss,
  timeout, deadlock).
\<close>

record env =
  getFullYear :: nat
  getMonth :: nat
  getDate :: nat
  Date_now :: nat
  toISODate :: string
  CURRENT_TIMESTAMP :: nat
  fails :: "statement \<Rightarrow> bool"

definition issue :: "statement \<Rightarrow> world \<Rightarrow> world" where
  "issue st w = w\<lparr>oplog := oplog w @ [st]\<rparr>"

text \<open>\<open>promisePool.execute\<close> for a query \<open>q\<close>: it reads the committed tables.\<close>

definition pool_execute ::
  "env \<Rightarrow> statement \<Rightarrow> (db \<Rightarrow> 'r list) \<Rightarrow> world \<Rightarrow> (db_error + 'r list) \<times> world" where
  "pool_execute e st q w =
     (let w1 = issue st w in
      if fails e st then (Inl ConnectionLost, w1) else (Inr (q (tables w1)), w1))"

text \<open>\<open>{success: true, data}\<close> or \<open>{success: false, error}\<close>.\<close>

datatype 'a query_result = Success 'a | Failure db_error

definition executeQuery ::
  "env \<Rightarrow> statement \<Rightarrow> (db \<Rightarrow> 'r list) \<Rightarrow> world \<Rightarrow> 'r list query_result \<times> world" where
  "executeQuery e st q w =
     (case pool_execute e st q w of
        (Inr results, w1) \<Rightarrow> (Success results, w1)
      | (Inl error, w1) \<Rightarrow> (Failure error, w1))"

definition getOne ::
  "env \<Rightarrow> statement \<Rightarrow> (db \<Rightarrow> 'r list) \<Rightarrow> world \<Rightarrow> 'r option query_result \<times> world" where
  "getOne e st q w =
     (case pool_execute e st q w of
        (Inr results, w1) \<Rightarrow> (Success (case results of [] \<Rightarrow> None | r # _ \<Rightarrow> Some r), w1)
      | (Inl error, w1) \<Rightarrow> (Failure error, w1))"

text \<open>
  \<open>beginTransaction\<close> hands out a connection whose view starts as the committed
  tables; \<open>commitTransaction\<close> makes the view the committed tables;
  \<open>rollbackTransaction\<close> drops the view. Each is a round trip that can fail.
\<close>

definition beginTransaction :: "env \<Rightarrow> world \<Rightarrow> (db_error + db) \<times> world" where
  "beginTransaction e w =
     (let w1 = issue BeginTransaction w in
      if fails e BeginTransaction then (Inl ConnectionLost, w1) else (Inr (tables w1), w1))"

definition commitTransaction :: "env \<Rightarrow> db \<Rightarrow> world \<Rightarrow> (db_error + unit) \<times> world" where
  "commitTransaction e connection w =
     (let w1 = issue Commit w in
      if fails e Commit then (Inl ConnectionLost, w1) else (Inr (), w1\<lparr>tables := connection\<rparr>))"

definition rollbackTransaction :: "env \<Rightarrow> db \<Rightarrow> world \<Rightarrow> (db_error + unit) \<times> world" where
  "rollbackTransaction e connection w =
     (let w1 = issue Rollback w in
      if fails e Rollback then (Inl ConnectionLost, w1) else (Inr (), w1))"

section \<open>The connection's statements inside a transaction\<close>

text \<open>
  \<open>connection.execute\<close> works on the transaction's view of the tables. A statement
  fails when the environment makes it fail or when the schema refuses it: the
  \<open>UNIQUE\<close> key on \<open>invoice_number\<close>, the foreign keys, the \<open>ENUM\<close> of
  \<open>payment_method\<close>.
\<close>

record invoice_values =
  v_invoice_number :: string
  v_customer_name :: "string option"
  v_customer_mobile :: "string option"
  v_customer_address :: "string option"
  v_pharmacist_id :: nat
  v_total_amount :: money
  v_discount_amount :: money
  v_final_amount :: money
  v_payment_method :: string
  v_invoice_date :: string

definition execute_insert_invoice ::
  "env \<Rightarrow> invoice_values \<Rightarrow> db \<Rightarrow> world \<Rightarrow> (db_error + nat) \<times> db \<times> world" where
  "execute_insert_invoice e v connection w =
     (let w1 = issue (InsertInvoice (v_invoice_number v)) w in
      if fails e (InsertInvoice (v_invoice_number v)) then (Inl ConnectionLost, connection, w1)
      else if v_payment_method v \<notin> set [''cash'', ''card'', ''upi'', ''other'']
        then (Inl ER_DATA_TRUNCATED, connection, w1)
      else if v_invoice_number v \<in> set (map i_invoice_number (invoices connection))
        then (Inl ER_DUP_ENTRY, connection, w1)
      else if v_pharmacist_id v \<notin> set (map u_id (users connection))
        then (Inl ER_NO_REFERENCED_ROW, connection, w1)
      else
        (let insertId = next_invoice_id (auto_inc w1);
             row = \<lparr>i_id = insertId,
                    i_invoice_number = v_invoice_number v,
                    i_customer_name = v_customer_name v,
                    i_customer_mobile = v_customer_mobile v,
                    i_customer_address = v_customer_address v,
                    i_pharmacist_id = v_pharmacist_id v,
                    i_total_amount = v_total_amount v,
                    i_discount_amount = v_discount_amount v,
                    i_final_amount = v_final_amount v,
                    i_payment_method = v_payment_method v,
                    i_invoice_date = v_invoice_date v,
                    i_created_at = CURRENT_TIMESTAMP e\<rparr>
         in (Inr insertId,
             connection\<lparr>invoices := invoices connection @ [row]\<rparr>,
             w1\<lparr>auto_inc := (auto_inc w1)\<lparr>next_invoice_id := Suc insertId\<rparr>\<rparr>)))"

record item =
  medicine_id :: nat
  quantity :: int
  unit_price :: money
  total_price :: money

definition execute_insert_invoice_item ::
  "env \<Rightarrow> nat \<Rightarrow> item \<Rightarrow> db \<Rightarrow> world \<Rightarrow> (db_error + nat) \<times> db \<times> world" where
  "execute_insert_invoice_item e invoiceId it connection w =
     (let st = InsertInvoiceItem invoiceId (medicine_id it) (quantity it);
          w1 = issue st w in
      if fails e st then (Inl ConnectionLost, connection, w1)
      else if invoiceId \<notin> set (map i_id (invoices connection))
              \<or> medicine_id it \<notin> set (map m_id (medicines connection))
        then (Inl ER_NO_REFERENCED_ROW, connection, w1)
      else
        (let insertId = next_invoice_item_id (auto_inc w1);
             row = \<lparr>ii_id = insertId,
                    ii_invoice_id = invoiceId,
                    ii_medicine_id = medicine_id it,
                    ii_quantity = quantity it,
                    ii_unit_price = unit_price it,
                    ii_total_price = total_price it\<rparr>
         in (Inr insertId,
             connection\<lparr>invoice_items := invoice_items connection @ [row]\<rparr>,
             w1\<lparr>auto_inc := (auto_inc w1)\<lparr>next_invoice_item_id := Suc insertId\<rparr>\<rparr>)))"

text \<open>\<open>UPDATE medicines SET quantity_in_stock = quantity_in_stock - ? WHERE id = ?\<close>\<close>

definition execute_update_stock ::
  "env \<Rightarrow> int \<Rightarrow> nat \<Rightarrow> db \<Rightarrow> world \<Rightarrow> (db_error + unit) \<times> db \<times> world" where
  "execute_update_stock e qty mid connection w =
     (let st = UpdateStock mid qty;
          w1 = issue st w in
      if fails e st then (Inl ConnectionLost, connection, w1)
      else
        (Inr (),
         connection\<lparr>medicines :=
           map (\<lambda>m. if m_id m = mid
                     then m\<lparr>m_quantity_in_stock := m_quantity_in_stock m - qty\<rparr> else m)
               (medicines connection)\<rparr>,
         w1))"

text \<open>
  \<open>INSERT INTO stock_movements (...) VALUES (?, 'out', ?, 'sale', ?, ?, ?)\<close>
\<close>

definition execute_insert_stock_movement ::
  "env \<Rightarrow> nat \<Rightarrow> int \<Rightarrow> nat \<Rightarrow> string \<Rightarrow> nat \<Rightarrow> db \<Rightarrow> world
     \<Rightarrow> (db_error + nat) \<times> db \<times> world" where
  "execute_insert_stock_movement e mid qty invoiceId notes created_by connection w =
     (let st = InsertStockMovement mid qty invoiceId;
          w1 = issue st w in
      if fails e st then (Inl ConnectionLost, connection, w1)
      else if mid \<notin> set (map m_id (medicines connection))
              \<or> created_by \<notin> set (map u_id (users connection))
        then (Inl ER_NO_REFERENCED_ROW, connection, w1)
      else
        (let insertId = next_stock_movement_id (auto_inc w1);
             row = \<lparr>sm_id = insertId,
                    sm_medicine_id = mid,
                    sm_movement_type = MoveOut,
                    sm_quantity = qty,
                    sm_reference_type = RefSale,
                    sm_reference_id = Some invoiceId,
                    sm_notes = Some notes,
                    sm_created_by = created_by\<rparr>
         in (Inr insertId,
             connection\<lparr>stock_movements := stock_movements connection @ [row]\<rparr>,
             w1\<lparr>auto_inc := (auto_inc w1)\<lparr>next_stock_movement_id := Suc insertId\<rparr>\<rparr>)))"

section \<open>The queries of models/Invoice.js\<close>

definition left_join :: "'a list \<Rightarrow> ('a \<Rightarrow> 'b \<Rightarrow> bool) \<Rightarrow> 'b list \<Rightarrow> ('a \<times> 'b option) list" where
  "left_join xs on ys =
     concat (map (\<lambda>x. case filter (on x) ys of
                         [] \<Rightarrow> [(x, None)]
                       | m # ms \<Rightarrow> map (\<lambda>y. (x, Some y)) (m # ms)) xs)"

text \<open>\<open>ORDER BY key DESC\<close>\<close>

definition order_by_desc :: "('a \<Rightarrow> nat) \<Rightarrow> 'a list \<Rightarrow> 'a list" where
  "order_by_desc key rows = rev (sort_key key rows)"

text \<open>
  \<open>SELECT invoice_number FROM invoices WHERE invoice_number LIKE ? ORDER BY id DESC
  LIMIT 1\<close>
\<close>

definition select_last_invoice_number :: "string \<Rightarrow> db \<Rightarrow> string list" where
  "select_last_invoice_number pattern d =
     map i_invoice_number
       (take 1 (order_by_desc i_id
          (filter (\<lambda>i. sql_like pattern (i_invoice_number i)) (invoices d))))"

text \<open>\<open>SELECT i.*, u.full_name as pharmacist_name FROM invoices i LEFT JOIN users u ...\<close>\<close>

record invoice_join = invoices_row +
  pharmacist_name :: "string option"

definition with_pharmacist :: "db \<Rightarrow> invoices_row list \<Rightarrow> invoice_join list" where
  "with_pharmacist d rows =
     map (\<lambda>(i, u). invoices_row.extend i (invoice_join.fields (map_option u_full_name u)))
       (left_join rows (\<lambda>i u. i_pharmacist_id i = u_id u) (users d))"

definition select_invoice_by_id :: "nat \<Rightarrow> db \<Rightarrow> invoice_join list" where
  "select_invoice_by_id ident d =
     filter (\<lambda>r. i_id r = ident) (with_pharmacist d (invoices d))"

text \<open>
  \<open>SELECT ii.*, m.medicine_name, m.generic_name, c.company_name, ii.unit_price as
  selling_price FROM invoice_items ii LEFT JOIN medicines m ... LEFT JOIN companies c ...
  WHERE ii.invoice_id = ? ORDER BY ii.id ASC\<close>
\<close>

record item_view = invoice_items_row +
  item_medicine_name :: "string option"
  item_generic_name :: "string option"
  item_company_name :: "string option"
  item_selling_price :: money

definition select_invoice_items :: "nat \<Rightarrow> db \<Rightarrow> item_view list" where
  "select_invoice_items ident d =
     sort_key ii_id
       (filter (\<lambda>r. ii_invoice_id r = ident)
          (map (\<lambda>((ii, m), c).
                  invoice_items_row.extend ii
                    (item_view.fields
                       (map_option m_medicine_name m)
                       (case m of None \<Rightarrow> None | Some m' \<Rightarrow> m_generic_name m')
                       (map_option c_company_name c)
                       (ii_unit_price ii)))
             (left_join
                (left_join (invoice_items d) (\<lambda>ii m. ii_medicine_id ii = m_id m) (medicines d))
                (\<lambda>(ii, m) c. case m of None \<Rightarrow> False | Some m' \<Rightarrow> m_company_id m' = Some (c_id c))
                (companies d))))"

section \<open>models/Invoice.js\<close>

record Invoice = invoice_join +
  items :: "item_view list"

definition new_Invoice :: "invoice_join \<Rightarrow> Invoice" where
  "new_Invoice invoiceData = invoice_join.extend invoiceData (Invoice.fields [])"

text \<open>What \<open>await\<close> gives: the value of the promise, or an exception thrown at the caller.\<close>

datatype 'a awaited = Resolved 'a | Rejected

subsection \<open>generateInvoiceNumber\<close>

definition invoice_prefix :: "env \<Rightarrow> string" where
  "invoice_prefix e =
     (let year = getFullYear e;
          month = padStart 2 CHR ''0'' (String (Some (int (getMonth e + 1))));
          day = padStart 2 CHR ''0'' (String (Some (int (getDate e))))
      in ''INV-'' @ String (Some (int year)) @ month @ day)"

text \<open>
  The body of the \<open>try\<close> block after \<open>await getOne(...)\<close>, and the \<open>catch\<close> block
  for an exception thrown there.
\<close>

definition generateInvoiceNumber_on :: "env \<Rightarrow> string option query_result awaited \<Rightarrow> string" where
  "generateInvoiceNumber_on e outcome =
     (case outcome of
        Rejected \<Rightarrow> ''INV-'' @ String (Some (int (Date_now e)))
      | Resolved result \<Rightarrow>
          (let sequence =
                 (case result of
                    Success (Some lastNumber) \<Rightarrow>
                      (case parseInt (split_pop lastNumber) of
                         None \<Rightarrow> None
                       | Some lastSequence \<Rightarrow> Some (lastSequence + 1))
                  | Success None \<Rightarrow> Some 1
                  | Failure error \<Rightarrow> Some 1)
           in invoice_prefix e @ ''-'' @ padStart 3 CHR ''0'' (String sequence)))"

definition generateInvoiceNumber :: "env \<Rightarrow> world \<Rightarrow> string \<times> world" where
  "generateInvoiceNumber e w =
     (let pattern = invoice_prefix e @ ''%'' in
      case getOne e (SelectLastInvoiceNumber pattern) (select_last_invoice_number pattern) w of
        (result, w1) \<Rightarrow> (generateInvoiceNumber_on e (Resolved result), w1))"

subsection \<open>findById\<close>

definition Invoice_findById :: "env \<Rightarrow> nat \<Rightarrow> world \<Rightarrow> Invoice option \<times> world" where
  "Invoice_findById e ident w =
     (case getOne e (SelectInvoiceById ident) (select_invoice_by_id ident) w of
        (Success (Some invoiceData), w1) \<Rightarrow>
          (case executeQuery e (SelectInvoiceItems ident) (select_invoice_items ident) w1 of
             (Success rows, w2) \<Rightarrow> (Some ((new_Invoice invoiceData)\<lparr>items := rows\<rparr>), w2)
           | (Failure error, w2) \<Rightarrow> (Some (new_Invoice invoiceData), w2))
      | (Success None, w1) \<Rightarrow> (None, w1)
      | (Failure error, w1) \<Rightarrow> (None, w1))"

subsection \<open>create\<close>

record invoice_data =
  customer_name :: "string option"
  customer_mobile :: "string option"
  customer_address :: "string option"
  pharmacist_id :: nat
  total_amount :: money
  discount_amount :: "money option"
  final_amount :: money
  payment_method :: "string option"
  invoice_date :: "string option"

text \<open>\<open>x || y\<close> for an optional string \<open>x\<close>: the empty string counts as absent.\<close>

definition or_else :: "string option \<Rightarrow> 'a \<Rightarrow> (string \<Rightarrow> 'a) \<Rightarrow> 'a" where
  "or_else x y f = (case x of None \<Rightarrow> y | Some s \<Rightarrow> if s = [] then y else f s)"

definition invoice_params :: "env \<Rightarrow> string \<Rightarrow> invoice_data \<Rightarrow> invoice_values" where
  "invoice_params e invoiceNumber invoiceData =
     \<lparr>v_invoice_number = invoiceNumber,
      v_customer_name = or_else (customer_name invoiceData) None Some,
      v_customer_mobile = or_else (customer_mobile invoiceData) None Some,
      v_customer_address = or_else (customer_address invoiceData) None Some,
      v_pharmacist_id = pharmacist_id invoiceData,
      v_total_amount = total_amount invoiceData,
      v_discount_amount = (case discount_amount invoiceData of None \<Rightarrow> 0 | Some d \<Rightarrow> d),
      v_final_amount = final_amount invoiceData,
      v_payment_method = or_else (payment_method invoiceData) ''cash'' (\<lambda>s. s),
      v_invoice_date = or_else (invoice_date invoiceData) (toISODate e) (\<lambda>s. s)\<rparr>"

text \<open>The loop \<open>for (const item of items)\<close>; an exception leaves it at once.\<close>

fun create_items ::
  "env \<Rightarrow> nat \<Rightarrow> string \<Rightarrow> nat \<Rightarrow> item list \<Rightarrow> db \<Rightarrow> world \<Rightarrow> (db_error + unit) \<times> db \<times> world" where
  "create_items e invoiceId invoiceNumber pharmacist [] connection w = (Inr (), connection, w)"
| "create_items e invoiceId invoiceNumber pharmacist (it # rest) connection w =
     (case execute_insert_invoice_item e invoiceId it connection w of
        (Inl error, c1, w1) \<Rightarrow> (Inl error, c1, w1)
      | (Inr _, c1, w1) \<Rightarrow>
     (case execute_update_stock e (quantity it) (medicine_id it) c1 w1 of
        (Inl error, c2, w2) \<Rightarrow> (Inl error, c2, w2)
      | (Inr _, c2, w2) \<Rightarrow>
     (case execute_insert_stock_movement e (medicine_id it) (quantity it) invoiceId
             (''Sale via invoice '' @ invoiceNumber) pharmacist c2 w2 of
        (Inl error, c3, w3) \<Rightarrow> (Inl error, c3, w3)
      | (Inr _, c3, w3) \<Rightarrow> create_items e invoiceId invoiceNumber pharmacist rest c3 w3)))"

text \<open>
  The \<open>try\<close> block up to the commit: the identifier of the committed invoice, or the
  exception that reaches the \<open>catch\<close> block.
\<close>

definition create_try ::
  "env \<Rightarrow> invoice_data \<Rightarrow> item list \<Rightarrow> db \<Rightarrow> world \<Rightarrow> (db_error + nat) \<times> db \<times> world" where
  "create_try e invoiceData its connection w =
     (case generateInvoiceNumber e w of
        (invoiceNumber, w1) \<Rightarrow>
     (case execute_insert_invoice e (invoice_params e invoiceNumber invoiceData) connection w1 of
        (Inl error, c2, w2) \<Rightarrow> (Inl error, c2, w2)
      | (Inr invoiceId, c2, w2) \<Rightarrow>
     (case create_items e invoiceId invoiceNumber (pharmacist_id invoiceData) its c2 w2 of
        (Inl error, c3, w3) \<Rightarrow> (Inl error, c3, w3)
      | (Inr _, c3, w3) \<Rightarrow>
     (case commitTransaction e c3 w3 of
        (Inl error, w4) \<Rightarrow> (Inl error, c3, w4)
      | (Inr _, w4) \<Rightarrow> (Inr invoiceId, c3, w4)))))"

definition Invoice_create ::
  "env \<Rightarrow> invoice_data \<Rightarrow> item list \<Rightarrow> world \<Rightarrow> Invoice option awaited \<times> world" where
  "Invoice_create e invoiceData its w =
     (case beginTransaction e w of
        (Inl error, w0) \<Rightarrow> (Rejected, w0)
      | (Inr connection, w0) \<Rightarrow>
     (case create_try e invoiceData its connection w0 of
        (Inr invoiceId, c1, w1) \<Rightarrow>
          (case Invoice_findById e invoiceId w1 of (invoice, w2) \<Rightarrow> (Resolved invoice, w2))
      | (Inl error, c1, w1) \<Rightarrow>
          (case rollbackTransaction e c1 w1 of
             (Inl error', w2) \<Rightarrow> (Rejected, w2)
           | (Inr _, w2) \<Rightarrow> (Resolved None, w2))))"

section \<open>The read operations of models/Invoice.js and models/Medicine.js\<close>

text \<open>
  Each operation is written in two parts: what it does with the outcome of the awaited
  helper (the rest of its \<open>try\<close> block, and its \<open>catch\<close> block for an exception
  thrown there), and the call of the helper. Strings are ordered as byte lists, dates are
  ISO strings.
\<close>

subsection \<open>Invoice.getAll\<close>

text \<open>\<open>... ORDER BY i.created_at DESC LIMIT ? OFFSET ?\<close>\<close>

definition select_invoices :: "nat \<Rightarrow> nat \<Rightarrow> db \<Rightarrow> invoice_join list" where
  "select_invoices limit offset d =
     take limit (drop offset (order_by_desc i_created_at (with_pharmacist d (invoices d))))"

definition Invoice_getAll_on :: "invoice_join list query_result awaited \<Rightarrow> Invoice list" where
  "Invoice_getAll_on outcome =
     (case outcome of
        Rejected \<Rightarrow> []
      | Resolved (Success rows) \<Rightarrow> map new_Invoice rows
      | Resolved (Failure error) \<Rightarrow> [])"

definition Invoice_getAll :: "env \<Rightarrow> nat \<Rightarrow> nat \<Rightarrow> world \<Rightarrow> Invoice list \<times> world" where
  "Invoice_getAll e limit offset w =
     (case executeQuery e (SelectInvoices limit offset) (select_invoices limit offset) w of
        (result, w1) \<Rightarrow> (Invoice_getAll_on (Resolved result), w1))"

subsection \<open>Invoice.search\<close>

text \<open>
  \<open>... WHERE i.invoice_number LIKE ? OR i.customer_mobile LIKE ?
  ORDER BY i.created_at DESC LIMIT 20\<close>; a \<open>NULL\<close> mobile matches nothing.
\<close>

definition search_invoices :: "string \<Rightarrow> db \<Rightarrow> invoice_join list" where
  "search_invoices searchPattern d =
     take 20
       (order_by_desc i_created_at
          (filter (\<lambda>r. sql_like searchPattern (i_invoice_number r) \<or>
                       (case i_customer_mobile r of
                          None \<Rightarrow> False
                        | Some mobile \<Rightarrow> sql_like searchPattern mobile))
             (with_pharmacist d (invoices d))))"

definition Invoice_search_on :: "invoice_join list query_result awaited \<Rightarrow> Invoice list" where
  "Invoice_search_on outcome =
     (case outcome of
        Rejected \<Rightarrow> []
      | Resolved (Success rows) \<Rightarrow> map new_Invoice rows
      | Resolved (Failure error) \<Rightarrow> [])"

definition Invoice_search :: "env \<Rightarrow> string \<Rightarrow> world \<Rightarrow> Invoice list \<times> world" where
  "Invoice_search e searchTerm w =
     (let searchPattern = ''%'' @ searchTerm @ ''%'' in
      case executeQuery e (SearchInvoices searchPattern) (search_invoices searchPattern) w of
        (result, w1) \<Rightarrow> (Invoice_search_on (Resolved result), w1))"

subsection \<open>Invoice.getSalesStats\<close>

text \<open>
  \<open>SELECT COUNT(*) as total_invoices, SUM(final_amount) as total_sales,
  AVG(final_amount) as average_sale FROM invoices WHERE 1=1\<close> with the conditions the
  function appends. The sum and the average of no row are \<open>NULL\<close>. Amounts are in
  hundredths. The average of a \<open>DECIMAL(10,2)\<close> column comes back with six decimals,
  the quotient rounded half away from zero: four decimals of a hundredth. \<open>parseFloat\<close>
  is taken to keep the decimal number it reads.
\<close>

definition round_half_away :: "rat \<Rightarrow> int" where
  "round_half_away x = (if x < 0 then - \<lfloor>- x + 1 / 2\<rfloor> else \<lfloor>x + 1 / 2\<rfloor>)"

record stats_row =
  sr_total_invoices :: nat
  sr_total_sales :: "rat option"
  sr_average_sale :: "rat option"

definition select_sales_stats ::
  "nat option \<Rightarrow> string option \<Rightarrow> string option \<Rightarrow> db \<Rightarrow> stats_row list" where
  "select_sales_stats pharmacistId dateFrom dateTo d =
     (let rows =
            filter (\<lambda>i. (case pharmacistId of None \<Rightarrow> True | Some p \<Rightarrow> i_pharmacist_id i = p) \<and>
                        (case dateFrom of None \<Rightarrow> True | Some f \<Rightarrow> f \<le> i_invoice_date i) \<and>
                        (case dateTo of None \<Rightarrow> True | Some t \<Rightarrow> i_invoice_date i \<le> t))
              (invoices d);
          n = length rows;
          s = sum_list (map i_final_amount rows)
      in [\<lparr>sr_total_invoices = n,
           sr_total_sales = (if n = 0 then None else Some (of_int s)),
           sr_average_sale =
             (if n = 0 then None
              else Some (of_int (round_half_away (of_int (s * 10000) / of_nat n)) / 10000))\<rparr>])"

record sales_stats =
  total_invoices :: nat
  total_sales :: rat
  average_sale :: rat

text \<open>\<open>parseFloat(x) || 0\<close> for a column \<open>x\<close> that may be \<open>NULL\<close>.\<close>

definition parseFloat_or_0 :: "rat option \<Rightarrow> rat" where
  "parseFloat_or_0 x = (case x of None \<Rightarrow> 0 | Some v \<Rightarrow> v)"

definition Invoice_getSalesStats_on :: "stats_row option query_result awaited \<Rightarrow> sales_stats" where
  "Invoice_getSalesStats_on outcome =
     (case outcome of
        Rejected \<Rightarrow> \<lparr>total_invoices = 0, total_sales = 0, average_sale = 0\<rparr>
      | Resolved (Success (Some data)) \<Rightarrow>
          \<lparr>total_invoices = sr_total_invoices data,
           total_sales = parseFloat_or_0 (sr_total_sales data),
           average_sale = parseFloat_or_0 (sr_average_sale data)\<rparr>
      | Resolved (Success None) \<Rightarrow> \<lparr>total_invoices = 0, total_sales = 0, average_sale = 0\<rparr>
      | Resolved (Failure error) \<Rightarrow> \<lparr>total_invoices = 0, total_sales = 0, average_sale = 0\<rparr>)"

text \<open>A parameter is used when it is truthy: not \<open>null\<close>, not \<open>0\<close>, not the empty string.\<close>

definition Invoice_getSalesStats ::
  "env \<Rightarrow> nat option \<Rightarrow> string option \<Rightarrow> string option \<Rightarrow> world \<Rightarrow> sales_stats \<times> world" where
  "Invoice_getSalesStats e pharmacistId dateFrom dateTo w =
     (let p = (case pharmacistId of None \<Rightarrow> None | Some n \<Rightarrow> if n = 0 then None else Some n);
          f = or_else dateFrom None Some;
          t = or_else dateTo None Some
      in case getOne e (SelectSalesStats p f t) (select_sales_stats p f t) w of
           (result, w1) \<Rightarrow> (Invoice_getSalesStats_on (Resolved result), w1))"

subsection \<open>Medicine.getAll\<close>

text \<open>
  \<open>SELECT m.*, c.company_name FROM medicines m LEFT JOIN companies c ON m.company_id = c.id
  WHERE m.is_active = 1 ORDER BY m.medicine_name ASC\<close>
\<close>

record Medicine = medicines_row +
  company_name :: "string option"

definition new_Medicine :: "Medicine \<Rightarrow> Medicine" where
  "new_Medicine medicineData = medicineData"

definition select_active_medicines :: "db \<Rightarrow> Medicine list" where
  "select_active_medicines d =
     sort_key m_medicine_name
       (filter m_is_active
          (map (\<lambda>(m, c). medicines_row.extend m (Medicine.fields (map_option c_company_name c)))
             (left_join (medicines d) (\<lambda>m c. m_company_id m = Some (c_id c)) (companies d))))"

definition Medicine_getAll_on :: "Medicine list query_result awaited \<Rightarrow> Medicine list" where
  "Medicine_getAll_on outcome =
     (case outcome of
        Rejected \<Rightarrow> []
      | Resolved (Success rows) \<Rightarrow> map new_Medicine rows
      | Resolved (Failure error) \<Rightarrow> [])"

definition Medicine_getAll :: "env \<Rightarrow> world \<Rightarrow> Medicine list \<times> world" where
  "Medicine_getAll e w =
     (case executeQuery e SelectActiveMedicines select_active_medicines w of
        (result, w1) \<Rightarrow> (Medicine_getAll_on (Resolved result), w1))"

section \<open>routes/pharmacist.js: POST /sales/invoice\<close>

text \<open>
  The body of the request; \<open>None\<close> is a field that is missing or not of the type the
  validators accept (an array for \<open>items\<close>, a number for the amounts).
\<close>

record sale_request =
  body_items :: "item list option"
  body_total_amount :: "money option"
  body_final_amount :: "money option"
  body_customer_name :: "string option"
  body_customer_mobile :: "string option"
  body_customer_address :: "string option"
  body_discount_amount :: "money option"
  body_payment_method :: "string option"
  body_invoice_date :: "string option"

record json_response =
  status :: nat
  success :: bool
  message :: string
  invoice_id :: "nat option"
  invoice_number :: "string option"

text \<open>
  The chain \<open>body("items").isArray({min: 1})\<close>, \<open>body("total_amount").isFloat({min: 0})\<close>,
  \<open>body("final_amount").isFloat({min: 0})\<close>: the messages of the validators that fail,
  in their order.
\<close>

definition validationResult :: "sale_request \<Rightarrow> string list" where
  "validationResult body =
     (case body_items body of
        Some (x # xs) \<Rightarrow> []
      | _ \<Rightarrow> [''At least one item is required'']) @
     (case body_total_amount body of
        Some a \<Rightarrow> if 0 \<le> a then [] else [''Total amount must be a positive number'']
      | None \<Rightarrow> [''Total amount must be a positive number'']) @
     (case body_final_amount body of
        Some a \<Rightarrow> if 0 \<le> a then [] else [''Final amount must be a positive number'']
      | None \<Rightarrow> [''Final amount must be a positive number''])"

text \<open>
  The handler. After the validation the three validated fields are present; the last
  branch stands for a body without them and is never reached.
\<close>

definition post_sales_invoice ::
  "env \<Rightarrow> nat \<Rightarrow> sale_request \<Rightarrow> world \<Rightarrow> json_response \<times> world" where
  "post_sales_invoice e session_user_id body w =
     (case validationResult body of
        msg # _ \<Rightarrow>
          (\<lparr>status = 400, success = False, message = msg,
            invoice_id = None, invoice_number = None\<rparr>, w)
      | [] \<Rightarrow>
          (case (body_items body, body_total_amount body, body_final_amount body) of
             (Some its, Some total_amt, Some final_amt) \<Rightarrow>
               (let invoiceData =
                      \<lparr>customer_name = body_customer_name body,
                       customer_mobile = body_customer_mobile body,
                       customer_address = body_customer_address body,
                       pharmacist_id = session_user_id,
                       total_amount = total_amt,
                       discount_amount = body_discount_amount body,
                       final_amount = final_amt,
                       payment_method = body_payment_method body,
                       invoice_date = body_invoice_date body\<rparr>
                in case Invoice_create e invoiceData its w of
                     (Resolved (Some invoice), w') \<Rightarrow>
                       (\<lparr>status = 200, success = True,
                         message = ''Invoice created successfully'',
                         invoice_id = Some (i_id invoice),
                         invoice_number = Some (i_invoice_number invoice)\<rparr>, w')
                   | (Resolved None, w') \<Rightarrow>
                       (\<lparr>status = 500, success = False,
                         message = ''Failed to create invoice'',
                         invoice_id = None, invoice_number = None\<rparr>, w')
                   | (Rejected, w') \<Rightarrow>
                       (\<lparr>status = 500, success = False,
                         message = ''Error creating invoice'',
                         invoice_id = None, invoice_number = None\<rparr>, w'))
           | _ \<Rightarrow>
               (\<lparr>status = 500, success = False, message = ''Error creating invoice'',
                 invoice_id = None, invoice_number = None\<rparr>, w)))"

section \<open>Notions used to state the properties\<close>

text \<open>The stock of medicine \<open>m\<close>: the \<open>quantity_in_stock\<close> of its row.\<close>

definition stock_of :: "db \<Rightarrow> nat \<Rightarrow> int option" where
  "stock_of d m = map_option m_quantity_in_stock (find (\<lambda>r. m_id r = m) (medicines d))"

text \<open>The quantity of medicine \<open>m\<close> sold by a list of items.\<close>

definition quantity_sold :: "item list \<Rightarrow> nat \<Rightarrow> int" where
  "quantity_sold its m = sum_list (map quantity (filter (\<lambda>it. medicine_id it = m) its))"

text \<open>
  The rows a sale is expected to add: the invoice under the identifier \<open>ident\<close>, one
  line per item, one movement per item.
\<close>

definition invoice_row :: "env \<Rightarrow> nat \<Rightarrow> invoice_values \<Rightarrow> invoices_row" where
  "invoice_row e ident v =
     \<lparr>i_id = ident,
      i_invoice_number = v_invoice_number v,
      i_customer_name = v_customer_name v,
      i_customer_mobile = v_customer_mobile v,
      i_customer_address = v_customer_address v,
      i_pharmacist_id = v_pharmacist_id v,
      i_total_amount = v_total_amount v,
      i_discount_amount = v_discount_amount v,
      i_final_amount = v_final_amount v,
      i_payment_method = v_payment_method v,
      i_invoice_date = v_invoice_date v,
      i_created_at = CURRENT_TIMESTAMP e\<rparr>"

definition item_rows :: "nat \<Rightarrow> nat \<Rightarrow> item list \<Rightarrow> invoice_items_row list" where
  "item_rows first invoiceId its =
     map (\<lambda>(k, it). \<lparr>ii_id = k, ii_invoice_id = invoiceId, ii_medicine_id = medicine_id it,
                      ii_quantity = quantity it, ii_unit_price = unit_price it,
                      ii_total_price = total_price it\<rparr>)
       (enumerate first its)"

definition movement_rows ::
  "nat \<Rightarrow> nat \<Rightarrow> string \<Rightarrow> nat \<Rightarrow> item list \<Rightarrow> stock_movements_row list" where
  "movement_rows first invoiceId invoiceNumber pharmacist its =
     map (\<lambda>(k, it). \<lparr>sm_id = k, sm_medicine_id = medicine_id it, sm_movement_type = MoveOut,
                      sm_quantity = quantity it, sm_reference_type = RefSale,
                      sm_reference_id = Some invoiceId,
                      sm_notes = Some (''Sale via invoice '' @ invoiceNumber),
                      sm_created_by = pharmacist\<rparr>)
       (enumerate first its)"

definition sold_stock :: "item list \<Rightarrow> medicines_row list \<Rightarrow> medicines_row list" where
  "sold_stock its ms =
     map (\<lambda>m. m\<lparr>m_quantity_in_stock := m_quantity_in_stock m - quantity_sold its (m_id m)\<rparr>) ms"

text \<open>The tables after a whole sale, all four effects together.\<close>

definition sale_effect ::
  "env \<Rightarrow> auto_increment \<Rightarrow> string \<Rightarrow> invoice_data \<Rightarrow> item list \<Rightarrow> db \<Rightarrow> db" where
  "sale_effect e counters invoiceNumber invoiceData its d =
     d\<lparr>invoices :=
         invoices d @ [invoice_row e (next_invoice_id counters)
                         (invoice_params e invoiceNumber invoiceData)],
       invoice_items :=
         invoice_items d @ item_rows (next_invoice_item_id counters) (next_invoice_id counters) its,
       medicines := sold_stock its (medicines d),
       stock_movements :=
         stock_movements d @
           movement_rows (next_stock_movement_id counters) (next_invoice_id counters)
             invoiceNumber (pharmacist_id invoiceData) its\<rparr>"

text \<open>
  What the schema and the counters guarantee of the committed tables: primary keys are
  distinct, and the next invoice identifier is above every identifier in use (by an
  invoice, by a line, by the movement of a sale).
\<close>

definition well_formed :: "world \<Rightarrow> bool" where
  "well_formed w =
     (distinct (map u_id (users (tables w))) \<and>
      distinct (map c_id (companies (tables w))) \<and>
      distinct (map m_id (medicines (tables w))) \<and>
      list_all (\<lambda>i. i_id i < next_invoice_id (auto_inc w)) (invoices (tables w)) \<and>
      list_all (\<lambda>ii. ii_invoice_id ii < next_invoice_id (auto_inc w)) (invoice_items (tables w)) \<and>
      list_all (\<lambda>sm. case sm_reference_id sm of
                        None \<Rightarrow> True
                      | Some r \<Rightarrow> sm_reference_type sm = RefSale \<longrightarrow> r < next_invoice_id (auto_inc w))
        (stock_movements (tables w)))"

text \<open>The statements the loop sends for a list of items, when none fails.\<close>

definition item_statements :: "nat \<Rightarrow> item list \<Rightarrow> statement list" where
  "item_statements invoiceId its =
     concat (map (\<lambda>it. [InsertInvoiceItem invoiceId (medicine_id it) (quantity it),
                         UpdateStock (medicine_id it) (quantity it),
                         InsertStockMovement (medicine_id it) (quantity it) invoiceId]) its)"

text \<open>The statements that write, and the statements a call has sent.\<close>

definition write_statement :: "statement \<Rightarrow> bool" where
  "write_statement st =
     (case st of
        InsertInvoice n \<Rightarrow> True
      | InsertInvoiceItem i m q \<Rightarrow> True
      | UpdateStock m q \<Rightarrow> True
      | InsertStockMovement m q i \<Rightarrow> True
      | Commit \<Rightarrow> True
      | _ \<Rightarrow> False)"

definition issued :: "world \<Rightarrow> world \<Rightarrow> statement list" where
  "issued w w' = drop (length (oplog w)) (oplog w')"

text \<open>What a committed sale returns when both reads of \<open>findById\<close> succeed.\<close>

definition returned_for ::
  "env \<Rightarrow> world \<Rightarrow> invoice_data \<Rightarrow> item list \<Rightarrow> Invoice \<Rightarrow> bool" where
  "returned_for e w invoiceData its invoice =
     (invoices_row.truncate invoice =
        invoice_row e (next_invoice_id (auto_inc w))
          (invoice_params e (fst (generateInvoiceNumber e w)) invoiceData) \<and>
      map invoice_items_row.truncate (items invoice) =
        item_rows (next_invoice_item_id (auto_inc w)) (next_invoice_id (auto_inc w)) its \<and>
      (\<exists>u\<in>set (users (tables w)).
         u_id u = pharmacist_id invoiceData \<and> pharmacist_name invoice = Some (u_full_name u)))"

text \<open>The identifier of the invoice a call returned, if it returned one.\<close>

definition resolved_id :: "Invoice option awaited \<Rightarrow> nat option" where
  "resolved_id outcome =
     (case outcome of Resolved (Some invoice) \<Rightarrow> Some (i_id invoice) | _ \<Rightarrow> None)"

text \<open>The movements \<open>out\<close>/\<open>sale\<close> of medicine \<open>m\<close> that refer to the invoice \<open>ident\<close>.\<close>

definition sale_movements :: "db \<Rightarrow> nat \<Rightarrow> nat \<Rightarrow> stock_movements_row list" where
  "sale_movements d ident m =
     filter (\<lambda>sm. sm_medicine_id sm = m \<and> sm_movement_type sm = MoveOut \<and>
                  sm_reference_type sm = RefSale \<and> sm_reference_id sm = Some ident)
       (stock_movements d)"

text \<open>The number of the invoice a call returned, if it returned one.\<close>

definition resolved_number :: "Invoice option awaited \<Rightarrow> string option" where
  "resolved_number outcome =
     (case outcome of Resolved (Some invoice) \<Rightarrow> Some (i_invoice_number invoice) | _ \<Rightarrow> None)"

text \<open>The form \<open>INV-YYYYMMDD-NNN\<close>.\<close>

definition invoice_number_form :: "string \<Rightarrow> bool" where
  "invoice_number_form s =
     (length s = 16 \<and> take 4 s = ''INV-'' \<and>
      list_all (is_digit 10) (take 8 (drop 4 s)) \<and>
      s ! 12 = CHR ''-'' \<and>
      list_all (is_digit 10) (drop 13 s))"

text \<open>The invoices whose number matches the prefix of the day.\<close>

definition invoices_of_the_day :: "env \<Rightarrow> db \<Rightarrow> invoices_row list" where
  "invoices_of_the_day e d =
     filter (\<lambda>i. sql_like (invoice_prefix e @ ''%'') (i_invoice_number i)) (invoices d)"

text \<open>
  The numbering in the words of the specification: the last number is the highest matching
  invoice number, as a lexicographic maximum.
\<close>

definition spec_last_invoice_number :: "string \<Rightarrow> db \<Rightarrow> string option" where
  "spec_last_invoice_number pattern d =
     (case filter (sql_like pattern) (map i_invoice_number (invoices d)) of
        [] \<Rightarrow> None
      | n # ns \<Rightarrow> Some (foldl max n ns))"

definition spec_generateInvoiceNumber :: "env \<Rightarrow> db \<Rightarrow> string" where
  "spec_generateInvoiceNumber e d =
     invoice_prefix e @ ''-'' @
     padStart 3 CHR ''0''
       (String (case spec_last_invoice_number (invoice_prefix e @ ''%'') d of
                  None \<Rightarrow> Some 1
                | Some lastNumber \<Rightarrow>
                    (case parseInt (split_pop lastNumber) of
                       None \<Rightarrow> None
                     | Some lastSequence \<Rightarrow> Some (lastSequence + 1))))"

section \<open>The writes of a sale as the server applies them\<close>

text \<open>
  The four writing statements of \<open>Invoice.create\<close>, each applied by the server to the
  rows it finds: the update of the stock subtracts from the quantity that is there.
\<close>

datatype db_write =
    InsertInvoiceRow invoices_row
  | InsertItemRow invoice_items_row
  | DecrementStock nat int
  | InsertMovementRow stock_movements_row

fun apply_write :: "db_write \<Rightarrow> db \<Rightarrow> db" where
  "apply_write (InsertInvoiceRow r) d = d\<lparr>invoices := invoices d @ [r]\<rparr>"
| "apply_write (InsertItemRow r) d = d\<lparr>invoice_items := invoice_items d @ [r]\<rparr>"
| "apply_write (DecrementStock mid qty) d =
     d\<lparr>medicines :=
         map (\<lambda>m. if m_id m = mid
                   then m\<lparr>m_quantity_in_stock := m_quantity_in_stock m - qty\<rparr> else m)
             (medicines d)\<rparr>"
| "apply_write (InsertMovementRow r) d = d\<lparr>stock_movements := stock_movements d @ [r]\<rparr>"

definition apply_writes :: "db_write list \<Rightarrow> db \<Rightarrow> db" where
  "apply_writes ws d = foldl (\<lambda>d' wr. apply_write wr d') d ws"

text \<open>What a write takes from the stock of medicine \<open>m\<close>.\<close>

fun decrement_of :: "db_write \<Rightarrow> nat \<Rightarrow> int" where
  "decrement_of (DecrementStock mid qty) m = (if mid = m then qty else 0)"
| "decrement_of (InsertInvoiceRow r) m = 0"
| "decrement_of (InsertItemRow r) m = 0"
| "decrement_of (InsertMovementRow r) m = 0"

section \<open>Invoice.create statement by statement\<close>

text \<open>
  Between two \<open>await\<close>s of \<open>Invoice.create\<close> other calls run. A call stands at one of
  its \<open>await\<close>s, with the local variables it holds there (\<open>invoiceNumber\<close>,
  \<open>invoiceId\<close>, the item of the loop and the items still to come), or it is over. Its
  connection holds the writes of its open transaction.
\<close>

text \<open>
  With one call at a time the view of a connection is the committed tables with its own
  writes applied, and its commit makes the view the committed tables, as in
  \<open>commitTransaction\<close> above. With two connections open the server applies the writes of
  a connection to the rows that are committed when it commits. Of the locks of the server
  only the wait on the \<open>UNIQUE\<close> key is kept, the one that changes an outcome: a
  statement that the server would make wait for a row lock goes ahead here and meets the
  same rows at its commit, and a statement that the server gives up for a deadlock or a
  lock timeout is a statement that fails.
\<close>

datatype create_point =
    At_beginTransaction
  | At_generateInvoiceNumber
  | At_insert_invoice string
  | At_insert_item nat string item "item list"
  | At_update_stock nat string item "item list"
  | At_insert_movement nat string item "item list"
  | At_commitTransaction nat
  | At_findById nat
  | At_rollbackTransaction
  | Settled "Invoice option awaited"

type_synonym create_call = "create_point \<times> db_write list"

text \<open>
  What a statement of a connection works on: the committed rows with the writes of its own
  transaction applied. The writes of the other connections are not in it before they commit.
\<close>

definition connection_view :: "db_write list \<Rightarrow> world \<Rightarrow> db" where
  "connection_view connection w = apply_writes connection (tables w)"

text \<open>
  The \<open>UNIQUE\<close> key on \<open>invoice_number\<close> makes an insert wait while another open
  transaction holds a row with the same number: whether the number is a duplicate is
  decided when that transaction has committed or rolled back.
\<close>

definition waits_for_key :: "string \<Rightarrow> db_write list \<Rightarrow> bool" where
  "waits_for_key invoiceNumber others =
     list_ex (\<lambda>wr. case wr of InsertInvoiceRow r \<Rightarrow> i_invoice_number r = invoiceNumber
                             | _ \<Rightarrow> False) others"

text \<open>Where the loop \<open>for (const item of items)\<close> goes next.\<close>

definition loop_from :: "nat \<Rightarrow> string \<Rightarrow> item list \<Rightarrow> create_point" where
  "loop_from invoiceId invoiceNumber rest =
     (case rest of
        [] \<Rightarrow> At_commitTransaction invoiceId
      | it # rest' \<Rightarrow> At_insert_item invoiceId invoiceNumber it rest')"

text \<open>
  One \<open>await\<close> of a call of \<open>Invoice.create\<close>, given the writes \<open>others\<close> that the
  other open transactions hold. An exception inside the \<open>try\<close> block leads to the
  \<open>catch\<close> block, which rolls back.
\<close>

fun create_step ::
  "env \<Rightarrow> invoice_data \<Rightarrow> item list \<Rightarrow> db_write list \<Rightarrow> create_call \<Rightarrow> world
     \<Rightarrow> create_call \<times> world" where
  "create_step e invoiceData its others (At_beginTransaction, connection) w =
     (case beginTransaction e w of
        (Inl error, w1) \<Rightarrow> ((Settled Rejected, []), w1)
      | (Inr _, w1) \<Rightarrow> ((At_generateInvoiceNumber, []), w1))"
| "create_step e invoiceData its others (At_generateInvoiceNumber, connection) w =
     (case generateInvoiceNumber e w of
        (invoiceNumber, w1) \<Rightarrow> ((At_insert_invoice invoiceNumber, connection), w1))"
| "create_step e invoiceData its others (At_insert_invoice invoiceNumber, connection) w =
     (if waits_for_key invoiceNumber others
      then ((At_insert_invoice invoiceNumber, connection), w)
      else
        (case execute_insert_invoice e (invoice_params e invoiceNumber invoiceData)
                (connection_view connection w) w of
           (Inl error, c1, w1) \<Rightarrow> ((At_rollbackTransaction, connection), w1)
         | (Inr invoiceId, c1, w1) \<Rightarrow>
             ((loop_from invoiceId invoiceNumber its,
               connection @ [InsertInvoiceRow (last (invoices c1))]), w1)))"
| "create_step e invoiceData its others (At_insert_item invoiceId invoiceNumber it rest, connection) w =
     (case execute_insert_invoice_item e invoiceId it (connection_view connection w) w of
        (Inl error, c1, w1) \<Rightarrow> ((At_rollbackTransaction, connection), w1)
      | (Inr _, c1, w1) \<Rightarrow>
          ((At_update_stock invoiceId invoiceNumber it rest,
            connection @ [InsertItemRow (last (invoice_items c1))]), w1))"
| "create_step e invoiceData its others (At_update_stock invoiceId invoiceNumber it rest, connection) w =
     (case execute_update_stock e (quantity it) (medicine_id it) (connection_view connection w) w of
        (Inl error, c1, w1) \<Rightarrow> ((At_rollbackTransaction, connection), w1)
      | (Inr _, c1, w1) \<Rightarrow>
          ((At_insert_movement invoiceId invoiceNumber it rest,
            connection @ [DecrementStock (medicine_id it) (quantity it)]), w1))"
| "create_step e invoiceData its others (At_insert_movement invoiceId invoiceNumber it rest, connection) w =
     (case execute_insert_stock_movement e (medicine_id it) (quantity it) invoiceId
             (''Sale via invoice '' @ invoiceNumber) (pharmacist_id invoiceData)
             (connection_view connection w) w of
        (Inl error, c1, w1) \<Rightarrow> ((At_rollbackTransaction, connection), w1)
      | (Inr _, c1, w1) \<Rightarrow>
          ((loop_from invoiceId invoiceNumber rest,
            connection @ [InsertMovementRow (last (stock_movements c1))]), w1))"
| "create_step e invoiceData its others (At_commitTransaction invoiceId, connection) w =
     (case commitTransaction e (connection_view connection w) w of
        (Inl error, w1) \<Rightarrow> ((At_rollbackTransaction, connection), w1)
      | (Inr _, w1) \<Rightarrow> ((At_findById invoiceId, []), w1))"
| "create_step e invoiceData its others (At_findById invoiceId, connection) w =
     (case Invoice_findById e invoiceId w of
        (invoice, w1) \<Rightarrow> ((Settled (Resolved invoice), connection), w1))"
| "create_step e invoiceData its others (At_rollbackTransaction, connection) w =
     (case rollbackTransaction e (connection_view connection w) w of
        (Inl error, w1) \<Rightarrow> ((Settled Rejected, connection), w1)
      | (Inr _, w1) \<Rightarrow> ((Settled (Resolved None), []), w1))"
| "create_step e invoiceData its others (Settled outcome, connection) w =
     ((Settled outcome, connection), w)"

text \<open>A call alone: \<open>n\<close> of its steps in a row, no other transaction open.\<close>

fun create_alone ::
  "nat \<Rightarrow> env \<Rightarrow> invoice_data \<Rightarrow> item list \<Rightarrow> create_call \<Rightarrow> world \<Rightarrow> create_call \<times> world" where
  "create_alone 0 e invoiceData its c w = (c, w)"
| "create_alone (Suc n) e invoiceData its c w =
     (case create_step e invoiceData its [] c w of
        (c1, w1) \<Rightarrow> create_alone n e invoiceData its c1 w1)"

text \<open>
  Two calls of \<open>Invoice.create\<close> on one server. A schedule says whose \<open>await\<close>
  completes next.
\<close>

datatype turn = First | Second

record sale =
  sale_env :: env
  sale_data :: invoice_data
  sale_items :: "item list"

fun two_sales ::
  "sale \<Rightarrow> sale \<Rightarrow> turn list \<Rightarrow> create_call \<times> create_call \<times> world
     \<Rightarrow> create_call \<times> create_call \<times> world" where
  "two_sales a b [] s = s"
| "two_sales a b (First # schedule) (ca, cb, w) =
     (case create_step (sale_env a) (sale_data a) (sale_items a) (snd cb) ca w of
        (ca1, w1) \<Rightarrow> two_sales a b schedule (ca1, cb, w1))"
| "two_sales a b (Second # schedule) (ca, cb, w) =
     (case create_step (sale_env b) (sale_data b) (sale_items b) (snd ca) cb w of
        (cb1, w1) \<Rightarrow> two_sales a b schedule (ca, cb1, w1))"

definition start :: create_call where
  "start = (At_beginTransaction, [])"

text \<open>The invoice a call has returned, if it has returned one.\<close>

definition returned_invoice :: "create_call \<Rightarrow> Invoice option" where
  "returned_invoice c = (case fst c of Settled (Resolved (Some invoice)) \<Rightarrow> Some invoice | _ \<Rightarrow> None)"

text \<open>
  What the connection of a call holds back from the stock of medicine \<open>m\<close>, and what
  holds of a call at each point: how much of the stock of \<open>m\<close> it has taken from the
  committed tables, and how much its connection holds for the items it has run through.
\<close>

definition uncommitted :: "db_write list \<Rightarrow> nat \<Rightarrow> int" where
  "uncommitted connection m = sum_list (map (\<lambda>wr. decrement_of wr m) connection)"

fun stock_taken :: "item list \<Rightarrow> nat \<Rightarrow> create_call \<Rightarrow> int \<Rightarrow> bool" where
  "stock_taken its m (At_beginTransaction, connection) taken = (taken = 0)"
| "stock_taken its m (At_generateInvoiceNumber, connection) taken =
     (taken = 0 \<and> uncommitted connection m = 0)"
| "stock_taken its m (At_insert_invoice invoiceNumber, connection) taken =
     (taken = 0 \<and> uncommitted connection m = 0)"
| "stock_taken its m (At_insert_item invoiceId invoiceNumber it rest, connection) taken =
     (taken = 0 \<and> uncommitted connection m + quantity_sold (it # rest) m = quantity_sold its m)"
| "stock_taken its m (At_update_stock invoiceId invoiceNumber it rest, connection) taken =
     (taken = 0 \<and> uncommitted connection m + quantity_sold (it # rest) m = quantity_sold its m)"
| "stock_taken its m (At_insert_movement invoiceId invoiceNumber it rest, connection) taken =
     (taken = 0 \<and> uncommitted connection m + quantity_sold rest m = quantity_sold its m)"
| "stock_taken its m (At_commitTransaction invoiceId, connection) taken =
     (taken = 0 \<and> uncommitted connection m = quantity_sold its m)"
| "stock_taken its m (At_findById invoiceId, connection) taken = (taken = quantity_sold its m)"
| "stock_taken its m (At_rollbackTransaction, connection) taken = (taken = 0)"
| "stock_taken its m (Settled (Resolved (Some invoice)), connection) taken =
     (taken = quantity_sold its m)"
| "stock_taken its m (Settled (Resolved None), connection) taken =
     (taken = 0 \<or> taken = quantity_sold its m)"
| "stock_taken its m (Settled Rejected, connection) taken = (taken = 0)"

section \<open>Sample data (after database_setup.sql)\<close>

definition sample_db :: db where
  "sample_db =
     \<lparr>users = [\<lparr>u_id = 1, u_full_name = ''System Administrator''\<rparr>,
               \<lparr>u_id = 2, u_full_name = ''John Pharmacist''\<rparr>],
      companies = [\<lparr>c_id = 1, c_company_name = ''ABC Pharmaceuticals Ltd.''\<rparr>],
      medicines =
        [\<lparr>m_id = 1, m_medicine_name = ''Paracetamol 500mg'',
          m_generic_name = Some ''Acetaminophen'', m_company_id = Some 1,
          m_selling_price = 300, m_quantity_in_stock = 100, m_min_stock_level = 20,
          m_is_active = True\<rparr>,
         \<lparr>m_id = 2, m_medicine_name = ''Amoxicillin 250mg'',
          m_generic_name = Some ''Amoxicillin'', m_company_id = None,
          m_selling_price = 650, m_quantity_in_stock = 10, m_min_stock_level = 15,
          m_is_active = True\<rparr>],
      invoices = [],
      invoice_items = [],
      stock_movements = []\<rparr>"

definition sample_world :: world where
  "sample_world =
     \<lparr>tables = sample_db,
      auto_inc = \<lparr>next_invoice_id = 1, next_invoice_item_id = 1, next_stock_movement_id = 1\<rparr>,
      oplog = []\<rparr>"

definition sample_env :: env where
  "sample_env =
     \<lparr>getFullYear = 2024, getMonth = 0, getDate = 1, Date_now = 1704067200000,
      toISODate = ''2024-01-01'', CURRENT_TIMESTAMP = 1704067200, fails = (\<lambda>st. False)\<rparr>"

definition sample_data :: invoice_data where
  "sample_data =
     \<lparr>customer_name = Some ''Customer One'', customer_mobile = None, customer_address = None,
      pharmacist_id = 2, total_amount = 900, discount_amount = None, final_amount = 900,
      payment_method = None, invoice_date = None\<rparr>"

definition sale_of_three :: "item list" where
  "sale_of_three = [\<lparr>medicine_id = 1, quantity = 3, unit_price = 300, total_price = 900\<rparr>]"

text \<open>The sample environment in which exactly the statement \<open>st\<close> fails.\<close>

definition failing_env :: "statement \<Rightarrow> env" where
  "failing_env st = sample_env\<lparr>fails := (\<lambda>s. s = st)\<rparr>"

definition sample_request :: "item list \<Rightarrow> sale_request" where
  "sample_request its =
     \<lparr>body_items = Some its, body_total_amount = Some 900, body_final_amount = Some 900,
      body_customer_name = Some ''Customer One'', body_customer_mobile = None,
      body_customer_address = None, body_discount_amount = None,
      body_payment_method = None, body_invoice_date = None\<rparr>"

text \<open>One medicine on two lines; more units than there are in stock.\<close>

definition sale_on_two_lines :: "item list" where
  "sale_on_two_lines =
     [\<lparr>medicine_id = 1, quantity = 2, unit_price = 300, total_price = 600\<rparr>,
      \<lparr>medicine_id = 1, quantity = 3, unit_price = 300, total_price = 900\<rparr>]"

definition oversell :: "item list" where
  "oversell = [\<lparr>medicine_id = 2, quantity = 15, unit_price = 650, total_price = 9750\<rparr>]"

text \<open>The world after the sample sale.\<close>

definition sold_world :: world where
  "sold_world =
     \<lparr>tables =
        sample_db
          \<lparr>medicines :=
             [\<lparr>m_id = 1, m_medicine_name = ''Paracetamol 500mg'',
               m_generic_name = Some ''Acetaminophen'', m_company_id = Some 1,
               m_selling_price = 300, m_quantity_in_stock = 97, m_min_stock_level = 20,
               m_is_active = True\<rparr>,
              \<lparr>m_id = 2, m_medicine_name = ''Amoxicillin 250mg'',
               m_generic_name = Some ''Amoxicillin'', m_company_id = None,
               m_selling_price = 650, m_quantity_in_stock = 10, m_min_stock_level = 15,
               m_is_active = True\<rparr>],
           invoices :=
             [\<lparr>i_id = 1, i_invoice_number = ''INV-20240101-001'',
               i_customer_name = Some ''Customer One'', i_customer_mobile = None,
               i_customer_address = None, i_pharmacist_id = 2, i_total_amount = 900,
               i_discount_amount = 0, i_final_amount = 900, i_payment_method = ''cash'',
               i_invoice_date = ''2024-01-01'', i_created_at = 1704067200\<rparr>],
           invoice_items :=
             [\<lparr>ii_id = 1, ii_invoice_id = 1, ii_medicine_id = 1, ii_quantity = 3,
               ii_unit_price = 300, ii_total_price = 900\<rparr>],
           stock_movements :=
             [\<lparr>sm_id = 1, sm_medicine_id = 1, sm_movement_type = MoveOut, sm_quantity = 3,
               sm_reference_type = RefSale, sm_reference_id = Some 1,
               sm_notes = Some ''Sale via invoice INV-20240101-001'', sm_created_by = 2\<rparr>]\<rparr>,
      auto_inc = \<lparr>next_invoice_id = 2, next_invoice_item_id = 2, next_stock_movement_id = 2\<rparr>,
      oplog =
        [BeginTransaction, SelectLastInvoiceNumber ''INV-20240101%'',
         InsertInvoice ''INV-20240101-001'', InsertInvoiceItem 1 1 3, UpdateStock 1 3,
         InsertStockMovement 1 3 1, Commit, SelectInvoiceById 1, SelectInvoiceItems 1]\<rparr>"

text \<open>A day on which the thousandth invoice has been written.\<close>

definition busy_day_world :: world where
  "busy_day_world =
     \<lparr>tables =
        sample_db
          \<lparr>invoices :=
             [\<lparr>i_id = 999, i_invoice_number = ''INV-20240101-999'',
               i_customer_name = None, i_customer_mobile = None, i_customer_address = None,
               i_pharmacist_id = 2, i_total_amount = 300, i_discount_amount = 0,
               i_final_amount = 300, i_payment_method = ''cash'',
               i_invoice_date = ''2024-01-01'', i_created_at = 1704067200\<rparr>,
              \<lparr>i_id = 1000, i_invoice_number = ''INV-20240101-1000'',
               i_customer_name = None, i_customer_mobile = None, i_customer_address = None,
               i_pharmacist_id = 2, i_total_amount = 300, i_discount_amount = 0,
               i_final_amount = 300, i_payment_method = ''cash'',
               i_invoice_date = ''2024-01-01'', i_created_at = 1704067200\<rparr>]\<rparr>,
      auto_inc = \<lparr>next_invoice_id = 1001, next_invoice_item_id = 1, next_stock_movement_id = 1\<rparr>,
      oplog = []\<rparr>"

text \<open>An environment in which every statement fails, and a database with no row.\<close>

definition offline_env :: env where
  "offline_env = sample_env\<lparr>fails := (\<lambda>st. True)\<rparr>"

definition empty_world :: world where
  "empty_world =
     \<lparr>tables = \<lparr>users = [], companies = [], medicines = [], invoices = [],
                 invoice_items = [], stock_movements = []\<rparr>,
      auto_inc = \<lparr>next_invoice_id = 1, next_invoice_item_id = 1, next_stock_movement_id = 1\<rparr>,
      oplog = []\<rparr>"

text \<open>
  Two sales of five units of the second medicine: the second opens its transaction before
  the first has written, and asks for its number after the first has committed; or both
  take their steps in turn.
\<close>

definition five_units :: "item list" where
  "five_units = [\<lparr>medicine_id = 2, quantity = 5, unit_price = 650, total_price = 3250\<rparr>]"

definition sale_of_five :: sale where
  "sale_of_five = \<lparr>sale_env = sample_env, sale_data = sample_data, sale_items = five_units\<rparr>"

definition overlapping :: "turn list" where
  "overlapping =
     [First, Second,
      First, First, First, First, First, First,
      Second, First,
      Second, Second, Second, Second, Second, Second]"

definition together :: "turn list" where
  "together =
     [First, Second, First, Second, First, Second, First, Second,
      First, Second, First, Second, First, Second, First, Second]"

section \<open>Definitions unfolded to evaluate the model on the sample data\<close>

lemma replicate_numeral: "replicate (numeral k) x = x # replicate (pred_numeral k) x"
  by (simp add: numeral_eq_Suc)

lemmas string_defs = replicate_numeral fold_case_def padStart_def String_def string_of_nat.simps digit_char_def parseInt_def
  split_pop_def digits_value_def is_digit_def digit_of_def is_whitespace_def
lemmas storage_defs = issue_def pool_execute_def executeQuery_def getOne_def beginTransaction_def
  commitTransaction_def rollbackTransaction_def execute_insert_invoice_def
  execute_insert_invoice_item_def execute_update_stock_def execute_insert_stock_movement_def
lemmas query_defs = left_join_def order_by_desc_def select_last_invoice_number_def
  with_pharmacist_def select_invoice_by_id_def select_invoice_items_def
  invoices_row.defs invoice_join.defs invoice_items_row.defs item_view.defs Invoice.defs
lemmas invoice_defs = new_Invoice_def invoice_prefix_def generateInvoiceNumber_on_def
  generateInvoiceNumber_def Invoice_findById_def or_else_def invoice_params_def create_try_def
  Invoice_create_def
lemmas sample_defs = sample_db_def sample_world_def sample_env_def sample_data_def
  sale_of_three_def failing_env_def sale_on_two_lines_def oversell_def sample_request_def
  sold_world_def busy_day_world_def offline_env_def empty_world_def
lemmas notion_defs = invoice_number_form_def invoices_of_the_day_def spec_last_invoice_number_def
  spec_generateInvoiceNumber_def stock_of_def quantity_sold_def sale_movements_def resolved_id_def
  resolved_number_def
  well_formed_def issued_def write_statement_def

lemmas eval_defs = string_defs storage_defs query_defs invoice_defs sample_defs notion_defs Let_def

section \<open>The statements of the connection\<close>

lemma tables_issue [simp]: "tables (issue st w) = tables w"
  by (simp add: issue_def)

lemma auto_inc_issue [simp]: "auto_inc (issue st w) = auto_inc w"
  by (simp add: issue_def)

lemma oplog_issue [simp]: "oplog (issue st w) = oplog w @ [st]"
  by (simp add: issue_def)

lemma insert_invoice_item_Inr:
  assumes "execute_insert_invoice_item e invoiceId it c w = (Inr k, c', w')"
  shows "k = next_invoice_item_id (auto_inc w)"
    and "c' = c\<lparr>invoice_items := invoice_items c @ item_rows k invoiceId [it]\<rparr>"
    and "tables w' = tables w"
    and "auto_inc w' = (auto_inc w)\<lparr>next_invoice_item_id := Suc k\<rparr>"
    and "oplog w' = oplog w @ [InsertInvoiceItem invoiceId (medicine_id it) (quantity it)]"
  using assms
  by (auto simp: execute_insert_invoice_item_def Let_def item_rows_def enumerate_eq_zip
           split: if_splits)

lemma insert_invoice_item_Inl:
  assumes "execute_insert_invoice_item e invoiceId it c w = (Inl err, c', w')"
  shows "tables w' = tables w"
  using assms
  by (auto simp: execute_insert_invoice_item_def Let_def split: if_splits)

lemma update_stock_Inr:
  assumes "execute_update_stock e qty mid c w = (Inr u, c', w')"
  shows "c' = c\<lparr>medicines :=
                  map (\<lambda>m. if m_id m = mid
                            then m\<lparr>m_quantity_in_stock := m_quantity_in_stock m - qty\<rparr> else m)
                      (medicines c)\<rparr>"
    and "tables w' = tables w"
    and "auto_inc w' = auto_inc w"
    and "oplog w' = oplog w @ [UpdateStock mid qty]"
  using assms
  by (auto simp: execute_update_stock_def Let_def split: if_splits)

lemma update_stock_Inl:
  assumes "execute_update_stock e qty mid c w = (Inl err, c', w')"
  shows "tables w' = tables w"
  using assms
  by (auto simp: execute_update_stock_def Let_def split: if_splits)

lemma insert_stock_movement_Inr:
  assumes "execute_insert_stock_movement e mid qty invoiceId notes created_by c w = (Inr k, c', w')"
  shows "k = next_stock_movement_id (auto_inc w)"
    and "c' = c\<lparr>stock_movements := stock_movements c @
                  [\<lparr>sm_id = k, sm_medicine_id = mid, sm_movement_type = MoveOut,
                    sm_quantity = qty, sm_reference_type = RefSale,
                    sm_reference_id = Some invoiceId, sm_notes = Some notes,
                    sm_created_by = created_by\<rparr>]\<rparr>"
    and "tables w' = tables w"
    and "auto_inc w' = (auto_inc w)\<lparr>next_stock_movement_id := Suc k\<rparr>"
    and "oplog w' = oplog w @ [InsertStockMovement mid qty invoiceId]"
  using assms
  by (auto simp: execute_insert_stock_movement_def Let_def split: if_splits)

lemma insert_stock_movement_Inl:
  assumes "execute_insert_stock_movement e mid qty invoiceId notes created_by c w = (Inl err, c', w')"
  shows "tables w' = tables w"
  using assms
  by (auto simp: execute_insert_stock_movement_def Let_def split: if_splits)

text \<open>No statement of the loop touches the committed tables, whatever its outcome.\<close>

lemma create_items_tables:
  "create_items e invoiceId invoiceNumber pharmacist its c w = (r, c', w') \<Longrightarrow>
   tables w' = tables w"
proof (induction its arbitrary: c w)
  case Nil
  then show ?case by simp
next
  case (Cons it rest)
  obtain r1 c1 w1 where s1: "execute_insert_invoice_item e invoiceId it c w = (r1, c1, w1)"
    by (metis prod_cases3)
  show ?case
  proof (cases r1)
    case (Inl err)
    with Cons.prems s1 show ?thesis
      by (auto dest: insert_invoice_item_Inl)
  next
    case (Inr k)
    note r1 = this
    have t1: "tables w1 = tables w"
      using s1 r1 by (auto dest: insert_invoice_item_Inr(3))
    obtain r2 c2 w2 where
      s2: "execute_update_stock e (quantity it) (medicine_id it) c1 w1 = (r2, c2, w2)"
      by (metis prod_cases3)
    show ?thesis
    proof (cases r2)
      case (Inl err)
      with Cons.prems s1 r1 s2 t1 show ?thesis
        by (auto dest: update_stock_Inl)
    next
      case (Inr u)
      note r2 = this
      have t2: "tables w2 = tables w"
        using s2 r2 t1 by (auto dest: update_stock_Inr(2))
      obtain r3 c3 w3 where
        s3: "execute_insert_stock_movement e (medicine_id it) (quantity it) invoiceId
               (''Sale via invoice '' @ invoiceNumber) pharmacist c2 w2 = (r3, c3, w3)"
        by (metis prod_cases3)
      show ?thesis
      proof (cases r3)
        case (Inl err)
        with Cons.prems s1 r1 s2 r2 s3 t2 show ?thesis
          by (auto dest: insert_stock_movement_Inl)
      next
        case (Inr k3)
        have t3: "tables w3 = tables w"
          using s3 Inr t2 by (auto dest: insert_stock_movement_Inr(3))
        have "create_items e invoiceId invoiceNumber pharmacist rest c3 w3 = (r, c', w')"
          using Cons.prems s1 r1 s2 r2 s3 Inr by simp
        from Cons.IH [OF this] t3 show ?thesis by simp
      qed
    qed
  qed
qed

section \<open>The loop over the items\<close>

lemma sold_stock_Nil [simp]: "sold_stock [] ms = ms"
  by (simp add: sold_stock_def quantity_sold_def)

lemma sold_stock_Cons:
  "sold_stock (it # rest) ms =
   sold_stock rest
     (map (\<lambda>m. if m_id m = medicine_id it
               then m\<lparr>m_quantity_in_stock := m_quantity_in_stock m - quantity it\<rparr> else m) ms)"
  by (simp add: sold_stock_def quantity_sold_def algebra_simps)

lemma item_rows_Nil [simp]: "item_rows k invoiceId [] = []"
  by (simp add: item_rows_def)

lemma item_rows_Cons:
  "item_rows k invoiceId (it # rest) = item_rows k invoiceId [it] @ item_rows (Suc k) invoiceId rest"
  by (simp add: item_rows_def)

lemma movement_rows_Nil [simp]: "movement_rows k invoiceId n p [] = []"
  by (simp add: movement_rows_def)

lemma movement_rows_Cons:
  "movement_rows k invoiceId n p (it # rest) =
   movement_rows k invoiceId n p [it] @ movement_rows (Suc k) invoiceId n p rest"
  by (simp add: movement_rows_def)

lemma create_items_Cons_Inr:
  assumes "create_items e invoiceId invoiceNumber pharmacist (it # rest) c w = (Inr u, c', w')"
  shows "\<exists>k1 c1 w1 u2 c2 w2 k3 c3 w3.
           execute_insert_invoice_item e invoiceId it c w = (Inr k1, c1, w1) \<and>
           execute_update_stock e (quantity it) (medicine_id it) c1 w1 = (Inr u2, c2, w2) \<and>
           execute_insert_stock_movement e (medicine_id it) (quantity it) invoiceId
             (''Sale via invoice '' @ invoiceNumber) pharmacist c2 w2 = (Inr k3, c3, w3) \<and>
           create_items e invoiceId invoiceNumber pharmacist rest c3 w3 = (Inr u, c', w')"
  using assms by (auto split: prod.splits sum.splits)

lemma create_items_Inr:
  assumes "create_items e invoiceId invoiceNumber pharmacist its c w = (Inr u, c', w')"
  shows "c' = c\<lparr>invoice_items :=
                   invoice_items c @ item_rows (next_invoice_item_id (auto_inc w)) invoiceId its,
                 medicines := sold_stock its (medicines c),
                 stock_movements :=
                   stock_movements c @
                     movement_rows (next_stock_movement_id (auto_inc w)) invoiceId invoiceNumber
                       pharmacist its\<rparr> \<and>
         auto_inc w' =
           (auto_inc w)\<lparr>next_invoice_item_id := next_invoice_item_id (auto_inc w) + length its,
                         next_stock_movement_id :=
                           next_stock_movement_id (auto_inc w) + length its\<rparr>"
  using assms
proof (induction its arbitrary: c w)
  case Nil
  then show ?case by simp
next
  case (Cons it rest)
  from create_items_Cons_Inr [OF Cons.prems]
  obtain k1 c1 w1 u2 c2 w2 k3 c3 w3 where
    s1: "execute_insert_invoice_item e invoiceId it c w = (Inr k1, c1, w1)" and
    s2: "execute_update_stock e (quantity it) (medicine_id it) c1 w1 = (Inr u2, c2, w2)" and
    s3: "execute_insert_stock_movement e (medicine_id it) (quantity it) invoiceId
           (''Sale via invoice '' @ invoiceNumber) pharmacist c2 w2 = (Inr k3, c3, w3)" and
    s4: "create_items e invoiceId invoiceNumber pharmacist rest c3 w3 = (Inr u, c', w')"
    by blast
  note f1 = insert_invoice_item_Inr [OF s1]
  note f2 = update_stock_Inr [OF s2]
  note f3 = insert_stock_movement_Inr [OF s3]
  note ih = Cons.IH [OF s4]
  have a3: "auto_inc w3 =
              (auto_inc w)\<lparr>next_invoice_item_id := Suc (next_invoice_item_id (auto_inc w)),
                            next_stock_movement_id := Suc (next_stock_movement_id (auto_inc w))\<rparr>"
    using f1 f2 f3 by simp
  have c3: "c3 = c\<lparr>invoice_items :=
                     invoice_items c @ item_rows (next_invoice_item_id (auto_inc w)) invoiceId [it],
                   medicines :=
                     map (\<lambda>m. if m_id m = medicine_id it
                               then m\<lparr>m_quantity_in_stock := m_quantity_in_stock m - quantity it\<rparr>
                               else m) (medicines c),
                   stock_movements :=
                     stock_movements c @
                       movement_rows (next_stock_movement_id (auto_inc w)) invoiceId invoiceNumber
                         pharmacist [it]\<rparr>"
    using f1 f2 f3 by (simp add: movement_rows_def)
  show ?case
    using ih
    by (simp add: a3 c3 sold_stock_Cons [of it rest] item_rows_Cons [of _ _ it rest]
                  movement_rows_Cons [of _ _ _ _ it rest])
qed

section \<open>Reads through the pool\<close>

lemma pool_execute_world: "snd (pool_execute e st q w) = issue st w"
  by (simp add: pool_execute_def Let_def)

lemma getOne_world: "snd (getOne e st q w) = issue st w"
  by (simp add: getOne_def pool_execute_def Let_def)

lemma executeQuery_world: "snd (executeQuery e st q w) = issue st w"
  by (simp add: executeQuery_def pool_execute_def Let_def)

lemma getOne_ok:
  "\<not> fails e st \<Longrightarrow>
   getOne e st q w = (Success (case q (tables w) of [] \<Rightarrow> None | r # _ \<Rightarrow> Some r), issue st w)"
  by (simp add: getOne_def pool_execute_def Let_def)

lemma getOne_failed: "fails e st \<Longrightarrow> getOne e st q w = (Failure ConnectionLost, issue st w)"
  by (simp add: getOne_def pool_execute_def Let_def)

lemma executeQuery_ok:
  "\<not> fails e st \<Longrightarrow> executeQuery e st q w = (Success (q (tables w)), issue st w)"
  by (simp add: executeQuery_def pool_execute_def Let_def)

lemma executeQuery_failed:
  "fails e st \<Longrightarrow> executeQuery e st q w = (Failure ConnectionLost, issue st w)"
  by (simp add: executeQuery_def pool_execute_def Let_def)

lemma generateInvoiceNumber_world:
  "snd (generateInvoiceNumber e w) = issue (SelectLastInvoiceNumber (invoice_prefix e @ ''%'')) w"
  using getOne_world [of e "SelectLastInvoiceNumber (invoice_prefix e @ ''%'')"
                         "select_last_invoice_number (invoice_prefix e @ ''%'')" w]
  by (auto simp: generateInvoiceNumber_def Let_def split: prod.splits)

lemma Invoice_findById_world:
  "snd (Invoice_findById e ident w) = issue (SelectInvoiceItems ident) (issue (SelectInvoiceById ident) w)
   \<or> snd (Invoice_findById e ident w) = issue (SelectInvoiceById ident) w"
  using getOne_world [of e "SelectInvoiceById ident" "select_invoice_by_id ident" w]
        executeQuery_world [of e "SelectInvoiceItems ident" "select_invoice_items ident"
                               "issue (SelectInvoiceById ident) w"]
  by (auto simp: Invoice_findById_def split: prod.splits query_result.splits option.splits)

lemma Invoice_findById_tables [simp]: "tables (snd (Invoice_findById e ident w)) = tables w"
  using Invoice_findById_world [of e ident w] by auto

lemma Invoice_findById_auto_inc [simp]: "auto_inc (snd (Invoice_findById e ident w)) = auto_inc w"
  using Invoice_findById_world [of e ident w] by auto

section \<open>The insert of the invoice and the block of the transaction\<close>

lemma insert_invoice_Inr:
  assumes "execute_insert_invoice e v c w = (Inr k, c', w')"
  shows "k = next_invoice_id (auto_inc w)"
    and "c' = c\<lparr>invoices := invoices c @ [invoice_row e k v]\<rparr>"
    and "tables w' = tables w"
    and "auto_inc w' = (auto_inc w)\<lparr>next_invoice_id := Suc k\<rparr>"
    and "oplog w' = oplog w @ [InsertInvoice (v_invoice_number v)]"
    and "v_invoice_number v \<notin> set (map i_invoice_number (invoices c))"
    and "v_pharmacist_id v \<in> set (map u_id (users c))"
    and "\<not> fails e (InsertInvoice (v_invoice_number v))"
  using assms
  by (auto simp: execute_insert_invoice_def Let_def invoice_row_def split: if_splits)

lemma insert_invoice_Inl:
  assumes "execute_insert_invoice e v c w = (Inl err, c', w')"
  shows "tables w' = tables w" and "oplog w' = oplog w @ [InsertInvoice (v_invoice_number v)]"
  using assms
  by (auto simp: execute_insert_invoice_def Let_def split: if_splits)

lemma commitTransaction_Inr:
  assumes "commitTransaction e c w = (Inr u, w')"
  shows "tables w' = c" and "auto_inc w' = auto_inc w" and "oplog w' = oplog w @ [Commit]"
    and "\<not> fails e Commit"
  using assms by (auto simp: commitTransaction_def Let_def split: if_splits)

lemma commitTransaction_Inl:
  assumes "commitTransaction e c w = (Inl err, w')"
  shows "tables w' = tables w"
  using assms by (auto simp: commitTransaction_def Let_def split: if_splits)

lemma create_try_Inl:
  assumes "create_try e invoiceData its c w = (Inl err, c', w')"
  shows "tables w' = tables w"
proof -
  obtain n w1 where g: "generateInvoiceNumber e w = (n, w1)"
    by (metis surj_pair)
  have t1: "tables w1 = tables w"
    using generateInvoiceNumber_world [of e w] g by simp
  obtain r2 c2 w2 where
    i: "execute_insert_invoice e (invoice_params e n invoiceData) c w1 = (r2, c2, w2)"
    by (metis prod_cases3)
  show ?thesis
  proof (cases r2)
    case (Inl a)
    with assms g i t1 show ?thesis
      by (auto simp: create_try_def dest: insert_invoice_Inl(1))
  next
    case (Inr k)
    note r2 = this
    have t2: "tables w2 = tables w"
      using i r2 t1 by (auto dest: insert_invoice_Inr(3))
    obtain r3 c3 w3 where
      l: "create_items e k n (pharmacist_id invoiceData) its c2 w2 = (r3, c3, w3)"
      by (metis prod_cases3)
    have t3: "tables w3 = tables w"
      using create_items_tables [OF l] t2 by simp
    show ?thesis
    proof (cases r3)
      case (Inl a)
      with assms g i r2 l t3 show ?thesis
        by (auto simp: create_try_def)
    next
      case (Inr u)
      with assms g i r2 l t3 show ?thesis
        by (auto simp: create_try_def split: prod.splits sum.splits dest: commitTransaction_Inl)
    qed
  qed
qed

lemma create_try_Inr:
  assumes "create_try e invoiceData its c w = (Inr k, c', w')"
  shows "k = next_invoice_id (auto_inc w)"
    and "c' = sale_effect e (auto_inc w) (fst (generateInvoiceNumber e w)) invoiceData its c"
    and "tables w' = c'"
    and "auto_inc w' =
           \<lparr>next_invoice_id = Suc (next_invoice_id (auto_inc w)),
            next_invoice_item_id = next_invoice_item_id (auto_inc w) + length its,
            next_stock_movement_id = next_stock_movement_id (auto_inc w) + length its\<rparr>"
    and "fst (generateInvoiceNumber e w) \<notin> set (map i_invoice_number (invoices c))"
    and "pharmacist_id invoiceData \<in> set (map u_id (users c))"
proof -
  obtain n w1 where g: "generateInvoiceNumber e w = (n, w1)"
    by (metis surj_pair)
  have a1: "auto_inc w1 = auto_inc w"
    using generateInvoiceNumber_world [of e w] g by simp
  from assms g obtain k2 c2 w2 where
    i: "execute_insert_invoice e (invoice_params e n invoiceData) c w1 = (Inr k2, c2, w2)"
    by (auto simp: create_try_def split: prod.splits sum.splits)
  note fi = insert_invoice_Inr [OF i]
  from assms g i obtain u3 c3 w3 where
    l: "create_items e k2 n (pharmacist_id invoiceData) its c2 w2 = (Inr u3, c3, w3)"
    by (auto simp: create_try_def split: prod.splits sum.splits)
  note fl = create_items_Inr [OF l]
  from assms g i l obtain u4 where
    m: "commitTransaction e c3 w3 = (Inr u4, w')" and k: "k = k2" and c: "c' = c3"
    by (auto simp: create_try_def split: prod.splits sum.splits)
  note fm = commitTransaction_Inr [OF m]
  show "k = next_invoice_id (auto_inc w)"
    using k fi(1) a1 by simp
  show "c' = sale_effect e (auto_inc w) (fst (generateInvoiceNumber e w)) invoiceData its c"
    using c fl fi(1,2,4) a1 g by (simp add: sale_effect_def)
  show "tables w' = c'"
    using fm(1) c by simp
  show "auto_inc w' =
          \<lparr>next_invoice_id = Suc (next_invoice_id (auto_inc w)),
           next_invoice_item_id = next_invoice_item_id (auto_inc w) + length its,
           next_stock_movement_id = next_stock_movement_id (auto_inc w) + length its\<rparr>"
    using fm(2) fl fi(1,4) a1 by simp
  show "fst (generateInvoiceNumber e w) \<notin> set (map i_invoice_number (invoices c))"
    using fi(6) g by (simp add: invoice_params_def)
  show "pharmacist_id invoiceData \<in> set (map u_id (users c))"
    using fi(7) by (simp add: invoice_params_def)
qed

section \<open>Joins, filters and orderings of the queries\<close>

lemma left_join_Nil [simp]: "left_join [] on ys = []"
  by (simp add: left_join_def)

lemma left_join_append: "left_join (xs @ xs') on ys = left_join xs on ys @ left_join xs' on ys"
  by (simp add: left_join_def)

lemma fst_left_join: "p \<in> set (left_join xs on ys) \<Longrightarrow> fst p \<in> set xs"
proof -
  assume "p \<in> set (left_join xs on ys)"
  then obtain x where x: "x \<in> set xs"
    and p: "p \<in> set (case filter (on x) ys of [] \<Rightarrow> [(x, None)]
                        | m # ms \<Rightarrow> map (\<lambda>y. (x, Some y)) (m # ms))"
    by (auto simp: left_join_def)
  from p have "fst p = x"
    by (cases "filter (on x) ys") auto
  with x show ?thesis by simp
qed

lemma filter_at_most_one:
  "distinct (map key ys) \<Longrightarrow> \<forall>y\<in>set ys. on y \<longrightarrow> key y = a \<Longrightarrow> length (filter on ys) \<le> 1"
proof (induction ys)
  case Nil
  then show ?case by simp
next
  case (Cons y ys)
  show ?case
  proof (cases "on y")
    case True
    then have "key y = a" using Cons.prems by simp
    then have "\<forall>y'\<in>set ys. \<not> on y'"
      using Cons.prems by (metis distinct.simps(2) image_eqI list.set_intros(2) list.simps(9) set_map)
    then have "filter on ys = []" by (simp add: filter_empty_conv)
    with True show ?thesis by simp
  next
    case False
    with Cons show ?thesis by simp
  qed
qed

lemma map_fst_left_join:
  "\<forall>x\<in>set xs. length (filter (on x) ys) \<le> 1 \<Longrightarrow> map fst (left_join xs on ys) = xs"
proof (induction xs)
  case Nil
  then show ?case by simp
next
  case (Cons x xs)
  have "length (filter (on x) ys) \<le> 1" using Cons.prems by simp
  then have "map fst (left_join [x] on ys) = [x]"
    by (cases "filter (on x) ys") (auto simp: left_join_def)
  moreover have "map fst (left_join xs on ys) = xs" using Cons by simp
  ultimately show ?case
    using left_join_append [of "[x]" xs on ys] by simp
qed

lemma insort_key_map:
  "insort_key f (g x) (map g xs) = map g (insort_key (\<lambda>y. f (g y)) x xs)"
  by (induction xs) simp_all

lemma sort_key_map: "sort_key f (map g xs) = map g (sort_key (\<lambda>y. f (g y)) xs)"
  by (induction xs) (simp_all add: insort_key_map)

lemma truncate_extend_item [simp]:
  "invoice_items_row.truncate (invoice_items_row.extend r x) = r"
  by (simp add: invoice_items_row.defs)

lemma ii_id_extend [simp]: "ii_id (invoice_items_row.extend r x) = ii_id r"
  by (simp add: invoice_items_row.defs)

lemma ii_invoice_id_extend [simp]: "ii_invoice_id (invoice_items_row.extend r x) = ii_invoice_id r"
  by (simp add: invoice_items_row.defs)

lemma ii_id_truncate [simp]: "ii_id (invoice_items_row.truncate r) = ii_id r"
  by (simp add: invoice_items_row.defs)

lemma ii_invoice_id_truncate [simp]: "ii_invoice_id (invoice_items_row.truncate r) = ii_invoice_id r"
  by (simp add: invoice_items_row.defs)

lemma item_rows_ids: "map ii_id (item_rows first k its) = [first..<first + length its]"
proof -
  have "map ii_id (item_rows first k its) = map fst (enumerate first its)"
    by (simp add: item_rows_def comp_def case_prod_beta)
  then show ?thesis by simp
qed

lemma item_rows_invoice_id: "r \<in> set (item_rows first k its) \<Longrightarrow> ii_invoice_id r = k"
  by (auto simp: item_rows_def)

lemma length_item_rows [simp]: "length (item_rows first k its) = length its"
  by (simp add: item_rows_def)

text \<open>The lines read back for a new invoice are the lines just inserted, in their order.\<close>

lemma select_invoice_items_new:
  assumes old: "list_all (\<lambda>ii. ii_invoice_id ii < k) old"
      and med: "distinct (map m_id (medicines d))"
      and com: "distinct (map c_id (companies d))"
      and new: "invoice_items d = old @ item_rows first k its"
  shows "map invoice_items_row.truncate (select_invoice_items k d) = item_rows first k its"
proof -
  let ?on1 = "\<lambda>ii m. ii_medicine_id ii = m_id m"
  let ?on2 = "\<lambda>(ii, m) c. case m of None \<Rightarrow> False | Some m' \<Rightarrow> m_company_id m' = Some (c_id c)"
  let ?J1 = "left_join (invoice_items d) ?on1 (medicines d)"
  let ?J2 = "left_join ?J1 ?on2 (companies d)"
  let ?mk = "\<lambda>((ii, m), c).
               invoice_items_row.extend ii
                 (item_view.fields (map_option m_medicine_name m)
                    (case m of None \<Rightarrow> None | Some m' \<Rightarrow> m_generic_name m')
                    (map_option c_company_name c) (ii_unit_price ii))"
  have one1: "\<forall>x\<in>set (invoice_items d). length (filter (?on1 x) (medicines d)) \<le> 1"
    using filter_at_most_one [OF med] by (metis (mono_tags, lifting))
  have j1: "map fst ?J1 = invoice_items d"
    using map_fst_left_join [OF one1] .
  have one2: "\<forall>x\<in>set ?J1. length (filter (?on2 x) (companies d)) \<le> 1"
  proof
    fix x assume "x \<in> set ?J1"
    obtain ii m where x: "x = (ii, m)" by (cases x)
    show "length (filter (?on2 x) (companies d)) \<le> 1"
    proof (cases m)
      case None
      with x show ?thesis by simp
    next
      case (Some m')
      show ?thesis
      proof (cases "m_company_id m'")
        case None
        with x Some show ?thesis by simp
      next
        case (Some a)
        have "\<forall>y\<in>set (companies d). ?on2 x y \<longrightarrow> c_id y = a"
          using x \<open>m = Some m'\<close> Some by simp
        from filter_at_most_one [OF com this] show ?thesis .
      qed
    qed
  qed
  have j2: "map fst ?J2 = ?J1"
    using map_fst_left_join [OF one2] .
  have tr: "map invoice_items_row.truncate (map ?mk ?J2) = invoice_items d"
  proof -
    have "map invoice_items_row.truncate (map ?mk ?J2) = map fst (map fst ?J2)"
      by (auto simp: case_prod_beta)
    then show ?thesis using j1 j2 by simp
  qed
  have "map invoice_items_row.truncate (select_invoice_items k d)
        = sort_key ii_id (filter (\<lambda>r. ii_invoice_id r = k)
                            (map invoice_items_row.truncate (map ?mk ?J2)))"
    unfolding select_invoice_items_def
    by (simp add: sort_key_map filter_map comp_def)
  also have "\<dots> = sort_key ii_id (filter (\<lambda>r. ii_invoice_id r = k) (old @ item_rows first k its))"
    using tr new by simp
  also have "filter (\<lambda>r. ii_invoice_id r = k) (old @ item_rows first k its) = item_rows first k its"
  proof -
    have "filter (\<lambda>r. ii_invoice_id r = k) old = []"
      using old by (auto simp: filter_empty_conv list_all_iff)
    moreover have "filter (\<lambda>r. ii_invoice_id r = k) (item_rows first k its) = item_rows first k its"
      by (simp add: filter_id_conv item_rows_invoice_id)
    ultimately show ?thesis by simp
  qed
  also have "sort_key ii_id (item_rows first k its) = item_rows first k its"
    by (rule sort_key_id_if_sorted) (simp add: item_rows_ids)
  finally show ?thesis .
qed

lemma filter_exactly_one:
  assumes "distinct (map key ys)" and "a \<in> set (map key ys)"
  shows "\<exists>y\<in>set ys. key y = a \<and> filter (\<lambda>y. a = key y) ys = [y]"
proof -
  from assms(2) obtain y where y: "y \<in> set ys" "key y = a" by auto
  have "length (filter (\<lambda>y. a = key y) ys) \<le> 1"
    by (rule filter_at_most_one [OF assms(1), where a = a]) simp
  moreover have "y \<in> set (filter (\<lambda>y. a = key y) ys)" using y by simp
  ultimately have "filter (\<lambda>y. a = key y) ys = [y]"
    by (cases "filter (\<lambda>y. a = key y) ys") (auto simp: le_Suc_eq)
  with y show ?thesis by blast
qed

lemma i_id_extend [simp]: "i_id (invoices_row.extend r x) = i_id r"
  by (simp add: invoices_row.defs)

text \<open>The header read back for a new invoice is the row just inserted, with the pharmacist.\<close>

lemma select_invoice_by_id_new:
  assumes old: "list_all (\<lambda>i. i_id i < k) old"
      and usr: "distinct (map u_id (users d))"
      and fk: "i_pharmacist_id row \<in> set (map u_id (users d))"
      and k: "i_id row = k"
      and new: "invoices d = old @ [row]"
  shows "\<exists>u\<in>set (users d). u_id u = i_pharmacist_id row \<and>
           select_invoice_by_id k d =
             [invoices_row.extend row (invoice_join.fields (Some (u_full_name u)))]"
proof -
  let ?on = "\<lambda>i u. i_pharmacist_id i = u_id u"
  let ?mk = "\<lambda>(i, u). invoices_row.extend i (invoice_join.fields (map_option u_full_name u))"
  from filter_exactly_one [OF usr fk] obtain u where
    u: "u \<in> set (users d)" "u_id u = i_pharmacist_id row"
       "filter (?on row) (users d) = [u]"
    by blast
  have new_part: "left_join [row] ?on (users d) = [(row, Some u)]"
    using u(3) by (simp add: left_join_def)
  have old_part: "filter (\<lambda>r. i_id r = k) (map ?mk (left_join old ?on (users d))) = []"
  proof -
    have "\<forall>p\<in>set (left_join old ?on (users d)). i_id (?mk p) \<noteq> k"
    proof
      fix p assume p: "p \<in> set (left_join old ?on (users d))"
      from fst_left_join [OF p] old have "i_id (fst p) < k"
        by (simp add: list_all_iff)
      then show "i_id (?mk p) \<noteq> k" by (cases p) simp
    qed
    then show ?thesis by (simp add: filter_empty_conv)
  qed
  have "select_invoice_by_id k d =
          [invoices_row.extend row (invoice_join.fields (Some (u_full_name u)))]"
    using old_part new_part k
    by (simp add: select_invoice_by_id_def with_pharmacist_def new left_join_append)
  with u show ?thesis by blast
qed

lemma Invoice_findById_new:
  assumes "\<not> fails e (SelectInvoiceById k)" and "\<not> fails e (SelectInvoiceItems k)"
      and "select_invoice_by_id k (tables w) =
             [invoices_row.extend row (invoice_join.fields name)]"
      and "map invoice_items_row.truncate (select_invoice_items k (tables w)) = rows"
  shows "\<exists>invoice. fst (Invoice_findById e k w) = Some invoice \<and>
           invoices_row.truncate invoice = row \<and> pharmacist_name invoice = name \<and>
           map invoice_items_row.truncate (items invoice) = rows"
  using assms
  by (simp add: Invoice_findById_def getOne_ok executeQuery_ok new_Invoice_def
                invoices_row.defs invoice_join.defs Invoice.defs)

section \<open>The statements a sale sends\<close>

lemma insert_invoice_item_ok:
  "execute_insert_invoice_item e invoiceId it c w = (Inr k, c', w') \<Longrightarrow>
   \<not> fails e (InsertInvoiceItem invoiceId (medicine_id it) (quantity it))"
  by (auto simp: execute_insert_invoice_item_def Let_def split: if_splits)

lemma update_stock_ok:
  "execute_update_stock e qty mid c w = (Inr u, c', w') \<Longrightarrow> \<not> fails e (UpdateStock mid qty)"
  by (auto simp: execute_update_stock_def Let_def split: if_splits)

lemma insert_stock_movement_ok:
  "execute_insert_stock_movement e mid qty invoiceId n p c w = (Inr k, c', w') \<Longrightarrow>
   \<not> fails e (InsertStockMovement mid qty invoiceId)"
  by (auto simp: execute_insert_stock_movement_def Let_def split: if_splits)

lemma create_items_oplog:
  assumes "create_items e invoiceId invoiceNumber pharmacist its c w = (Inr u, c', w')"
  shows "oplog w' = oplog w @ item_statements invoiceId its \<and>
         (\<forall>st\<in>set (item_statements invoiceId its). \<not> fails e st)"
  using assms
proof (induction its arbitrary: c w)
  case Nil
  then show ?case by (simp add: item_statements_def)
next
  case (Cons it rest)
  from create_items_Cons_Inr [OF Cons.prems]
  obtain k1 c1 w1 u2 c2 w2 k3 c3 w3 where
    s1: "execute_insert_invoice_item e invoiceId it c w = (Inr k1, c1, w1)" and
    s2: "execute_update_stock e (quantity it) (medicine_id it) c1 w1 = (Inr u2, c2, w2)" and
    s3: "execute_insert_stock_movement e (medicine_id it) (quantity it) invoiceId
           (''Sale via invoice '' @ invoiceNumber) pharmacist c2 w2 = (Inr k3, c3, w3)" and
    s4: "create_items e invoiceId invoiceNumber pharmacist rest c3 w3 = (Inr u, c', w')"
    by blast
  have "oplog w3 = oplog w @ [InsertInvoiceItem invoiceId (medicine_id it) (quantity it),
                               UpdateStock (medicine_id it) (quantity it),
                               InsertStockMovement (medicine_id it) (quantity it) invoiceId]"
    using insert_invoice_item_Inr(5) [OF s1] update_stock_Inr(4) [OF s2]
          insert_stock_movement_Inr(5) [OF s3]
    by simp
  with Cons.IH [OF s4] insert_invoice_item_ok [OF s1] update_stock_ok [OF s2]
       insert_stock_movement_ok [OF s3]
  show ?case by (simp add: item_statements_def)
qed

lemma create_try_oplog:
  assumes "create_try e invoiceData its c w = (Inr k, c', w')"
  shows "oplog w' =
           oplog w @ [SelectLastInvoiceNumber (invoice_prefix e @ ''%''),
                      InsertInvoice (fst (generateInvoiceNumber e w))]
                   @ item_statements k its @ [Commit]"
    and "\<forall>st\<in>set (issued w w'). write_statement st \<longrightarrow> \<not> fails e st"
proof -
  obtain n w1 where g: "generateInvoiceNumber e w = (n, w1)"
    by (metis surj_pair)
  have o1: "oplog w1 = oplog w @ [SelectLastInvoiceNumber (invoice_prefix e @ ''%'')]"
    using generateInvoiceNumber_world [of e w] g by simp
  from assms g obtain k2 c2 w2 where
    i: "execute_insert_invoice e (invoice_params e n invoiceData) c w1 = (Inr k2, c2, w2)"
    by (auto simp: create_try_def split: prod.splits sum.splits)
  note fi = insert_invoice_Inr [OF i]
  from assms g i obtain u3 c3 w3 where
    l: "create_items e k2 n (pharmacist_id invoiceData) its c2 w2 = (Inr u3, c3, w3)"
    by (auto simp: create_try_def split: prod.splits sum.splits)
  note fl = create_items_oplog [OF l]
  from assms g i l obtain u4 where
    m: "commitTransaction e c3 w3 = (Inr u4, w')" and k: "k = k2"
    by (auto simp: create_try_def split: prod.splits sum.splits)
  note fm = commitTransaction_Inr [OF m]
  show o: "oplog w' =
           oplog w @ [SelectLastInvoiceNumber (invoice_prefix e @ ''%''),
                      InsertInvoice (fst (generateInvoiceNumber e w))]
                   @ item_statements k its @ [Commit]"
    using o1 fi(5) fl fm(3) k g by (simp add: invoice_params_def)
  show "\<forall>st\<in>set (issued w w'). write_statement st \<longrightarrow> \<not> fails e st"
    using fi(8) fl fm(4) k g
    by (auto simp: issued_def o invoice_params_def write_statement_def)
qed

lemma map_m_id_sold_stock [simp]: "map m_id (sold_stock its ms) = map m_id ms"
  by (simp add: sold_stock_def comp_def)

lemma i_pharmacist_id_invoice_row [simp]:
  "i_pharmacist_id (invoice_row e k (invoice_params e n invoiceData)) = pharmacist_id invoiceData"
  by (simp add: invoice_row_def invoice_params_def)

lemma i_id_invoice_row [simp]: "i_id (invoice_row e k v) = k"
  by (simp add: invoice_row_def)

lemma i_invoice_number_invoice_row [simp]:
  "i_invoice_number (invoice_row e k (invoice_params e n invoiceData)) = n"
  by (simp add: invoice_row_def invoice_params_def)

lemma Invoice_findById_after_sale:
  assumes wf: "well_formed w"
      and fk: "pharmacist_id invoiceData \<in> set (map u_id (users (tables w)))"
      and reads: "\<not> fails e (SelectInvoiceById (next_invoice_id (auto_inc w)))"
                 "\<not> fails e (SelectInvoiceItems (next_invoice_id (auto_inc w)))"
      and t: "tables w1 =
                sale_effect e (auto_inc w) (fst (generateInvoiceNumber e w)) invoiceData its (tables w)"
  shows "\<exists>invoice. fst (Invoice_findById e (next_invoice_id (auto_inc w)) w1) = Some invoice \<and>
           returned_for e w invoiceData its invoice"
proof -
  let ?k = "next_invoice_id (auto_inc w)"
  let ?n = "fst (generateInvoiceNumber e w)"
  let ?row = "invoice_row e ?k (invoice_params e ?n invoiceData)"
  let ?d = "sale_effect e (auto_inc w) ?n invoiceData its (tables w)"
  have "\<exists>u\<in>set (users ?d). u_id u = i_pharmacist_id ?row \<and>
          select_invoice_by_id ?k ?d =
            [invoices_row.extend ?row (invoice_join.fields (Some (u_full_name u)))]"
  proof (rule select_invoice_by_id_new)
    show "list_all (\<lambda>i. i_id i < ?k) (invoices (tables w))"
      using wf by (simp add: well_formed_def)
    show "distinct (map u_id (users ?d))"
      using wf by (simp add: well_formed_def sale_effect_def)
    show "i_pharmacist_id ?row \<in> set (map u_id (users ?d))"
      using fk by (simp add: sale_effect_def)
    show "i_id ?row = ?k" by simp
    show "invoices ?d = invoices (tables w) @ [?row]"
      by (simp add: sale_effect_def)
  qed
  then obtain u where
    u: "u \<in> set (users (tables w))" "u_id u = pharmacist_id invoiceData" and
    sel: "select_invoice_by_id ?k (tables w1) =
            [invoices_row.extend ?row (invoice_join.fields (Some (u_full_name u)))]"
    using t by (auto simp: sale_effect_def)
  have its: "map invoice_items_row.truncate (select_invoice_items ?k (tables w1)) =
               item_rows (next_invoice_item_id (auto_inc w)) ?k its"
  proof (rule select_invoice_items_new)
    show "list_all (\<lambda>ii. ii_invoice_id ii < ?k) (invoice_items (tables w))"
      using wf by (simp add: well_formed_def)
    show "distinct (map m_id (medicines (tables w1)))"
      using wf t by (simp add: well_formed_def sale_effect_def)
    show "distinct (map c_id (companies (tables w1)))"
      using wf t by (simp add: well_formed_def sale_effect_def)
    show "invoice_items (tables w1) =
            invoice_items (tables w) @ item_rows (next_invoice_item_id (auto_inc w)) ?k its"
      using t by (simp add: sale_effect_def)
  qed
  from Invoice_findById_new [OF reads sel its] u
  show ?thesis by (auto simp: returned_for_def)
qed

lemma Invoice_create_begin_failed:
  "fails e BeginTransaction \<Longrightarrow>
   Invoice_create e invoiceData its w = (Rejected, issue BeginTransaction w)"
  by (simp add: Invoice_create_def beginTransaction_def Let_def)

lemma Invoice_create_rolled_back:
  assumes "\<not> fails e BeginTransaction"
      and "create_try e invoiceData its (tables w) (issue BeginTransaction w) = (Inl err, c1, w1)"
  shows "Invoice_create e invoiceData its w =
           (if fails e Rollback then Rejected else Resolved None, issue Rollback w1)"
    and "tables w1 = tables w"
  using assms create_try_Inl [OF assms(2)]
  by (simp_all add: Invoice_create_def beginTransaction_def rollbackTransaction_def Let_def)

lemma Invoice_create_committed:
  assumes "\<not> fails e BeginTransaction"
      and "create_try e invoiceData its (tables w) (issue BeginTransaction w) = (Inr k, c1, w1)"
  shows "Invoice_create e invoiceData its w =
           (Resolved (fst (Invoice_findById e k w1)), snd (Invoice_findById e k w1))"
  using assms
  by (simp add: Invoice_create_def beginTransaction_def Let_def split: prod.splits)

section \<open>The outcome of create\<close>

lemma generateInvoiceNumber_tables:
  "tables w = tables w' \<Longrightarrow> fst (generateInvoiceNumber e w) = fst (generateInvoiceNumber e w')"
  by (simp add: generateInvoiceNumber_def getOne_def pool_execute_def Let_def split: prod.splits)

lemma generateInvoiceNumber_issue [simp]:
  "fst (generateInvoiceNumber e (issue st w)) = fst (generateInvoiceNumber e w)"
  by (rule generateInvoiceNumber_tables) simp

lemma issued_append: "oplog w' = oplog w @ sts \<Longrightarrow> issued w w' = sts"
  by (simp add: issued_def)

lemma Invoice_findById_oplog:
  "\<exists>rs. oplog (snd (Invoice_findById e ident w)) = oplog w @ rs \<and>
         (\<forall>st\<in>set rs. \<not> write_statement st)"
proof -
  from Invoice_findById_world [of e ident w]
  have "oplog (snd (Invoice_findById e ident w)) =
          oplog w @ [SelectInvoiceById ident, SelectInvoiceItems ident]
        \<or> oplog (snd (Invoice_findById e ident w)) = oplog w @ [SelectInvoiceById ident]"
    by (elim disjE) simp_all
  then show ?thesis
    by (elim disjE) (simp_all add: write_statement_def)
qed

section \<open>The statements of a failed attempt\<close>

lemma create_items_sent:
  "create_items e invoiceId invoiceNumber pharmacist its c w = (r, c', w') \<Longrightarrow>
   \<exists>sts. oplog w' = oplog w @ sts \<and> Rollback \<notin> set sts"
proof (induction its arbitrary: c w)
  case Nil
  then show ?case by simp
next
  case (Cons it rest)
  obtain r1 c1 w1 where s1: "execute_insert_invoice_item e invoiceId it c w = (r1, c1, w1)"
    by (metis prod_cases3)
  have o1: "oplog w1 = oplog w @ [InsertInvoiceItem invoiceId (medicine_id it) (quantity it)]"
    using s1 by (auto simp: execute_insert_invoice_item_def Let_def split: if_splits)
  obtain r2 c2 w2 where
    s2: "execute_update_stock e (quantity it) (medicine_id it) c1 w1 = (r2, c2, w2)"
    by (metis prod_cases3)
  have o2: "oplog w2 = oplog w1 @ [UpdateStock (medicine_id it) (quantity it)]"
    using s2 by (auto simp: execute_update_stock_def Let_def split: if_splits)
  obtain r3 c3 w3 where
    s3: "execute_insert_stock_movement e (medicine_id it) (quantity it) invoiceId
           (''Sale via invoice '' @ invoiceNumber) pharmacist c2 w2 = (r3, c3, w3)"
    by (metis prod_cases3)
  have o3: "oplog w3 = oplog w2 @ [InsertStockMovement (medicine_id it) (quantity it) invoiceId]"
    using s3 by (auto simp: execute_insert_stock_movement_def Let_def split: if_splits)
  show ?case
  proof (cases "\<exists>k1 u2 k3. r1 = Inr k1 \<and> r2 = Inr u2 \<and> r3 = Inr k3")
    case True
    then have "create_items e invoiceId invoiceNumber pharmacist rest c3 w3 = (r, c', w')"
      using Cons.prems s1 s2 s3 by auto
    from Cons.IH [OF this] obtain sts where
      "oplog w' = oplog w3 @ sts" "Rollback \<notin> set sts" by blast
    then show ?thesis using o1 o2 o3 by simp
  next
    case False
    then have "w' = w1 \<or> w' = w2 \<or> w' = w3"
      using Cons.prems s1 s2 s3 by (cases r1; cases r2; cases r3) auto
    then show ?thesis using o1 o2 o3 by auto
  qed
qed

lemma commitTransaction_sent:
  "commitTransaction e c w = (r, w') \<Longrightarrow> oplog w' = oplog w @ [Commit]"
  by (auto simp: commitTransaction_def Let_def split: if_splits)

lemma create_try_sent:
  assumes "create_try e invoiceData its c w = (r, c', w')"
  shows "\<exists>sts. oplog w' = oplog w @ sts \<and> Rollback \<notin> set sts"
proof -
  obtain n w1 where g: "generateInvoiceNumber e w = (n, w1)"
    by (metis surj_pair)
  have o1: "oplog w1 = oplog w @ [SelectLastInvoiceNumber (invoice_prefix e @ ''%'')]"
    using generateInvoiceNumber_world [of e w] g by simp
  obtain r2 c2 w2 where
    i: "execute_insert_invoice e (invoice_params e n invoiceData) c w1 = (r2, c2, w2)"
    by (metis prod_cases3)
  have o2: "oplog w2 = oplog w1 @ [InsertInvoice n]"
    using i by (cases r2) (auto dest: insert_invoice_Inl(2) insert_invoice_Inr(5)
                                 simp: invoice_params_def)
  show ?thesis
  proof (cases r2)
    case (Inl a)
    with assms g i have "w' = w2" by (simp add: create_try_def)
    with o1 o2 show ?thesis by simp
  next
    case (Inr k)
    note r2 = this
    obtain r3 c3 w3 where
      l: "create_items e k n (pharmacist_id invoiceData) its c2 w2 = (r3, c3, w3)"
      by (metis prod_cases3)
    from create_items_sent [OF l] obtain sts where
      o3: "oplog w3 = oplog w2 @ sts" "Rollback \<notin> set sts" by blast
    show ?thesis
    proof (cases r3)
      case (Inl a)
      with assms g i r2 l have "w' = w3" by (simp add: create_try_def)
      with o1 o2 o3 show ?thesis by simp
    next
      case (Inr u)
      obtain r4 w4 where m: "commitTransaction e c3 w3 = (r4, w4)"
        by (metis surj_pair)
      with assms g i r2 l Inr have "w' = w4"
        by (cases r4) (simp_all add: create_try_def)
      with commitTransaction_sent [OF m] o1 o2 o3 show ?thesis by simp
    qed
  qed
qed

lemma Rollback_not_item_statement: "Rollback \<notin> set (item_statements k its)"
  by (induction its) (auto simp: item_statements_def)

text \<open>
  The outcome of a call whose transaction opens: rolled back, with \<open>ROLLBACK\<close> the last
  statement sent, or committed, with no \<open>ROLLBACK\<close> sent.
\<close>

lemma Invoice_create_rolled_back_or_committed:
  assumes wf: "well_formed w"
      and bt: "\<not> fails e BeginTransaction"
  shows "(tables (snd (Invoice_create e invoiceData its w)) = tables w \<and>
          fst (Invoice_create e invoiceData its w) =
            (if fails e Rollback then Rejected else Resolved None) \<and>
          (\<exists>sts. issued w (snd (Invoice_create e invoiceData its w)) =
                   BeginTransaction # sts @ [Rollback] \<and> Rollback \<notin> set sts))
         \<or>
         (tables (snd (Invoice_create e invoiceData its w)) =
            sale_effect e (auto_inc w) (fst (generateInvoiceNumber e w)) invoiceData its (tables w) \<and>
          Commit \<in> set (issued w (snd (Invoice_create e invoiceData its w))) \<and>
          Rollback \<notin> set (issued w (snd (Invoice_create e invoiceData its w))) \<and>
          (\<forall>st\<in>set (issued w (snd (Invoice_create e invoiceData its w))).
             write_statement st \<longrightarrow> \<not> fails e st) \<and>
          (\<not> fails e (SelectInvoiceById (next_invoice_id (auto_inc w))) \<and>
           \<not> fails e (SelectInvoiceItems (next_invoice_id (auto_inc w))) \<longrightarrow>
           (\<exists>invoice. fst (Invoice_create e invoiceData its w) = Resolved (Some invoice) \<and>
                      returned_for e w invoiceData its invoice)))"
proof -
  let ?w0 = "issue BeginTransaction w"
  obtain r c1 w1 where t: "create_try e invoiceData its (tables w) ?w0 = (r, c1, w1)"
    by (metis prod_cases3)
  from create_try_sent [OF t] obtain sts where
    sts: "oplog w1 = oplog w @ BeginTransaction # sts" "Rollback \<notin> set sts"
    by auto
  show ?thesis
  proof (cases r)
    case (Inl err)
    note rbk = Invoice_create_rolled_back [OF bt t [unfolded Inl]]
    have "oplog (snd (Invoice_create e invoiceData its w)) =
            oplog w @ (BeginTransaction # sts @ [Rollback])"
      using rbk(1) sts(1) by simp
    from issued_append [OF this] rbk sts(2) show ?thesis by simp
  next
    case (Inr k)
    note t' = t [unfolded Inr]
    note ft = create_try_Inr [OF t'] create_try_oplog [OF t']
    have k: "k = next_invoice_id (auto_inc w)" using ft(1) by simp
    have tw1: "tables w1 =
                 sale_effect e (auto_inc w) (fst (generateInvoiceNumber e w)) invoiceData its (tables w)"
      using ft(2,3) by simp
    have fk: "pharmacist_id invoiceData \<in> set (map u_id (users (tables w)))"
      using ft(6) .
    have res: "Invoice_create e invoiceData its w =
                 (Resolved (fst (Invoice_findById e k w1)), snd (Invoice_findById e k w1))"
      using Invoice_create_committed [OF bt t'] .
    have ow1: "oplog w1 = oplog ?w0 @ issued ?w0 w1"
      using ft(7) by (simp add: issued_def)
    have com: "Commit \<in> set (issued ?w0 w1)" "Rollback \<notin> set (issued ?w0 w1)"
      using ft(7) by (simp_all add: issued_def Rollback_not_item_statement)
    from Invoice_findById_world [of e k w1] obtain rs where
      rs: "oplog (snd (Invoice_findById e k w1)) = oplog w1 @ rs"
          "\<forall>st\<in>set rs. \<not> write_statement st" "Rollback \<notin> set rs"
      by (elim disjE) (auto simp: write_statement_def)
    have "oplog (snd (Invoice_findById e k w1)) = oplog w @ (BeginTransaction # issued ?w0 w1 @ rs)"
      using rs(1) ow1 by simp
    from issued_append [OF this]
    have iss: "issued w (snd (Invoice_findById e k w1)) = BeginTransaction # issued ?w0 w1 @ rs" .
    have safe: "\<forall>st\<in>set (issued w (snd (Invoice_findById e k w1))). write_statement st \<longrightarrow> \<not> fails e st"
    proof (intro ballI impI)
      fix st
      assume st: "st \<in> set (issued w (snd (Invoice_findById e k w1)))" and ws: "write_statement st"
      have "\<not> write_statement BeginTransaction" by (simp add: write_statement_def)
      with st ws rs(2) iss have "st \<in> set (issued ?w0 w1)" by auto
      with ft(8) ws show "\<not> fails e st" by blast
    qed
    have refetch: "\<exists>invoice. fst (Invoice_findById e k w1) = Some invoice \<and>
                  returned_for e w invoiceData its invoice"
      if "\<not> fails e (SelectInvoiceById (next_invoice_id (auto_inc w)))"
         "\<not> fails e (SelectInvoiceItems (next_invoice_id (auto_inc w)))"
      using Invoice_findById_after_sale [OF wf fk that tw1] k by blast
    have "snd (Invoice_create e invoiceData its w) = snd (Invoice_findById e k w1)"
         "fst (Invoice_create e invoiceData its w) = Resolved (fst (Invoice_findById e k w1))"
      using res by simp_all
    then show ?thesis
      using refetch tw1 safe iss com rs(3) by auto
  qed
qed

section \<open>Stock and movements after a committed sale\<close>

lemma stock_of_sold_stock:
  "map_option m_quantity_in_stock (find (\<lambda>r. m_id r = m) (sold_stock its ms)) =
   map_option (\<lambda>s. s - quantity_sold its m)
     (map_option m_quantity_in_stock (find (\<lambda>r. m_id r = m) ms))"
  by (induction ms) (simp_all add: sold_stock_def)

lemma stock_of_sale_effect:
  "stock_of (sale_effect e a n invoiceData its d) m =
   map_option (\<lambda>s. s - quantity_sold its m) (stock_of d m)"
  using stock_of_sold_stock [of m its "medicines d"]
  by (simp add: stock_of_def sale_effect_def)

lemma stock_of_Some:
  "m \<in> set (map m_id (medicines d)) \<Longrightarrow> \<exists>s. stock_of d m = Some s"
proof -
  assume "m \<in> set (map m_id (medicines d))"
  then have "find (\<lambda>r. m_id r = m) (medicines d) \<noteq> None"
    by (auto simp: find_None_iff)
  then show ?thesis by (auto simp: stock_of_def)
qed

lemma sale_movements_new:
  "length (filter (\<lambda>sm. sm_medicine_id sm = m \<and> sm_movement_type sm = MoveOut \<and>
                        sm_reference_type sm = RefSale \<and> sm_reference_id sm = Some k)
             (movement_rows first k n p its))
   = length (filter (\<lambda>it. medicine_id it = m) its)"
proof (induction its arbitrary: first)
  case Nil
  then show ?case by simp
next
  case (Cons it rest)
  from Cons [of "Suc first"] show ?case
    by (simp add: movement_rows_def)
qed

lemma sale_movements_sale_effect:
  assumes "well_formed w"
  shows "length (sale_movements (sale_effect e (auto_inc w) n invoiceData its (tables w))
                   (next_invoice_id (auto_inc w)) m)
         = length (filter (\<lambda>it. medicine_id it = m) its)"
proof -
  have "filter (\<lambda>sm. sm_medicine_id sm = m \<and> sm_movement_type sm = MoveOut \<and>
                      sm_reference_type sm = RefSale \<and>
                      sm_reference_id sm = Some (next_invoice_id (auto_inc w)))
          (stock_movements (tables w)) = []"
    using assms
    by (auto simp: well_formed_def filter_empty_conv list_all_iff split: option.splits)
  then show ?thesis
    by (simp add: sale_movements_def sale_effect_def sale_movements_new)
qed

lemma create_items_fk:
  assumes "create_items e invoiceId invoiceNumber pharmacist its c w = (Inr u, c', w')"
  shows "\<forall>it\<in>set its. medicine_id it \<in> set (map m_id (medicines c))"
  using assms
proof (induction its arbitrary: c w)
  case Nil
  then show ?case by simp
next
  case (Cons it rest)
  from create_items_Cons_Inr [OF Cons.prems]
  obtain k1 c1 w1 u2 c2 w2 k3 c3 w3 where
    s1: "execute_insert_invoice_item e invoiceId it c w = (Inr k1, c1, w1)" and
    s2: "execute_update_stock e (quantity it) (medicine_id it) c1 w1 = (Inr u2, c2, w2)" and
    s3: "execute_insert_stock_movement e (medicine_id it) (quantity it) invoiceId
           (''Sale via invoice '' @ invoiceNumber) pharmacist c2 w2 = (Inr k3, c3, w3)" and
    s4: "create_items e invoiceId invoiceNumber pharmacist rest c3 w3 = (Inr u, c', w')"
    by blast
  have here: "medicine_id it \<in> set (map m_id (medicines c))"
    using s1 by (auto simp: execute_insert_invoice_item_def Let_def split: if_splits)
  have "map m_id (medicines c3) = map m_id (medicines c)"
    using insert_invoice_item_Inr(2) [OF s1] update_stock_Inr(1) [OF s2]
          insert_stock_movement_Inr(2) [OF s3]
    by (simp add: comp_def if_distrib cong: if_cong)
  with Cons.IH [OF s4] here show ?case by simp
qed

lemma Invoice_findById_Some:
  assumes "fst (Invoice_findById e k w) = Some invoice"
  shows "i_id invoice = k"
proof -
  have sel: "\<And>r rs. select_invoice_by_id k (tables w) = r # rs \<Longrightarrow> i_id r = k"
  proof -
    fix r rs assume "select_invoice_by_id k (tables w) = r # rs"
    then have "r \<in> set (select_invoice_by_id k (tables w))" by simp
    then show "i_id r = k" by (simp add: select_invoice_by_id_def)
  qed
  have "\<not> fails e (SelectInvoiceById k)"
    using assms by (auto simp: Invoice_findById_def getOne_failed)
  then obtain r rs where r: "select_invoice_by_id k (tables w) = r # rs"
    using assms
    by (cases "select_invoice_by_id k (tables w)") (auto simp: Invoice_findById_def getOne_ok)
  have "i_id invoice = i_id r"
    using assms r \<open>\<not> fails e (SelectInvoiceById k)\<close>
    by (auto simp: Invoice_findById_def getOne_ok new_Invoice_def invoice_join.defs
             split: prod.splits query_result.splits)
  with sel [OF r] show ?thesis by simp
qed

lemma create_try_fk:
  assumes "create_try e invoiceData its c w = (Inr k, c', w')"
  shows "\<forall>it\<in>set its. medicine_id it \<in> set (map m_id (medicines c))"
proof -
  obtain n w1 where g: "generateInvoiceNumber e w = (n, w1)"
    by (metis surj_pair)
  from assms g obtain k2 c2 w2 where
    i: "execute_insert_invoice e (invoice_params e n invoiceData) c w1 = (Inr k2, c2, w2)"
    by (auto simp: create_try_def split: prod.splits sum.splits)
  from assms g i obtain u3 c3 w3 where
    l: "create_items e k2 n (pharmacist_id invoiceData) its c2 w2 = (Inr u3, c3, w3)"
    by (auto simp: create_try_def split: prod.splits sum.splits)
  from create_items_fk [OF l] insert_invoice_Inr(2) [OF i] show ?thesis by simp
qed

text \<open>A call that returns an invoice has committed the whole sale.\<close>

lemma committed_sale:
  assumes "resolved_id (fst (Invoice_create e invoiceData its w)) = Some k"
  shows "tables (snd (Invoice_create e invoiceData its w)) =
           sale_effect e (auto_inc w) (fst (generateInvoiceNumber e w)) invoiceData its (tables w)"
    and "k = next_invoice_id (auto_inc w)"
    and "\<forall>it\<in>set its. medicine_id it \<in> set (map m_id (medicines (tables w)))"
    and "fst (generateInvoiceNumber e w) \<notin> set (map i_invoice_number (invoices (tables w)))"
    and "auto_inc (snd (Invoice_create e invoiceData its w)) =
           \<lparr>next_invoice_id = Suc (next_invoice_id (auto_inc w)),
            next_invoice_item_id = next_invoice_item_id (auto_inc w) + length its,
            next_stock_movement_id = next_stock_movement_id (auto_inc w) + length its\<rparr>"
proof -
  let ?w0 = "issue BeginTransaction w"
  have bt: "\<not> fails e BeginTransaction"
    using assms by (auto simp: Invoice_create_begin_failed resolved_id_def)
  obtain r c1 w1 where t: "create_try e invoiceData its (tables w) ?w0 = (r, c1, w1)"
    by (metis prod_cases3)
  have "\<exists>j. r = Inr j"
  proof (cases r)
    case (Inl err)
    from Invoice_create_rolled_back(1) [OF bt t [unfolded Inl]] assms
    show ?thesis by (simp add: resolved_id_def split: if_splits)
  next
    case (Inr j)
    then show ?thesis by simp
  qed
  then obtain j where t': "create_try e invoiceData its (tables w) ?w0 = (Inr j, c1, w1)"
    using t by blast
  note ft = create_try_Inr [OF t']
  note res = Invoice_create_committed [OF bt t']
  obtain invoice where inv: "fst (Invoice_findById e j w1) = Some invoice" "i_id invoice = k"
    using assms res by (auto simp: resolved_id_def split: option.splits)
  show "k = next_invoice_id (auto_inc w)"
    using Invoice_findById_Some [OF inv(1)] inv(2) ft(1) by simp
  show "tables (snd (Invoice_create e invoiceData its w)) =
          sale_effect e (auto_inc w) (fst (generateInvoiceNumber e w)) invoiceData its (tables w)"
    using res ft(2,3) by simp
  show "\<forall>it\<in>set its. medicine_id it \<in> set (map m_id (medicines (tables w)))"
    using create_try_fk [OF t'] .
  show "fst (generateInvoiceNumber e w) \<notin> set (map i_invoice_number (invoices (tables w)))"
    using ft(5) by simp
  show "auto_inc (snd (Invoice_create e invoiceData its w)) =
          \<lparr>next_invoice_id = Suc (next_invoice_id (auto_inc w)),
           next_invoice_item_id = next_invoice_item_id (auto_inc w) + length its,
           next_stock_movement_id = next_stock_movement_id (auto_inc w) + length its\<rparr>"
    using res ft(4) by simp
qed

lemma stock_after_sale:
  assumes "resolved_id (fst (Invoice_create e invoiceData its w)) = Some k"
      and "m \<in> set (map medicine_id its)"
  shows "\<exists>s. stock_of (tables w) m = Some s \<and>
             stock_of (tables (snd (Invoice_create e invoiceData its w))) m =
               Some (s - quantity_sold its m)"
proof -
  note fs = committed_sale [OF assms(1)]
  from fs(3) assms(2) have "m \<in> set (map m_id (medicines (tables w)))" by auto
  from stock_of_Some [OF this] obtain s where "stock_of (tables w) m = Some s" ..
  then show ?thesis
    by (simp add: fs(1) stock_of_sale_effect)
qed

lemma one_line_for:
  assumes "distinct (map medicine_id its)" and "m \<in> set (map medicine_id its)"
  shows "length (filter (\<lambda>it. medicine_id it = m) its) = 1"
proof -
  from filter_exactly_one [OF assms] obtain y where
    "filter (\<lambda>it. m = medicine_id it) its = [y]" by blast
  moreover have "filter (\<lambda>it. medicine_id it = m) its = filter (\<lambda>it. m = medicine_id it) its"
    by (rule filter_cong) auto
  ultimately show ?thesis by simp
qed

section \<open>What a returned invoice tells\<close>

lemma well_formed_after_sale:
  assumes wf: "well_formed w"
      and ok: "resolved_id (fst (Invoice_create e invoiceData its w)) = Some k"
  shows "well_formed (snd (Invoice_create e invoiceData its w))"
proof -
  note fs = committed_sale [OF ok]
  have "\<forall>r\<in>set (item_rows (next_invoice_item_id (auto_inc w)) (next_invoice_id (auto_inc w)) its).
          ii_invoice_id r < Suc (next_invoice_id (auto_inc w))"
    by (auto simp: item_rows_def)
  moreover have
    "\<forall>sm\<in>set (movement_rows (next_stock_movement_id (auto_inc w)) (next_invoice_id (auto_inc w))
                  (fst (generateInvoiceNumber e w)) (pharmacist_id invoiceData) its).
        sm_reference_id sm = Some (next_invoice_id (auto_inc w))"
    by (auto simp: movement_rows_def)
  ultimately show ?thesis
    using wf
    by (auto simp: well_formed_def fs(1,5) sale_effect_def list_all_iff less_Suc_eq
             split: option.splits)
qed

lemma returned_header:
  assumes wf: "well_formed w"
      and ok: "fst (Invoice_create e invoiceData its w) = Resolved (Some invoice)"
  shows "i_id invoice = next_invoice_id (auto_inc w)"
    and "i_invoice_number invoice = fst (generateInvoiceNumber e w)"
proof -
  let ?w0 = "issue BeginTransaction w"
  let ?k = "next_invoice_id (auto_inc w)"
  let ?n = "fst (generateInvoiceNumber e w)"
  let ?row = "invoice_row e ?k (invoice_params e ?n invoiceData)"
  let ?d = "sale_effect e (auto_inc w) ?n invoiceData its (tables w)"
  have rid: "resolved_id (fst (Invoice_create e invoiceData its w)) = Some (i_id invoice)"
    using ok by (simp add: resolved_id_def)
  note fs = committed_sale [OF rid]
  show k: "i_id invoice = ?k" using fs(2) .
  have bt: "\<not> fails e BeginTransaction"
    using ok by (auto simp: Invoice_create_begin_failed)
  obtain r c1 w1 where t: "create_try e invoiceData its (tables w) ?w0 = (r, c1, w1)"
    by (metis prod_cases3)
  have "\<exists>j. r = Inr j"
  proof (cases r)
    case (Inl err)
    from Invoice_create_rolled_back(1) [OF bt t [unfolded Inl]] ok
    show ?thesis by (simp split: if_splits)
  next
    case (Inr j)
    then show ?thesis by simp
  qed
  then obtain j where t': "create_try e invoiceData its (tables w) ?w0 = (Inr j, c1, w1)"
    using t by blast
  note ft = create_try_Inr [OF t']
  have j: "j = ?k" using ft(1) by simp
  have tw1: "tables w1 = ?d" using ft(2,3) by simp
  have found: "fst (Invoice_findById e ?k w1) = Some invoice"
    using Invoice_create_committed [OF bt t'] ok j by simp
  have "\<exists>u\<in>set (users ?d). u_id u = i_pharmacist_id ?row \<and>
          select_invoice_by_id ?k ?d =
            [invoices_row.extend ?row (invoice_join.fields (Some (u_full_name u)))]"
  proof (rule select_invoice_by_id_new)
    show "list_all (\<lambda>i. i_id i < ?k) (invoices (tables w))"
      using wf by (simp add: well_formed_def)
    show "distinct (map u_id (users ?d))"
      using wf by (simp add: well_formed_def sale_effect_def)
    show "i_pharmacist_id ?row \<in> set (map u_id (users ?d))"
      using ft(6) by (simp add: sale_effect_def)
    show "i_id ?row = ?k" by simp
    show "invoices ?d = invoices (tables w) @ [?row]"
      by (simp add: sale_effect_def)
  qed
  then obtain u where
    "u \<in> set (users ?d)" and
    us: "u_id u = i_pharmacist_id ?row \<and>
     select_invoice_by_id ?k ?d =
       [invoices_row.extend ?row (invoice_join.fields (Some (u_full_name u)))]"
    by (rule bexE)
  from us have sel0: "select_invoice_by_id ?k ?d =
             [invoices_row.extend ?row (invoice_join.fields (Some (u_full_name u)))]"
    by (rule conjunct2)
  have sel: "select_invoice_by_id ?k (tables w1) =
               [invoices_row.extend ?row (invoice_join.fields (Some (u_full_name u)))]"
    unfolding tw1 by (rule sel0)
  have "\<not> fails e (SelectInvoiceById ?k)"
    using found by (auto simp: Invoice_findById_def getOne_failed)
  then have "i_invoice_number invoice = i_invoice_number ?row"
    using found sel
    by (auto simp: Invoice_findById_def getOne_ok new_Invoice_def invoices_row.defs
                   invoice_join.defs
             split: prod.splits query_result.splits)
  then show "i_invoice_number invoice = ?n" by simp
qed

section \<open>Decimal numerals\<close>

lemma digit_of_digit_char: "d < 10 \<Longrightarrow> digit_of (digit_char d) = Some d"
proof -
  assume "d < 10"
  then have "d \<in> {0, 1, 2, 3, 4, 5, 6, 7, 8, 9}" by auto
  then show ?thesis
    by (elim insertE) (simp_all add: digit_of_def digit_char_def)
qed

lemma is_digit_digit_char: "d < 10 \<Longrightarrow> is_digit 10 (digit_char d)"
  by (simp add: is_digit_def digit_of_digit_char)

lemma string_of_nat_digits: "\<forall>c\<in>set (string_of_nat n). is_digit 10 c"
proof (induction n rule: string_of_nat.induct)
  case (1 n)
  show ?case
  proof (cases "n < 10")
    case True
    then show ?thesis
      by (simp add: string_of_nat.simps [of n] is_digit_digit_char)
  next
    case False
    with 1 show ?thesis
      by (simp add: string_of_nat.simps [of n] is_digit_digit_char)
  qed
qed

lemma string_of_nat_not_Nil [simp]: "string_of_nat n \<noteq> []"
  by (simp add: string_of_nat.simps [of n])

lemma digits_value_snoc:
  "digits_value radix (ds @ [c]) = digits_value radix ds * radix + the (digit_of c)"
  by (simp add: digits_value_def)

lemma digits_value_string_of_nat: "digits_value 10 (string_of_nat n) = n"
proof (induction n rule: string_of_nat.induct)
  case (1 n)
  show ?case
  proof (cases "n < 10")
    case True
    then show ?thesis
      by (simp add: string_of_nat.simps [of n] digits_value_def digit_of_digit_char)
  next
    case False
    with 1 have "digits_value 10 (string_of_nat (n div 10)) = n div 10" by simp
    with False show ?thesis
      by (simp add: string_of_nat.simps [of n] digits_value_snoc digit_of_digit_char)
  qed
qed

lemma string_of_nat_inj: "string_of_nat m = string_of_nat n \<Longrightarrow> m = n"
  by (metis digits_value_string_of_nat)

lemma digits_value_zeros: "digits_value 10 (replicate k CHR ''0'' @ ds) = digits_value 10 ds"
proof -
  have "foldl (\<lambda>acc c. acc * 10 + the (digit_of c)) 0 (replicate k CHR ''0'') = 0"
    by (induction k) (simp_all add: digit_of_def)
  then show ?thesis by (simp add: digits_value_def)
qed

lemma decimal_not_special:
  assumes "is_digit 10 c"
  shows "\<not> is_whitespace c" and "c \<noteq> CHR ''-''" and "c \<noteq> CHR ''+''" and "c \<noteq> CHR ''x''"
    and "c \<noteq> CHR ''X''"
  using assms
  by (auto simp: is_digit_def digit_of_def is_whitespace_def Let_def split: if_splits)

text \<open>\<open>parseInt\<close> reads a non-empty string of decimal digits as its value.\<close>

lemma parseInt_digits:
  assumes "ds \<noteq> []" and "\<forall>c\<in>set ds. is_digit 10 c"
  shows "parseInt ds = Some (int (digits_value 10 ds))"
proof -
  obtain c cs where ds: "ds = c # cs" using assms(1) by (cases ds) auto
  have c: "is_digit 10 c" using assms(2) ds by simp
  note nc = decimal_not_special [OF c]
  have nohex: "take 2 ds \<noteq> ''0x''" "take 2 ds \<noteq> ''0X''"
  proof -
    show "take 2 ds \<noteq> ''0x''"
    proof (cases cs)
      case Nil
      with ds show ?thesis by simp
    next
      case (Cons c' cs')
      with assms(2) ds have "is_digit 10 c'" by simp
      from decimal_not_special(4) [OF this] ds Cons show ?thesis by simp
    qed
    show "take 2 ds \<noteq> ''0X''"
    proof (cases cs)
      case Nil
      with ds show ?thesis by simp
    next
      case (Cons c' cs')
      with assms(2) ds have "is_digit 10 c'" by simp
      from decimal_not_special(5) [OF this] ds Cons show ?thesis by simp
    qed
  qed
  have tw: "takeWhile (is_digit 10) ds = ds"
    using assms(2) by (simp add: takeWhile_eq_all_conv)
  have dw: "dropWhile is_whitespace ds = ds"
    using ds nc(1) by simp
  have sign: "hd ds \<noteq> CHR ''-''" "hd ds \<noteq> CHR ''+''"
    using ds nc(2,3) by simp_all
  show ?thesis
    unfolding parseInt_def Let_def dw
    using nohex assms(1) sign by (simp add: tw)
qed

lemma parseInt_padded: "parseInt (padStart k CHR ''0'' (string_of_nat n)) = Some (int n)"
proof -
  have z: "is_digit 10 CHR ''0''" by (simp add: is_digit_def digit_of_def)
  have "parseInt (padStart k CHR ''0'' (string_of_nat n)) =
          Some (int (digits_value 10 (padStart k CHR ''0'' (string_of_nat n))))"
    by (rule parseInt_digits) (auto simp: padStart_def z string_of_nat_digits)
  then show ?thesis
    by (simp add: padStart_def digits_value_zeros digits_value_string_of_nat)
qed

lemma split_pop_suffix:
  assumes "CHR ''-'' \<notin> set t"
  shows "split_pop (p @ CHR ''-'' # t) = t"
proof -
  have "takeWhile (\<lambda>c. c \<noteq> CHR ''-'') (rev t @ CHR ''-'' # rev p) =
          rev t @ takeWhile (\<lambda>c. c \<noteq> CHR ''-'') (CHR ''-'' # rev p)"
    using assms by (intro takeWhile_append2) auto
  then show ?thesis by (simp add: split_pop_def)
qed

lemma no_dash_in_padded: "CHR ''-'' \<notin> set (padStart k CHR ''0'' (string_of_nat n))"
  using string_of_nat_digits [of n] decimal_not_special(2)
  by (auto simp: padStart_def)

section \<open>The lookup of the last number\<close>

lemma sorted_key_le_last:
  "sorted (map f xs) \<Longrightarrow> x \<in> set xs \<Longrightarrow> f x \<le> f (last xs)"
  by (induction xs) auto

lemma take_1_rev: "xs \<noteq> [] \<Longrightarrow> take (Suc 0) (rev xs) = [last xs]"
  by (cases xs rule: rev_cases) simp_all

lemma order_by_desc_first:
  assumes "r \<in> set rows" and "\<forall>r'\<in>set rows. r' = r \<or> key r' < key r"
  shows "take 1 (order_by_desc key rows) = [r]"
proof -
  let ?s = "sort_key key rows"
  have ne: "?s \<noteq> []" using assms(1) by (metis empty_iff empty_set set_sort)
  have l: "last ?s \<in> set rows" using ne by (metis last_in_set set_sort)
  have "key r \<le> key (last ?s)"
    by (rule sorted_key_le_last) (simp_all add: assms(1))
  with assms(2) l have "last ?s = r" by fastforce
  with take_1_rev [OF ne] show ?thesis by (simp add: order_by_desc_def)
qed

lemma select_last_invoice_number_latest:
  assumes "r \<in> set (invoices_of_the_day e d)"
      and "\<forall>r'\<in>set (invoices_of_the_day e d). r' = r \<or> i_id r' < i_id r"
  shows "select_last_invoice_number (invoice_prefix e @ ''%'') d = [i_invoice_number r]"
  using order_by_desc_first [OF assms]
  by (simp add: select_last_invoice_number_def invoices_of_the_day_def)

lemma select_last_invoice_number_none:
  assumes "invoices_of_the_day e d = []"
  shows "select_last_invoice_number (invoice_prefix e @ ''%'') d = []"
  using assms
  by (simp add: select_last_invoice_number_def invoices_of_the_day_def order_by_desc_def)

lemma generateInvoiceNumber_ok:
  assumes "\<not> fails e (SelectLastInvoiceNumber (invoice_prefix e @ ''%''))"
  shows "fst (generateInvoiceNumber e w) =
           generateInvoiceNumber_on e
             (Resolved (Success (case select_last_invoice_number (invoice_prefix e @ ''%'') (tables w) of
                                   [] \<Rightarrow> None | n # _ \<Rightarrow> Some n)))"
  using assms by (simp add: generateInvoiceNumber_def Let_def getOne_ok)

section \<open>The length of decimal numerals\<close>

lemma length_string_of_nat_1: "n < 10 \<Longrightarrow> length (string_of_nat n) = 1"
  by (simp add: string_of_nat.simps [of n])

lemma length_string_of_nat_2: "10 \<le> n \<Longrightarrow> n < 100 \<Longrightarrow> length (string_of_nat n) = 2"
  using length_string_of_nat_1 [of "n div 10"]
  by (simp add: string_of_nat.simps [of n])

lemma length_string_of_nat_3: "100 \<le> n \<Longrightarrow> n < 1000 \<Longrightarrow> length (string_of_nat n) = 3"
  using length_string_of_nat_2 [of "n div 10"]
  by (simp add: string_of_nat.simps [of n])

lemma length_string_of_nat_4: "1000 \<le> n \<Longrightarrow> n < 10000 \<Longrightarrow> length (string_of_nat n) = 4"
  using length_string_of_nat_3 [of "n div 10"]
  by (simp add: string_of_nat.simps [of n])

lemma length_string_of_nat_le:
  "n < 100 \<Longrightarrow> length (string_of_nat n) \<le> 2" "n < 1000 \<Longrightarrow> length (string_of_nat n) \<le> 3"
proof -
  show "n < 100 \<Longrightarrow> length (string_of_nat n) \<le> 2"
    using length_string_of_nat_1 [of n] length_string_of_nat_2 [of n]
    by (cases "n < 10") simp_all
  show "n < 1000 \<Longrightarrow> length (string_of_nat n) \<le> 3"
    using length_string_of_nat_1 [of n] length_string_of_nat_2 [of n] length_string_of_nat_3 [of n]
    by (cases "n < 10"; cases "n < 100") simp_all
qed

lemma length_padStart: "length s \<le> k \<Longrightarrow> length (padStart k c s) = k"
  by (simp add: padStart_def)

lemma padded_digits: "list_all (is_digit 10) (padStart k CHR ''0'' (string_of_nat n))"
proof -
  have "is_digit 10 CHR ''0''" by (simp add: is_digit_def digit_of_def)
  then show ?thesis
    using string_of_nat_digits [of n] by (auto simp: padStart_def list_all_iff)
qed

lemma String_nat [simp]: "String (Some (int n)) = string_of_nat n"
  by (simp add: String_def)

text \<open>With a four-digit year and a sequence of at most 999, the number has the form.\<close>

lemma invoice_number_form_padded:
  assumes "1000 \<le> getFullYear e" "getFullYear e \<le> 9999" "getMonth e \<le> 11" "getDate e \<le> 31"
      and "s \<le> 999"
  shows "invoice_number_form (invoice_prefix e @ ''-'' @ padStart 3 CHR ''0'' (string_of_nat s))"
proof -
  let ?Y = "string_of_nat (getFullYear e)"
  let ?M = "padStart 2 CHR ''0'' (string_of_nat (getMonth e + 1))"
  let ?D = "padStart 2 CHR ''0'' (string_of_nat (getDate e))"
  let ?N = "padStart 3 CHR ''0'' (string_of_nat s)"
  have ly: "length ?Y = 4" using assms(1,2) by (simp add: length_string_of_nat_4)
  have lm: "length ?M = 2" using assms(3) by (simp add: length_padStart length_string_of_nat_le)
  have ld: "length ?D = 2" using assms(4) by (simp add: length_padStart length_string_of_nat_le)
  have ln: "length ?N = 3" using assms(5) by (simp add: length_padStart length_string_of_nat_le)
  have dy: "list_all (is_digit 10) ?Y"
    using string_of_nat_digits [of "getFullYear e"] by (simp add: list_all_iff)
  have p: "invoice_prefix e = ''INV-'' @ ?Y @ ?M @ ?D"
    by (simp only: invoice_prefix_def Let_def String_nat)
  show ?thesis
    unfolding invoice_number_form_def p
    using ly lm ld ln dy padded_digits [of 2 "getMonth e + 1"] padded_digits [of 2 "getDate e"]
          padded_digits [of 3 s]
    by (simp add: nth_append)
qed

section \<open>The sample sale\<close>

lemma sample_world_well_formed: "well_formed sample_world"
  by (simp add: well_formed_def sample_defs)

lemma sample_sale_returns:
  "resolved_id (fst (Invoice_create sample_env sample_data sale_of_three sample_world)) = Some 1"
  by (simp add: eval_defs)

lemma sold_world_reached:
  "snd (Invoice_create sample_env sample_data sale_of_three sample_world) = sold_world"
  by (simp add: eval_defs)

lemma second_sample_sale_returns:
  "resolved_id (fst (Invoice_create sample_env sample_data sale_of_three sold_world)) = Some 2"
  by (simp add: eval_defs)

section \<open>Stock and movements of a sale (C2, C3)\<close>

text \<open>
  C2 (as amended). After a call that returns an invoice, for every medicine on a line of
  the sale: its stock is the stock before minus the quantity sold on all its lines, and
  the movements \<open>out\<close>/\<open>sale\<close> that refer to the new invoice are one per line of that
  medicine; exactly one when every medicine is on one line only.
\<close>

theorem sale_stock_and_movements:
  assumes "well_formed w"
      and "resolved_id (fst (Invoice_create e invoiceData its w)) = Some k"
  shows "\<forall>m\<in>set (map medicine_id its).
           (\<exists>s. stock_of (tables w) m = Some s \<and>
                 stock_of (tables (snd (Invoice_create e invoiceData its w))) m =
                   Some (s - quantity_sold its m)) \<and>
           length (sale_movements (tables (snd (Invoice_create e invoiceData its w))) k m) =
             length (filter (\<lambda>it. medicine_id it = m) its) \<and>
           (distinct (map medicine_id its) \<longrightarrow>
              length (sale_movements (tables (snd (Invoice_create e invoiceData its w))) k m) = 1)"
proof
  fix m assume m: "m \<in> set (map medicine_id its)"
  note fs = committed_sale [OF assms(2)]
  have mv: "length (sale_movements (tables (snd (Invoice_create e invoiceData its w))) k m) =
              length (filter (\<lambda>it. medicine_id it = m) its)"
    using sale_movements_sale_effect [OF assms(1)] fs(1,2) by simp
  show "(\<exists>s. stock_of (tables w) m = Some s \<and>
              stock_of (tables (snd (Invoice_create e invoiceData its w))) m =
                Some (s - quantity_sold its m)) \<and>
        length (sale_movements (tables (snd (Invoice_create e invoiceData its w))) k m) =
          length (filter (\<lambda>it. medicine_id it = m) its) \<and>
        (distinct (map medicine_id its) \<longrightarrow>
           length (sale_movements (tables (snd (Invoice_create e invoiceData its w))) k m) = 1)"
    using stock_after_sale [OF assms(2) m] mv one_line_for [OF _ m] by simp
qed

theorem sale_stock_and_movements_witness:
  "well_formed sample_world \<and>
   resolved_id (fst (Invoice_create sample_env sample_data sale_of_three sample_world)) = Some 1 \<and>
   stock_of (tables sample_world) 1 = Some 100 \<and>
   stock_of (tables (snd (Invoice_create sample_env sample_data sale_of_three sample_world))) 1
     = Some 97 \<and>
   length (sale_movements
             (tables (snd (Invoice_create sample_env sample_data sale_of_three sample_world))) 1 1)
     = 1"
proof -
  note wf = sample_world_well_formed
  note ok = sample_sale_returns
  have m: "(1::nat) \<in> set (map medicine_id sale_of_three)"
    by (simp add: sale_of_three_def)
  have d: "distinct (map medicine_id sale_of_three)"
    by (simp add: sale_of_three_def)
  have pre: "stock_of (tables sample_world) 1 = Some 100"
    by (simp add: stock_of_def sample_defs)
  have sold: "quantity_sold sale_of_three 1 = 3"
    by (simp add: quantity_sold_def sale_of_three_def)
  from sale_stock_and_movements [OF wf ok, rule_format, OF m] obtain s where
    s: "stock_of (tables sample_world) 1 = Some s"
       "stock_of (tables (snd (Invoice_create sample_env sample_data sale_of_three sample_world))) 1
          = Some (s - quantity_sold sale_of_three 1)"
    and one: "distinct (map medicine_id sale_of_three) \<longrightarrow>
              length (sale_movements
                (tables (snd (Invoice_create sample_env sample_data sale_of_three sample_world)))
                1 1) = 1"
    by blast
  from s pre sold have post:
    "stock_of (tables (snd (Invoice_create sample_env sample_data sale_of_three sample_world))) 1
       = Some 97"
    by simp
  from one d have
    "length (sale_movements
       (tables (snd (Invoice_create sample_env sample_data sale_of_three sample_world))) 1 1) = 1"
    by blast
  with wf ok pre post show ?thesis by blast
qed

text \<open>
  C2 as stated fails: with one medicine on two lines, the call returns the invoice and two
  movements of that medicine refer to it.
\<close>

theorem sale_stock_and_movements_counterexample:
  "resolved_id (fst (Invoice_create sample_env sample_data sale_on_two_lines sample_world)) = Some 1 \<and>
   length (sale_movements
             (tables (snd (Invoice_create sample_env sample_data sale_on_two_lines sample_world)))
             1 1) = 2"
  by (simp add: eval_defs)


text \<open>
  C3 (as amended). The decrement is unconditional: after a call that returns an invoice,
  the stock of a medicine on a line of the sale is non-negative exactly when the stock
  before was at least the quantity sold.
\<close>

theorem stock_negative_iff_oversold:
  assumes "resolved_id (fst (Invoice_create e invoiceData its w)) = Some k"
  shows "\<forall>m\<in>set (map medicine_id its).
           \<exists>s s'. stock_of (tables w) m = Some s \<and>
                  stock_of (tables (snd (Invoice_create e invoiceData its w))) m = Some s' \<and>
                  (0 \<le> s' \<longleftrightarrow> quantity_sold its m \<le> s)"
proof
  fix m assume "m \<in> set (map medicine_id its)"
  from stock_after_sale [OF assms this] obtain s where
    "stock_of (tables w) m = Some s"
    "stock_of (tables (snd (Invoice_create e invoiceData its w))) m = Some (s - quantity_sold its m)"
    by blast
  then show "\<exists>s s'. stock_of (tables w) m = Some s \<and>
                  stock_of (tables (snd (Invoice_create e invoiceData its w))) m = Some s' \<and>
                  (0 \<le> s' \<longleftrightarrow> quantity_sold its m \<le> s)"
    by simp
qed

theorem stock_negative_iff_oversold_witness:
  "resolved_id (fst (Invoice_create sample_env sample_data sale_of_three sample_world)) = Some 1 \<and>
   (\<exists>s s'. stock_of (tables sample_world) 1 = Some s \<and>
           stock_of (tables (snd (Invoice_create sample_env sample_data sale_of_three sample_world))) 1
             = Some s' \<and>
           (0 \<le> s' \<longleftrightarrow> quantity_sold sale_of_three 1 \<le> s))"
proof -
  note ok = sample_sale_returns
  have m: "(1::nat) \<in> set (map medicine_id sale_of_three)"
    by (simp add: sale_of_three_def)
  from stock_negative_iff_oversold [OF ok, rule_format, OF m] ok show ?thesis
    by blast
qed

text \<open>
  C3 as stated fails: fifteen units sold of a medicine with ten in stock leave its stock
  at minus five, and the call returns the invoice.
\<close>

theorem stock_negative_iff_oversold_counterexample:
  "stock_of (tables sample_world) 2 = Some 10 \<and>
   resolved_id (fst (Invoice_create sample_env sample_data oversell sample_world)) = Some 1 \<and>
   stock_of (tables (snd (Invoice_create sample_env sample_data oversell sample_world))) 2
     = Some (- 5)"
  by (simp add: eval_defs)

section \<open>All or nothing (C1)\<close>




section \<open>A duplicate invoice number (C5)\<close>

lemma insert_invoice_duplicate:
  assumes "v_invoice_number v \<in> set (map i_invoice_number (invoices c))"
  shows "\<exists>err. execute_insert_invoice e v c w =
                 (Inl err, c, issue (InsertInvoice (v_invoice_number v)) w)"
  using assms by (simp add: execute_insert_invoice_def Let_def)

lemma v_invoice_number_params [simp]:
  "v_invoice_number (invoice_params e n invoiceData) = n"
  by (simp add: invoice_params_def)

lemma create_try_duplicate:
  assumes "fst (generateInvoiceNumber e w) \<in> set (map i_invoice_number (invoices c))"
  shows "\<exists>err. create_try e invoiceData its c w =
                 (Inl err, c,
                  issue (InsertInvoice (fst (generateInvoiceNumber e w)))
                    (issue (SelectLastInvoiceNumber (invoice_prefix e @ ''%'')) w))"
proof -
  obtain n w1 where g: "generateInvoiceNumber e w = (n, w1)"
    by (metis surj_pair)
  have w1: "w1 = issue (SelectLastInvoiceNumber (invoice_prefix e @ ''%'')) w"
    using generateInvoiceNumber_world [of e w] g by simp
  from assms g have "v_invoice_number (invoice_params e n invoiceData)
                       \<in> set (map i_invoice_number (invoices c))"
    by simp
  from insert_invoice_duplicate [OF this, of e w1] obtain err where
    "execute_insert_invoice e (invoice_params e n invoiceData) c w1 =
       (Inl err, c, issue (InsertInvoice n) w1)"
    by auto
  with g w1 show ?thesis
    by (simp add: create_try_def)
qed

text \<open>
  C5 (as amended). When the generated number is already the number of an invoice, the
  insert is refused, the call rolls back and returns \<open>null\<close> at once: it sends one
  insert and no second lookup, and the committed tables stay as they were.
\<close>

theorem duplicate_number_fails_without_retry:
  assumes "\<not> fails e BeginTransaction"
      and "\<not> fails e Rollback"
      and "fst (generateInvoiceNumber e w) \<in> set (map i_invoice_number (invoices (tables w)))"
  shows "fst (Invoice_create e invoiceData its w) = Resolved None \<and>
         tables (snd (Invoice_create e invoiceData its w)) = tables w \<and>
         issued w (snd (Invoice_create e invoiceData its w)) =
           [BeginTransaction,
            SelectLastInvoiceNumber (invoice_prefix e @ ''%''),
            InsertInvoice (fst (generateInvoiceNumber e w)),
            Rollback]"
proof -
  let ?w0 = "issue BeginTransaction w"
  have "fst (generateInvoiceNumber e ?w0) \<in> set (map i_invoice_number (invoices (tables w)))"
    using assms(3) by simp
  from create_try_duplicate [OF this, of invoiceData its] obtain err where
    t: "create_try e invoiceData its (tables w) ?w0 =
          (Inl err, tables w,
           issue (InsertInvoice (fst (generateInvoiceNumber e w)))
             (issue (SelectLastInvoiceNumber (invoice_prefix e @ ''%'')) ?w0))"
    by auto
  from Invoice_create_rolled_back [OF assms(1) t] assms(2)
  show ?thesis
    by (simp add: issued_def)
qed

theorem duplicate_number_fails_without_retry_witness:
  "\<not> fails (failing_env (SelectLastInvoiceNumber ''INV-20240101%'')) BeginTransaction \<and>
   \<not> fails (failing_env (SelectLastInvoiceNumber ''INV-20240101%'')) Rollback \<and>
   fst (generateInvoiceNumber (failing_env (SelectLastInvoiceNumber ''INV-20240101%'')) sold_world)
     \<in> set (map i_invoice_number (invoices (tables sold_world))) \<and>
   fst (Invoice_create (failing_env (SelectLastInvoiceNumber ''INV-20240101%'')) sample_data
          sale_of_three sold_world) = Resolved None \<and>
   tables (snd (Invoice_create (failing_env (SelectLastInvoiceNumber ''INV-20240101%''))
                  sample_data sale_of_three sold_world)) = tables sold_world"
proof -
  let ?e = "failing_env (SelectLastInvoiceNumber ''INV-20240101%'')"
  have h: "\<not> fails ?e BeginTransaction" "\<not> fails ?e Rollback"
    by (simp_all add: sample_defs)
  have dup: "fst (generateInvoiceNumber ?e sold_world)
               \<in> set (map i_invoice_number (invoices (tables sold_world)))"
    by (simp add: eval_defs)
  from duplicate_number_fails_without_retry [OF h dup, of sample_data sale_of_three] h dup
  show ?thesis by blast
qed

text \<open>
  C5 as stated fails: after the sample sale, a second sale whose lookup fails draws the
  number \<open>INV-20240101-001\<close> again; the insert raises the duplicate-key error, and the
  call returns \<open>null\<close> after that one insert and the rollback.
\<close>

theorem duplicate_number_fails_without_retry_counterexample:
  "''INV-20240101-001'' \<in> set (map i_invoice_number (invoices (tables sold_world))) \<and>
   fst (create_try (failing_env (SelectLastInvoiceNumber ''INV-20240101%'')) sample_data
          sale_of_three (tables sold_world) (issue BeginTransaction sold_world))
     = Inl ER_DUP_ENTRY \<and>
   fst (Invoice_create (failing_env (SelectLastInvoiceNumber ''INV-20240101%'')) sample_data
          sale_of_three sold_world) = Resolved None \<and>
   issued sold_world
     (snd (Invoice_create (failing_env (SelectLastInvoiceNumber ''INV-20240101%'')) sample_data
             sale_of_three sold_world))
     = [BeginTransaction, SelectLastInvoiceNumber ''INV-20240101%'',
        InsertInvoice ''INV-20240101-001'', Rollback]"
  by (simp add: eval_defs)

section \<open>An empty list of items (C7)\<close>

text \<open>
  C7 (as amended). The route rejects a request whose \<open>items\<close> is empty or not an array
  with status 400 before \<open>Invoice.create\<close> is called: no statement is sent and nothing
  is written.
\<close>

theorem empty_items_rejected_by_route:
  assumes "body_items body = Some [] \<or> body_items body = None"
  shows "post_sales_invoice e session_user_id body w =
           (\<lparr>status = 400, success = False, message = ''At least one item is required'',
             invoice_id = None, invoice_number = None\<rparr>, w)"
  using assms by (auto simp: post_sales_invoice_def validationResult_def)

theorem empty_items_rejected_by_route_witness:
  "body_items (sample_request []) = Some [] \<and>
   post_sales_invoice sample_env 2 (sample_request []) sample_world =
     (\<lparr>status = 400, success = False, message = ''At least one item is required'',
       invoice_id = None, invoice_number = None\<rparr>, sample_world)"
proof -
  have h: "body_items (sample_request []) = Some []"
    by (simp add: sample_request_def)
  then have "body_items (sample_request []) = Some [] \<or> body_items (sample_request []) = None"
    by simp
  from empty_items_rejected_by_route [OF this, of sample_env 2 sample_world] h
  show ?thesis by simp
qed

text \<open>
  C7 as stated fails: \<open>Invoice.create\<close> called with no item commits an invoice without
  lines and returns it.
\<close>

theorem empty_items_rejected_by_route_counterexample:
  "resolved_id (fst (Invoice_create sample_env sample_data [] sample_world)) = Some 1 \<and>
   invoices (tables sample_world) = [] \<and>
   map i_invoice_number (invoices (tables (snd (Invoice_create sample_env sample_data [] sample_world))))
     = [''INV-20240101-001''] \<and>
   invoice_items (tables (snd (Invoice_create sample_env sample_data [] sample_world))) = []"
  by (simp add: eval_defs)

section \<open>The same sale twice (C9)\<close>

text \<open>
  C9. When the same payload is submitted twice in a row and both calls return an invoice,
  the two invoices have consecutive identifiers and different numbers, both are in the
  table, and the stock of every medicine on a line is reduced by twice the quantity sold.
\<close>

theorem resubmission_is_a_second_sale:
  assumes wf: "well_formed w"
      and first: "resolved_id (fst (Invoice_create e1 invoiceData its w)) = Some k1"
      and second: "resolved_id (fst (Invoice_create e2 invoiceData its
                     (snd (Invoice_create e1 invoiceData its w)))) = Some k2"
  shows "k2 = Suc k1 \<and>
         (\<exists>n1 n2. resolved_number (fst (Invoice_create e1 invoiceData its w)) = Some n1 \<and>
                  resolved_number (fst (Invoice_create e2 invoiceData its
                     (snd (Invoice_create e1 invoiceData its w)))) = Some n2 \<and>
                  n1 \<noteq> n2) \<and>
         length (invoices (tables (snd (Invoice_create e2 invoiceData its
                     (snd (Invoice_create e1 invoiceData its w))))))
           = length (invoices (tables w)) + 2 \<and>
         (\<forall>m\<in>set (map medicine_id its).
            \<exists>s. stock_of (tables w) m = Some s \<and>
                stock_of (tables (snd (Invoice_create e2 invoiceData its
                     (snd (Invoice_create e1 invoiceData its w))))) m
                  = Some (s - 2 * quantity_sold its m))"
proof -
  let ?R1 = "Invoice_create e1 invoiceData its w"
  let ?w1 = "snd ?R1"
  let ?R2 = "Invoice_create e2 invoiceData its ?w1"
  note fs1 = committed_sale [OF first]
  note fs2 = committed_sale [OF second]
  have wf1: "well_formed ?w1"
    using well_formed_after_sale [OF wf first] .
  have ids: "k2 = Suc k1"
    using fs1(2,5) fs2(2) by simp
  obtain invoice1 where r1: "fst ?R1 = Resolved (Some invoice1)"
    using first by (auto simp: resolved_id_def split: awaited.splits option.splits)
  obtain invoice2 where r2: "fst ?R2 = Resolved (Some invoice2)"
    using second by (auto simp: resolved_id_def split: awaited.splits option.splits)
  have n1: "i_invoice_number invoice1 = fst (generateInvoiceNumber e1 w)"
    using returned_header(2) [OF wf r1] .
  have n2: "i_invoice_number invoice2 = fst (generateInvoiceNumber e2 ?w1)"
    using returned_header(2) [OF wf1 r2] .
  have "fst (generateInvoiceNumber e1 w) \<in> set (map i_invoice_number (invoices (tables ?w1)))"
    by (simp add: fs1(1) sale_effect_def)
  with fs2(4) have "fst (generateInvoiceNumber e1 w) \<noteq> fst (generateInvoiceNumber e2 ?w1)"
    by auto
  with n1 n2 r1 r2 have numbers:
    "\<exists>n1 n2. resolved_number (fst ?R1) = Some n1 \<and> resolved_number (fst ?R2) = Some n2 \<and> n1 \<noteq> n2"
    by (simp add: resolved_number_def)
  have rows: "length (invoices (tables (snd ?R2))) = length (invoices (tables w)) + 2"
    by (simp add: fs1(1) fs2(1) sale_effect_def)
  have stock: "\<forall>m\<in>set (map medicine_id its).
            \<exists>s. stock_of (tables w) m = Some s \<and>
                stock_of (tables (snd ?R2)) m = Some (s - 2 * quantity_sold its m)"
  proof
    fix m assume m: "m \<in> set (map medicine_id its)"
    from stock_after_sale [OF first m] obtain s where
      s: "stock_of (tables w) m = Some s" "stock_of (tables ?w1) m = Some (s - quantity_sold its m)"
      by blast
    from stock_after_sale [OF second m] s(2) have
      "stock_of (tables (snd ?R2)) m = Some (s - quantity_sold its m - quantity_sold its m)"
      by auto
    with s(1) show "\<exists>s. stock_of (tables w) m = Some s \<and>
                stock_of (tables (snd ?R2)) m = Some (s - 2 * quantity_sold its m)"
      by simp
  qed
  from ids numbers rows stock show ?thesis by blast
qed

theorem resubmission_is_a_second_sale_witness:
  "well_formed sample_world \<and>
   resolved_id (fst (Invoice_create sample_env sample_data sale_of_three sample_world)) = Some 1 \<and>
   resolved_id (fst (Invoice_create sample_env sample_data sale_of_three
      (snd (Invoice_create sample_env sample_data sale_of_three sample_world)))) = Some 2 \<and>
   (\<exists>n1 n2. resolved_number (fst (Invoice_create sample_env sample_data sale_of_three sample_world))
              = Some n1 \<and>
            resolved_number (fst (Invoice_create sample_env sample_data sale_of_three
              (snd (Invoice_create sample_env sample_data sale_of_three sample_world)))) = Some n2 \<and>
            n1 \<noteq> n2) \<and>
   stock_of (tables sample_world) 1 = Some 100 \<and>
   stock_of (tables (snd (Invoice_create sample_env sample_data sale_of_three
      (snd (Invoice_create sample_env sample_data sale_of_three sample_world))))) 1 = Some 94"
proof -
  note wf = sample_world_well_formed
  note first = sample_sale_returns
  have second: "resolved_id (fst (Invoice_create sample_env sample_data sale_of_three
      (snd (Invoice_create sample_env sample_data sale_of_three sample_world)))) = Some 2"
    using second_sample_sale_returns by (simp only: sold_world_reached)
  have m: "(1::nat) \<in> set (map medicine_id sale_of_three)"
    by (simp add: sale_of_three_def)
  have pre: "stock_of (tables sample_world) 1 = Some 100"
    by (simp add: stock_of_def sample_defs)
  have sold: "quantity_sold sale_of_three 1 = 3"
    by (simp add: quantity_sold_def sale_of_three_def)
  note both = resubmission_is_a_second_sale [OF wf first second]
  from both have numbers:
    "\<exists>n1 n2. resolved_number (fst (Invoice_create sample_env sample_data sale_of_three sample_world))
              = Some n1 \<and>
            resolved_number (fst (Invoice_create sample_env sample_data sale_of_three
              (snd (Invoice_create sample_env sample_data sale_of_three sample_world)))) = Some n2 \<and>
            n1 \<noteq> n2"
    by blast
  from both m obtain s where
    "stock_of (tables sample_world) 1 = Some s"
    "stock_of (tables (snd (Invoice_create sample_env sample_data sale_of_three
      (snd (Invoice_create sample_env sample_data sale_of_three sample_world))))) 1
       = Some (s - 2 * quantity_sold sale_of_three 1)"
    by blast
  with pre sold have post:
    "stock_of (tables (snd (Invoice_create sample_env sample_data sale_of_three
      (snd (Invoice_create sample_env sample_data sale_of_three sample_world))))) 1 = Some 94"
    by simp
  from wf first second numbers pre post show ?thesis by blast
qed

section \<open>The invoice number (C4, C8)\<close>

lemma generateInvoiceNumber_next:
  assumes ok: "\<not> fails e (SelectLastInvoiceNumber (invoice_prefix e @ ''%''))"
      and r: "r \<in> set (invoices_of_the_day e (tables w))"
      and latest: "\<forall>r'\<in>set (invoices_of_the_day e (tables w)). r' = r \<or> i_id r' < i_id r"
      and number: "i_invoice_number r = invoice_prefix e @ ''-'' @ padStart 3 CHR ''0'' (string_of_nat s)"
  shows "fst (generateInvoiceNumber e w) =
           invoice_prefix e @ ''-'' @ padStart 3 CHR ''0'' (string_of_nat (Suc s))"
proof -
  have "split_pop (i_invoice_number r) = padStart 3 CHR ''0'' (string_of_nat s)"
    using split_pop_suffix [OF no_dash_in_padded, of "invoice_prefix e" 3 s] number by simp
  then have "parseInt (split_pop (i_invoice_number r)) = Some (int s)"
    by (simp add: parseInt_padded)
  moreover have "String (Some (int s + 1)) = string_of_nat (Suc s)"
    by (simp add: String_def nat_add_distrib)
  ultimately show ?thesis
    using generateInvoiceNumber_ok [OF ok, of w] select_last_invoice_number_latest [OF r latest]
    by (simp add: generateInvoiceNumber_on_def)
qed

lemma generateInvoiceNumber_first:
  assumes ok: "\<not> fails e (SelectLastInvoiceNumber (invoice_prefix e @ ''%''))"
      and none: "invoices_of_the_day e (tables w) = []"
  shows "fst (generateInvoiceNumber e w) = invoice_prefix e @ ''-001''"
proof -
  have "padStart 3 CHR ''0'' (String (Some 1)) = ''001''"
    by (simp add: string_defs)
  then show ?thesis
    using generateInvoiceNumber_ok [OF ok, of w] select_last_invoice_number_none [OF none]
    by (simp add: generateInvoiceNumber_on_def)
qed

text \<open>
  C4 (as amended). When the lookup succeeds: on a day with no invoice the number is the
  prefix \<open>INV-YYYYMMDD\<close> followed by \<open>-001\<close>; otherwise the lookup takes the matching
  invoice with the greatest identifier, and when its number is the prefix followed by the
  padded sequence \<open>s\<close>, the new number is the prefix followed by the padded \<open>s + 1\<close>.
  With a four-digit year and a new sequence of at most 999 the number has the form
  \<open>INV-YYYYMMDD-NNN\<close>.
\<close>

theorem generateInvoiceNumber_sequence:
  assumes "\<not> fails e (SelectLastInvoiceNumber (invoice_prefix e @ ''%''))"
      and "1000 \<le> getFullYear e" and "getFullYear e \<le> 9999"
      and "getMonth e \<le> 11" and "getDate e \<le> 31"
  shows "(invoices_of_the_day e (tables w) = [] \<longrightarrow>
            fst (generateInvoiceNumber e w) = invoice_prefix e @ ''-001'' \<and>
            invoice_number_form (fst (generateInvoiceNumber e w))) \<and>
         (\<forall>r\<in>set (invoices_of_the_day e (tables w)). \<forall>s.
            (\<forall>r'\<in>set (invoices_of_the_day e (tables w)). r' = r \<or> i_id r' < i_id r) \<and>
            i_invoice_number r =
              invoice_prefix e @ ''-'' @ padStart 3 CHR ''0'' (string_of_nat s) \<and>
            s < 2 ^ 53 \<longrightarrow>
            fst (generateInvoiceNumber e w) =
              invoice_prefix e @ ''-'' @ padStart 3 CHR ''0'' (string_of_nat (Suc s)) \<and>
            (s < 999 \<longrightarrow> invoice_number_form (fst (generateInvoiceNumber e w))))"
proof (intro conjI impI ballI allI)
  assume none: "invoices_of_the_day e (tables w) = []"
  show first: "fst (generateInvoiceNumber e w) = invoice_prefix e @ ''-001''"
    using generateInvoiceNumber_first [OF assms(1) none] .
  have "padStart 3 CHR ''0'' (string_of_nat 1) = ''001''"
    by (simp add: string_defs)
  with invoice_number_form_padded [OF assms(2-5), of 1] first
  show "invoice_number_form (fst (generateInvoiceNumber e w))"
    by simp
next
  fix r s
  assume r: "r \<in> set (invoices_of_the_day e (tables w))"
     and h: "(\<forall>r'\<in>set (invoices_of_the_day e (tables w)). r' = r \<or> i_id r' < i_id r) \<and>
             i_invoice_number r =
               invoice_prefix e @ ''-'' @ padStart 3 CHR ''0'' (string_of_nat s) \<and>
             s < 2 ^ 53"
  from h have latest: "\<forall>r'\<in>set (invoices_of_the_day e (tables w)). r' = r \<or> i_id r' < i_id r"
    and number: "i_invoice_number r =
                   invoice_prefix e @ ''-'' @ padStart 3 CHR ''0'' (string_of_nat s)"
    by blast+
  show next_number: "fst (generateInvoiceNumber e w) =
          invoice_prefix e @ ''-'' @ padStart 3 CHR ''0'' (string_of_nat (Suc s))"
    using generateInvoiceNumber_next [OF assms(1) r latest number] .
  assume "s < 999"
  then have "Suc s \<le> 999" by simp
  from invoice_number_form_padded [OF assms(2-5) this] next_number
  show "invoice_number_form (fst (generateInvoiceNumber e w))"
    by simp
qed

lemma sample_prefix: "invoice_prefix sample_env = ''INV-20240101''"
  by (simp add: eval_defs)

theorem generateInvoiceNumber_sequence_witness:
  "\<not> fails sample_env (SelectLastInvoiceNumber (invoice_prefix sample_env @ ''%'')) \<and>
   1000 \<le> getFullYear sample_env \<and> getFullYear sample_env \<le> 9999 \<and>
   getMonth sample_env \<le> 11 \<and> getDate sample_env \<le> 31 \<and>
   invoices_of_the_day sample_env (tables sample_world) = [] \<and>
   fst (generateInvoiceNumber sample_env sample_world) = ''INV-20240101-001'' \<and>
   invoice_number_form (fst (generateInvoiceNumber sample_env sample_world)) \<and>
   invoices_of_the_day sample_env (tables sold_world) = invoices (tables sold_world) \<and>
   map i_invoice_number (invoices (tables sold_world)) = [''INV-20240101-001''] \<and>
   fst (generateInvoiceNumber sample_env sold_world) = ''INV-20240101-002'' \<and>
   invoice_number_form (fst (generateInvoiceNumber sample_env sold_world))"
proof -
  have h: "\<not> fails sample_env (SelectLastInvoiceNumber (invoice_prefix sample_env @ ''%''))"
    "1000 \<le> getFullYear sample_env" "getFullYear sample_env \<le> 9999"
    "getMonth sample_env \<le> 11" "getDate sample_env \<le> 31"
    by (simp_all add: sample_env_def)
  have none: "invoices_of_the_day sample_env (tables sample_world) = []"
    by (simp add: invoices_of_the_day_def sample_defs)
  have day: "invoices_of_the_day sample_env (tables sold_world) = invoices (tables sold_world)"
    by (simp add: invoices_of_the_day_def sample_prefix) (simp add: sample_defs)
  have numbers: "map i_invoice_number (invoices (tables sold_world)) = [''INV-20240101-001'']"
    by (simp add: sample_defs)
  let ?r = "hd (invoices (tables sold_world))"
  have r: "?r \<in> set (invoices_of_the_day sample_env (tables sold_world))"
    unfolding day by (simp add: sample_defs)
  have latest: "\<forall>r'\<in>set (invoices_of_the_day sample_env (tables sold_world)).
                  r' = ?r \<or> i_id r' < i_id ?r"
    unfolding day by (simp add: sample_defs)
  have number: "i_invoice_number ?r =
                  invoice_prefix sample_env @ ''-'' @ padStart 3 CHR ''0'' (string_of_nat 1)"
    unfolding sample_prefix by (simp add: sample_defs string_defs)
  have pad: "padStart 3 CHR ''0'' (string_of_nat (Suc (Suc 0))) = ''002''"
    by (simp add: string_defs)
  note today = generateInvoiceNumber_sequence [OF h, of sample_world]
  note later = generateInvoiceNumber_sequence [OF h, of sold_world]
  from today none have
    "fst (generateInvoiceNumber sample_env sample_world) = invoice_prefix sample_env @ ''-001'' \<and>
     invoice_number_form (fst (generateInvoiceNumber sample_env sample_world))"
    by blast
  then have a:
    "fst (generateInvoiceNumber sample_env sample_world) = ''INV-20240101-001''"
    "invoice_number_form (fst (generateInvoiceNumber sample_env sample_world))"
    by (auto simp: sample_prefix)
  from later r latest number have
    "fst (generateInvoiceNumber sample_env sold_world) =
       invoice_prefix sample_env @ ''-'' @ padStart 3 CHR ''0'' (string_of_nat (Suc 1)) \<and>
     ((1::nat) < 999 \<longrightarrow> invoice_number_form (fst (generateInvoiceNumber sample_env sold_world)))"
    by fastforce
  then have b:
    "fst (generateInvoiceNumber sample_env sold_world) = ''INV-20240101-002''"
    "invoice_number_form (fst (generateInvoiceNumber sample_env sold_world))"
    by (auto simp: sample_prefix pad)
  from h none a day numbers b show ?thesis by blast
qed

text \<open>
  C4 as stated fails: once the numbers \<open>-999\<close> and \<open>-1000\<close> of a day exist, the code
  takes the last inserted (\<open>-1000\<close>) and gives \<open>-1001\<close>, where the lexicographic
  maximum is \<open>-999\<close> and would give \<open>-1000\<close>; and the number no longer has the form
  with three digits.
\<close>

theorem generateInvoiceNumber_sequence_counterexample:
  "fst (generateInvoiceNumber sample_env busy_day_world) = ''INV-20240101-1001'' \<and>
   spec_last_invoice_number ''INV-20240101%'' (tables busy_day_world) = Some ''INV-20240101-999'' \<and>
   spec_generateInvoiceNumber sample_env (tables busy_day_world) = ''INV-20240101-1000'' \<and>
   \<not> invoice_number_form (fst (generateInvoiceNumber sample_env busy_day_world))"
  by (simp add: eval_defs max_def)

text \<open>
  A lookup that fails does not reach the \<open>catch\<close> block of the function: \<open>getOne\<close>
  has turned the error into \<open>{success: false}\<close>, the sequence stays 1 and the number is
  the first of the day.
\<close>

lemma generateInvoiceNumber_lookup_failed:
  "fails e (SelectLastInvoiceNumber (invoice_prefix e @ ''%'')) \<Longrightarrow>
   fst (generateInvoiceNumber e w) = invoice_prefix e @ ''-001''"
  by (simp add: generateInvoiceNumber_def generateInvoiceNumber_on_def getOne_def
        pool_execute_def Let_def padStart_def String_def string_of_nat.simps replicate_numeral
        digit_char_def)

text \<open>
  C8. The lookup of the last number fails on a day that has the invoice
  \<open>INV-20240101-001\<close>: the function returns that number again, not the token
  \<open>INV-1704067200000\<close> its \<open>catch\<close> block would give, and the sale that asked for the
  number is refused and returns \<open>null\<close>.
\<close>

theorem failed_lookup_reuses_first_number:
  "fails (failing_env (SelectLastInvoiceNumber ''INV-20240101%''))
     (SelectLastInvoiceNumber ''INV-20240101%'') \<and>
   fst (generateInvoiceNumber (failing_env (SelectLastInvoiceNumber ''INV-20240101%'')) sold_world)
     = ''INV-20240101-001'' \<and>
   ''INV-20240101-001'' \<in> set (map i_invoice_number (invoices (tables sold_world))) \<and>
   generateInvoiceNumber_on (failing_env (SelectLastInvoiceNumber ''INV-20240101%'')) Rejected
     = ''INV-1704067200000'' \<and>
   fst (Invoice_create (failing_env (SelectLastInvoiceNumber ''INV-20240101%'')) sample_data
          sale_of_three sold_world) = Resolved None"
  by (simp add: eval_defs)

section \<open>Reads absorb failures (C10)\<close>

lemma with_pharmacist_Nil [simp]: "with_pharmacist d [] = []"
  by (simp add: with_pharmacist_def)

lemma order_by_desc_Nil [simp]: "order_by_desc key [] = []"
  by (simp add: order_by_desc_def)

lemma select_sales_stats_no_invoice:
  "invoices d = [] \<Longrightarrow>
   select_sales_stats p f t d =
     [\<lparr>sr_total_invoices = 0, sr_total_sales = None, sr_average_sale = None\<rparr>]"
  by (simp add: select_sales_stats_def)

text \<open>
  C10. The helpers \<open>executeQuery\<close> and \<open>getOne\<close> turn a database error into a
  \<open>{success: false}\<close> result. On that result, and on an exception thrown at the
  \<open>await\<close>, \<open>Invoice.getAll\<close>, \<open>Invoice.search\<close> and \<open>Medicine.getAll\<close> return the
  empty list and \<open>Invoice.getSalesStats\<close> returns zeros; so they do when their statement
  fails. A database without invoices (without medicines) gives the same values with no
  failure at all.
\<close>

theorem reads_absorb_failures:
  "(fails e st \<longrightarrow>
      fst (executeQuery e st q w) = Failure ConnectionLost \<and>
      fst (getOne e st q w) = Failure ConnectionLost) \<and>
   Invoice_getAll_on Rejected = [] \<and> Invoice_getAll_on (Resolved (Failure err)) = [] \<and>
   Invoice_search_on Rejected = [] \<and> Invoice_search_on (Resolved (Failure err)) = [] \<and>
   Medicine_getAll_on Rejected = [] \<and> Medicine_getAll_on (Resolved (Failure err)) = [] \<and>
   Invoice_getSalesStats_on Rejected = \<lparr>total_invoices = 0, total_sales = 0, average_sale = 0\<rparr> \<and>
   Invoice_getSalesStats_on (Resolved (Failure err)) =
     \<lparr>total_invoices = 0, total_sales = 0, average_sale = 0\<rparr> \<and>
   ((\<forall>s. fails e s) \<longrightarrow>
      fst (Invoice_getAll e limit offset w) = [] \<and>
      fst (Invoice_search e searchTerm w) = [] \<and>
      fst (Medicine_getAll e w) = [] \<and>
      fst (Invoice_getSalesStats e pharmacistId dateFrom dateTo w) =
        \<lparr>total_invoices = 0, total_sales = 0, average_sale = 0\<rparr>) \<and>
   ((\<forall>s. \<not> fails e s) \<and> invoices (tables w) = [] \<and> medicines (tables w) = [] \<longrightarrow>
      fst (Invoice_getAll e limit offset w) = [] \<and>
      fst (Invoice_search e searchTerm w) = [] \<and>
      fst (Medicine_getAll e w) = [] \<and>
      fst (Invoice_getSalesStats e pharmacistId dateFrom dateTo w) =
        \<lparr>total_invoices = 0, total_sales = 0, average_sale = 0\<rparr>)"
proof (intro conjI impI)
  assume "fails e st"
  then show "fst (executeQuery e st q w) = Failure ConnectionLost"
    and "fst (getOne e st q w) = Failure ConnectionLost"
    by (simp_all add: executeQuery_failed getOne_failed)
next
  show "Invoice_getAll_on Rejected = []" "Invoice_getAll_on (Resolved (Failure err)) = []"
    by (simp_all add: Invoice_getAll_on_def)
  show "Invoice_search_on Rejected = []" "Invoice_search_on (Resolved (Failure err)) = []"
    by (simp_all add: Invoice_search_on_def)
  show "Medicine_getAll_on Rejected = []" "Medicine_getAll_on (Resolved (Failure err)) = []"
    by (simp_all add: Medicine_getAll_on_def)
  show "Invoice_getSalesStats_on Rejected = \<lparr>total_invoices = 0, total_sales = 0, average_sale = 0\<rparr>"
    "Invoice_getSalesStats_on (Resolved (Failure err)) =
       \<lparr>total_invoices = 0, total_sales = 0, average_sale = 0\<rparr>"
    by (simp_all add: Invoice_getSalesStats_on_def)
next
  assume down: "\<forall>s. fails e s"
  show "fst (Invoice_getAll e limit offset w) = []"
    using down by (simp add: Invoice_getAll_def executeQuery_failed Invoice_getAll_on_def)
  show "fst (Invoice_search e searchTerm w) = []"
    using down by (simp add: Invoice_search_def Let_def executeQuery_failed Invoice_search_on_def)
  show "fst (Medicine_getAll e w) = []"
    using down by (simp add: Medicine_getAll_def executeQuery_failed Medicine_getAll_on_def)
  show "fst (Invoice_getSalesStats e pharmacistId dateFrom dateTo w) =
          \<lparr>total_invoices = 0, total_sales = 0, average_sale = 0\<rparr>"
    using down
    by (simp add: Invoice_getSalesStats_def Let_def getOne_failed Invoice_getSalesStats_on_def)
next
  assume h: "(\<forall>s. \<not> fails e s) \<and> invoices (tables w) = [] \<and> medicines (tables w) = []"
  then have up: "\<And>s. \<not> fails e s" and ni: "invoices (tables w) = []"
    and nm: "medicines (tables w) = []"
    by simp_all
  show "fst (Invoice_getAll e limit offset w) = []"
    by (simp add: Invoice_getAll_def executeQuery_ok [OF up] Invoice_getAll_on_def
                  select_invoices_def ni)
  show "fst (Invoice_search e searchTerm w) = []"
    by (simp add: Invoice_search_def Let_def executeQuery_ok [OF up] Invoice_search_on_def
                  search_invoices_def ni)
  show "fst (Medicine_getAll e w) = []"
    by (simp add: Medicine_getAll_def executeQuery_ok [OF up] Medicine_getAll_on_def
                  select_active_medicines_def nm)
  show "fst (Invoice_getSalesStats e pharmacistId dateFrom dateTo w) =
          \<lparr>total_invoices = 0, total_sales = 0, average_sale = 0\<rparr>"
    by (simp add: Invoice_getSalesStats_def Let_def getOne_ok [OF up] Invoice_getSalesStats_on_def
                  select_sales_stats_no_invoice [OF ni] parseFloat_or_0_def)
qed

theorem reads_absorb_failures_witness:
  "fails offline_env SelectActiveMedicines \<and> (\<forall>s. fails offline_env s) \<and>
   fst (executeQuery offline_env SelectActiveMedicines select_active_medicines sample_world)
     = Failure ConnectionLost \<and>
   fst (getOne offline_env SelectActiveMedicines select_active_medicines sample_world)
     = Failure ConnectionLost \<and>
   medicines (tables sample_world) \<noteq> [] \<and>
   fst (Medicine_getAll offline_env sample_world) = [] \<and>
   invoices (tables sold_world) \<noteq> [] \<and>
   fst (Invoice_getAll offline_env 50 0 sold_world) = [] \<and>
   fst (Invoice_search offline_env ''INV'' sold_world) = [] \<and>
   fst (Invoice_getSalesStats offline_env None None None sold_world) =
     \<lparr>total_invoices = 0, total_sales = 0, average_sale = 0\<rparr> \<and>
   (\<forall>s. \<not> fails sample_env s) \<and>
   invoices (tables empty_world) = [] \<and> medicines (tables empty_world) = [] \<and>
   fst (Medicine_getAll sample_env empty_world) = [] \<and>
   fst (Invoice_getAll sample_env 50 0 empty_world) = [] \<and>
   fst (Invoice_search sample_env ''INV'' empty_world) = [] \<and>
   fst (Invoice_getSalesStats sample_env None None None empty_world) =
     \<lparr>total_invoices = 0, total_sales = 0, average_sale = 0\<rparr>"
proof -
  have down: "fails offline_env SelectActiveMedicines" "\<forall>s. fails offline_env s"
    by (simp_all add: offline_env_def)
  have up: "\<forall>s. \<not> fails sample_env s"
    by (simp add: sample_env_def)
  have data: "medicines (tables sample_world) \<noteq> []" "invoices (tables sold_world) \<noteq> []"
    by (simp_all add: sample_defs)
  have none: "invoices (tables empty_world) = []" "medicines (tables empty_world) = []"
    by (simp_all add: empty_world_def)
  note a = reads_absorb_failures [of offline_env SelectActiveMedicines select_active_medicines
             sample_world ConnectionLost 50 0 "''INV''" None None None]
  note b = reads_absorb_failures [of offline_env SelectActiveMedicines select_active_medicines
             sold_world ConnectionLost 50 0 "''INV''" None None None]
  note c = reads_absorb_failures [of sample_env SelectActiveMedicines select_active_medicines
             empty_world ConnectionLost 50 0 "''INV''" None None None]
  from a down have a':
    "fst (executeQuery offline_env SelectActiveMedicines select_active_medicines sample_world)
       = Failure ConnectionLost"
    "fst (getOne offline_env SelectActiveMedicines select_active_medicines sample_world)
       = Failure ConnectionLost"
    "fst (Medicine_getAll offline_env sample_world) = []"
    by blast+
  from b down have b':
    "fst (Invoice_getAll offline_env 50 0 sold_world) = []"
    "fst (Invoice_search offline_env ''INV'' sold_world) = []"
    "fst (Invoice_getSalesStats offline_env None None None sold_world) =
       \<lparr>total_invoices = 0, total_sales = 0, average_sale = 0\<rparr>"
    by blast+
  from c up none have c':
    "fst (Medicine_getAll sample_env empty_world) = []"
    "fst (Invoice_getAll sample_env 50 0 empty_world) = []"
    "fst (Invoice_search sample_env ''INV'' empty_world) = []"
    "fst (Invoice_getSalesStats sample_env None None None empty_world) =
       \<lparr>total_invoices = 0, total_sales = 0, average_sale = 0\<rparr>"
    by blast+
  from down up data none a' b' c' show ?thesis by blast
qed

section \<open>Two sales at the same time (C6)\<close>

subsection \<open>A call alone\<close>

lemma apply_writes_Nil [simp]: "apply_writes [] d = d"
  by (simp add: apply_writes_def)

lemma apply_writes_snoc [simp]: "apply_writes (ws @ [wr]) d = apply_write wr (apply_writes ws d)"
  by (simp add: apply_writes_def)

lemma connection_view_Nil [simp]: "connection_view [] w = tables w"
  by (simp add: connection_view_def)

lemma connection_view_snoc:
  "tables w1 = tables w \<Longrightarrow>
   connection_view (connection @ [wr]) w1 = apply_write wr (connection_view connection w)"
  by (simp add: connection_view_def)

lemma create_alone_add:
  "create_alone (n + k) e d its c w =
     (case create_alone n e d its c w of (c1, w1) \<Rightarrow> create_alone k e d its c1 w1)"
  by (induction n arbitrary: c w) (simp_all split: prod.splits)

lemma create_alone_Settled [simp]:
  "create_alone n e d its (Settled outcome, connection) w = ((Settled outcome, connection), w)"
  by (induction n) simp_all

lemma create_alone_later:
  assumes "create_alone j e d its c w = ((Settled outcome, connection), w')" and "j \<le> n"
  shows "create_alone n e d its c w = ((Settled outcome, connection), w')"
proof -
  from assms(2) have "n = j + (n - j)" by simp
  then have "create_alone n e d its c w = create_alone (j + (n - j)) e d its c w" by simp
  also have "\<dots> = ((Settled outcome, connection), w')"
    by (simp only: create_alone_add assms(1)) simp
  finally show ?thesis .
qed

lemma create_alone_step:
  "create_step e d its [] c w = (c1, w1) \<Longrightarrow>
   create_alone (Suc n) e d its c w = create_alone n e d its c1 w1"
  by simp

text \<open>The write a statement leaves in the connection is what it did to the view.\<close>

lemma insert_invoice_write:
  "execute_insert_invoice e v c w = (Inr k, c1, w1) \<Longrightarrow>
   apply_write (InsertInvoiceRow (last (invoices c1))) c = c1"
  by (auto dest!: insert_invoice_Inr(2))

lemma insert_invoice_item_write:
  "execute_insert_invoice_item e k it c w = (Inr ident, c1, w1) \<Longrightarrow>
   apply_write (InsertItemRow (last (invoice_items c1))) c = c1"
  by (auto dest!: insert_invoice_item_Inr(2) simp: item_rows_def)

lemma update_stock_write:
  "execute_update_stock e qty mid c w = (Inr u, c1, w1) \<Longrightarrow>
   apply_write (DecrementStock mid qty) c = c1"
  by (auto dest!: update_stock_Inr(1))

lemma insert_stock_movement_write:
  "execute_insert_stock_movement e mid qty k notes p c w = (Inr ident, c1, w1) \<Longrightarrow>
   apply_write (InsertMovementRow (last (stock_movements c1))) c = c1"
  by (auto dest!: insert_stock_movement_Inr(2))

lemma loop_alone:
  assumes "create_items e k n (pharmacist_id d) rest (connection_view connection w) w = (r, c', w')"
  shows "\<exists>j connection'. j \<le> 3 * length rest \<and>
           create_alone j e d its (loop_from k n rest, connection) w =
             ((case r of Inr u \<Rightarrow> At_commitTransaction k | Inl err \<Rightarrow> At_rollbackTransaction,
               connection'), w') \<and>
           (\<forall>u. r = Inr u \<longrightarrow> connection_view connection' w' = c')"
  using assms
proof (induction rest arbitrary: connection w)
  case Nil
  then have "create_alone 0 e d its (loop_from k n [], connection) w =
               ((At_commitTransaction k, connection), w')" "r = Inr ()" "connection_view connection w' = c'"
    by (auto simp: loop_from_def)
  then show ?case by (intro exI [of _ 0] exI [of _ connection]) simp
next
  case (Cons it rest)
  let ?c = "connection_view connection w"
  obtain r1 c1 w1 where s1: "execute_insert_invoice_item e k it ?c w = (r1, c1, w1)"
    by (metis prod_cases3)
  show ?case
  proof (cases r1)
    case (Inl err)
    with Cons.prems s1 have r: "r = Inl err" "w' = w1" by auto
    have "create_alone 1 e d its (loop_from k n (it # rest), connection) w =
            ((At_rollbackTransaction, connection), w1)"
      using s1 Inl by (simp add: loop_from_def)
    with r show ?thesis
      by (intro exI [of _ 1] exI [of _ connection]) simp
  next
    case (Inr k1)
    note r1 = this
    let ?conn1 = "connection @ [InsertItemRow (last (invoice_items c1))]"
    have t1: "tables w1 = tables w"
      using s1 r1 by (auto dest: insert_invoice_item_Inr(3))
    have v1: "connection_view ?conn1 w1 = c1"
      using connection_view_snoc [OF t1] insert_invoice_item_write [OF s1 [unfolded r1]] by simp
    have step1: "create_step e d its [] (loop_from k n (it # rest), connection) w =
                   ((At_update_stock k n it rest, ?conn1), w1)"
      using s1 r1 by (simp add: loop_from_def)
    obtain r2 c2 w2 where
      s2: "execute_update_stock e (quantity it) (medicine_id it) c1 w1 = (r2, c2, w2)"
      by (metis prod_cases3)
    show ?thesis
    proof (cases r2)
      case (Inl err)
      with Cons.prems s1 r1 s2 have r: "r = Inl err" "w' = w2" by auto
      have "create_step e d its [] (At_update_stock k n it rest, ?conn1) w1 =
              ((At_rollbackTransaction, ?conn1), w2)"
        using s2 Inl v1 by simp
      with step1 have "create_alone 2 e d its (loop_from k n (it # rest), connection) w =
              ((At_rollbackTransaction, ?conn1), w2)"
        by (simp add: numeral_2_eq_2)
      with r show ?thesis
        by (intro exI [of _ 2] exI [of _ ?conn1]) simp
    next
      case (Inr u2)
      note r2 = this
      let ?conn2 = "?conn1 @ [DecrementStock (medicine_id it) (quantity it)]"
      have t2: "tables w2 = tables w1"
        using s2 r2 by (auto dest: update_stock_Inr(2))
      have v2: "connection_view ?conn2 w2 = c2"
        using connection_view_snoc [OF t2, of ?conn1] update_stock_write [OF s2 [unfolded r2]] v1
        by simp
      have step2: "create_step e d its [] (At_update_stock k n it rest, ?conn1) w1 =
                     ((At_insert_movement k n it rest, ?conn2), w2)"
        using s2 r2 v1 by simp
      obtain r3 c3 w3 where
        s3: "execute_insert_stock_movement e (medicine_id it) (quantity it) k
               (''Sale via invoice '' @ n) (pharmacist_id d) c2 w2 = (r3, c3, w3)"
        by (metis prod_cases3)
      show ?thesis
      proof (cases r3)
        case (Inl err)
        with Cons.prems s1 r1 s2 r2 s3 have r: "r = Inl err" "w' = w3" by auto
        have "create_step e d its [] (At_insert_movement k n it rest, ?conn2) w2 =
                ((At_rollbackTransaction, ?conn2), w3)"
          using s3 Inl v2 by simp
        with step1 step2
        have "create_alone 3 e d its (loop_from k n (it # rest), connection) w =
                ((At_rollbackTransaction, ?conn2), w3)"
          by (simp add: numeral_3_eq_3)
        with r show ?thesis
          by (intro exI [of _ 3] exI [of _ ?conn2]) simp
      next
        case (Inr k3)
        note r3 = this
        let ?conn3 = "?conn2 @ [InsertMovementRow (last (stock_movements c3))]"
        have t3: "tables w3 = tables w2"
          using s3 r3 by (auto dest: insert_stock_movement_Inr(3))
        have v3: "connection_view ?conn3 w3 = c3"
          using connection_view_snoc [OF t3, of ?conn2]
                insert_stock_movement_write [OF s3 [unfolded r3]] v2
          by simp
        have step3: "create_step e d its [] (At_insert_movement k n it rest, ?conn2) w2 =
                       ((loop_from k n rest, ?conn3), w3)"
          using s3 r3 v2 by simp
        have three: "create_alone (3 + j) e d its (loop_from k n (it # rest), connection) w =
                       create_alone j e d its (loop_from k n rest, ?conn3) w3" for j
          using step1 step2 step3 by (simp add: numeral_3_eq_3)
        have "create_items e k n (pharmacist_id d) rest (connection_view ?conn3 w3) w3 = (r, c', w')"
          using Cons.prems s1 r1 s2 r2 s3 r3 v3 by simp
        from Cons.IH [OF this] obtain j connection' where
          j: "j \<le> 3 * length rest"
             "create_alone j e d its (loop_from k n rest, ?conn3) w3 =
                ((case r of Inr u \<Rightarrow> At_commitTransaction k | Inl err \<Rightarrow> At_rollbackTransaction,
                  connection'), w')"
             "\<forall>u. r = Inr u \<longrightarrow> connection_view connection' w' = c'"
          by blast
        show ?thesis
          using j three [of j]
          by (intro exI [of _ "3 + j"] exI [of _ connection']) simp
      qed
    qed
  qed
qed

lemma create_alone_trans:
  assumes "create_alone a e d its c w = (c1, w1)" and "create_alone b e d its c1 w1 = (c2, w2)"
  shows "create_alone (a + b) e d its c w = (c2, w2)"
  by (simp add: create_alone_add assms)

lemma rollbackTransaction_connection:
  "rollbackTransaction e c w = rollbackTransaction e c' w"
  by (simp add: rollbackTransaction_def)

lemma catch_alone:
  assumes "create_try e d its (tables w) (issue BeginTransaction w) = (Inl err, c1, w1)"
      and "\<not> fails e BeginTransaction"
  shows "\<exists>connection'.
           create_alone 1 e d its (At_rollbackTransaction, connection) w1 =
             ((Settled (fst (Invoice_create e d its w)), connection'), snd (Invoice_create e d its w))"
proof -
  have "rollbackTransaction e (connection_view connection w1) w1 = rollbackTransaction e c1 w1"
    by (rule rollbackTransaction_connection)
  then show ?thesis
    using assms
    by (auto simp: Invoice_create_def beginTransaction_def Let_def split: prod.splits sum.splits)
qed

text \<open>A call alone, taken statement by statement, is \<open>Invoice_create\<close>.\<close>

lemma create_alone_is_create:
  assumes n: "3 * length its + 5 \<le> n"
  shows "\<exists>connection.
           create_alone n e d its start w =
             ((Settled (fst (Invoice_create e d its w)), connection), snd (Invoice_create e d its w))"
proof (cases "fails e BeginTransaction")
  case True
  then have "create_alone 1 e d its start w =
               ((Settled (fst (Invoice_create e d its w)), []), snd (Invoice_create e d its w))"
    by (simp add: Invoice_create_begin_failed start_def beginTransaction_def Let_def)
  from create_alone_later [OF this] n show ?thesis by auto
next
  case False
  note bt = this
  let ?w0 = "issue BeginTransaction w"
  obtain num w1 where g: "generateInvoiceNumber e ?w0 = (num, w1)"
    by (metis surj_pair)
  have t1: "tables w1 = tables w"
    using generateInvoiceNumber_world [of e ?w0] g by simp
  have two: "create_alone 2 e d its start w = ((At_insert_invoice num, []), w1)"
    using bt g by (simp add: start_def beginTransaction_def Let_def numeral_2_eq_2)
  obtain r2 c2 w2 where
    i: "execute_insert_invoice e (invoice_params e num d) (tables w) w1 = (r2, c2, w2)"
    by (metis prod_cases3)
  have final: "\<exists>connection.
                 create_alone n e d its start w =
                   ((Settled (fst (Invoice_create e d its w)), connection),
                    snd (Invoice_create e d its w))"
    if "create_alone j e d its start w = ((At_rollbackTransaction, connection'), w')"
       "create_try e d its (tables w) ?w0 = (Inl err, c', w')" "j + 1 \<le> n"
    for j connection' err c' w'
  proof -
    from catch_alone [OF that(2) bt, of connection'] obtain connection where
      "create_alone 1 e d its (At_rollbackTransaction, connection') w' =
         ((Settled (fst (Invoice_create e d its w)), connection), snd (Invoice_create e d its w))"
      by blast
    from create_alone_later [OF create_alone_trans [OF that(1) this] that(3)]
    show ?thesis by blast
  qed
  show ?thesis
  proof (cases r2)
    case (Inl err)
    have "create_step e d its [] (At_insert_invoice num, []) w1 = ((At_rollbackTransaction, []), w2)"
      using i Inl t1 by (simp add: waits_for_key_def)
    then have "create_alone 1 e d its (At_insert_invoice num, []) w1 =
                 ((At_rollbackTransaction, []), w2)"
      by simp
    from create_alone_trans [OF two this]
    have three: "create_alone 3 e d its start w = ((At_rollbackTransaction, []), w2)" by simp
    have "create_try e d its (tables w) ?w0 = (Inl err, c2, w2)"
      using g i Inl by (simp add: create_try_def)
    from final [OF three this] n show ?thesis by simp
  next
    case (Inr k)
    note r2 = this
    let ?conn1 = "[InsertInvoiceRow (last (invoices c2))]"
    have "create_step e d its [] (At_insert_invoice num, []) w1 = ((loop_from k num its, ?conn1), w2)"
      using i r2 t1 by (simp add: waits_for_key_def)
    then have "create_alone 1 e d its (At_insert_invoice num, []) w1 =
                 ((loop_from k num its, ?conn1), w2)"
      by simp
    from create_alone_trans [OF two this]
    have three: "create_alone 3 e d its start w = ((loop_from k num its, ?conn1), w2)" by simp
    have t2: "tables w2 = tables w1"
      using i r2 by (auto dest: insert_invoice_Inr(3))
    have v: "connection_view ?conn1 w2 = c2"
      using connection_view_snoc [OF t2, of "[]"] insert_invoice_write [OF i [unfolded r2]] t1
      by simp
    obtain r3 c3 w3 where
      l: "create_items e k num (pharmacist_id d) its c2 w2 = (r3, c3, w3)"
      by (metis prod_cases3)
    from loop_alone [of e k num d its ?conn1 w2 r3 c3 w3 its] l v obtain j connection' where
      j: "j \<le> 3 * length its"
         "create_alone j e d its (loop_from k num its, ?conn1) w2 =
            ((case r3 of Inr u \<Rightarrow> At_commitTransaction k | Inl err \<Rightarrow> At_rollbackTransaction,
              connection'), w3)"
         "\<forall>u. r3 = Inr u \<longrightarrow> connection_view connection' w3 = c3"
      by auto
    note loop = create_alone_trans [OF three j(2)]
    show ?thesis
    proof (cases r3)
      case (Inl err)
      have "create_try e d its (tables w) ?w0 = (Inl err, c3, w3)"
        using g i r2 l Inl by (simp add: create_try_def)
      from final [OF loop [unfolded Inl, simplified] this] j(1) n show ?thesis by simp
    next
      case (Inr u)
      note r3 = this
      have v3: "connection_view connection' w3 = c3" using j(3) r3 by simp
      obtain r4 w4 where m: "commitTransaction e c3 w3 = (r4, w4)"
        by (metis surj_pair)
      show ?thesis
      proof (cases r4)
        case (Inl err)
        have "create_alone 1 e d its (At_commitTransaction k, connection') w3 =
                ((At_rollbackTransaction, connection'), w4)"
          using m Inl v3 by simp
        note reach = create_alone_trans [OF loop [unfolded r3, simplified] this]
        have "create_try e d its (tables w) ?w0 = (Inl err, c3, w4)"
          using g i r2 l r3 m Inl by (simp add: create_try_def)
        from final [OF reach this] j(1) n show ?thesis by simp
      next
        case (Inr u4)
        have t': "create_try e d its (tables w) ?w0 = (Inr k, c3, w4)"
          using g i r2 l r3 m Inr by (simp add: create_try_def)
        have "create_alone 2 e d its (At_commitTransaction k, connection') w3 =
                ((Settled (Resolved (fst (Invoice_findById e k w4))), []),
                 snd (Invoice_findById e k w4))"
          using m Inr v3 by (simp add: numeral_2_eq_2 split: prod.splits)
        note reach = create_alone_trans [OF loop [unfolded r3, simplified] this]
        have "3 + j + 2 \<le> n" using j(1) n by simp
        from create_alone_later [OF reach this] Invoice_create_committed [OF bt t']
        show ?thesis by simp
      qed
    qed
  qed
qed

subsection \<open>Two calls on one server\<close>

lemma uncommitted_Nil [simp]: "uncommitted [] m = 0"
  by (simp add: uncommitted_def)

lemma uncommitted_snoc [simp]:
  "uncommitted (connection @ [wr]) m = uncommitted connection m + decrement_of wr m"
  by (simp add: uncommitted_def)

lemma quantity_sold_Nil [simp]: "quantity_sold [] m = 0"
  by (simp add: quantity_sold_def)

lemma quantity_sold_Cons:
  "quantity_sold (it # rest) m = (if medicine_id it = m then quantity it else 0) + quantity_sold rest m"
  by (simp add: quantity_sold_def)

lemma stock_taken_loop_from [simp]:
  "stock_taken its m (loop_from k n rest, connection) taken =
     (taken = 0 \<and> uncommitted connection m + quantity_sold rest m = quantity_sold its m)"
  by (cases rest) (simp_all add: loop_from_def)

lemma stock_of_apply_write:
  "stock_of (apply_write wr d) m = map_option (\<lambda>s. s - decrement_of wr m) (stock_of d m)"
proof (cases wr)
  case (DecrementStock mid qty)
  have key: "map_option m_quantity_in_stock
          (find (\<lambda>r. m_id r = m)
             (map (\<lambda>r. if m_id r = mid
                       then r\<lparr>m_quantity_in_stock := m_quantity_in_stock r - qty\<rparr> else r) ms)) =
        map_option (\<lambda>s. s - (if mid = m then qty else 0))
          (map_option m_quantity_in_stock (find (\<lambda>r. m_id r = m) ms))" for ms
    by (induction ms) auto
  have sel: "medicines (apply_write (DecrementStock mid qty) d) =
             map (\<lambda>r. if m_id r = mid
                       then r\<lparr>m_quantity_in_stock := m_quantity_in_stock r - qty\<rparr> else r)
               (medicines d)"
    by simp
  show ?thesis
    unfolding DecrementStock
    by (simp only: stock_of_def sel decrement_of.simps key)
qed (simp_all add: stock_of_def option.map_ident)

lemma stock_of_apply_writes:
  "stock_of (apply_writes ws d) m = map_option (\<lambda>s. s - uncommitted ws m) (stock_of d m)"
proof (induction ws rule: rev_induct)
  case Nil
  then show ?case by (simp add: option.map_ident)
next
  case (snoc wr ws)
  show ?case
    by (simp add: snoc stock_of_apply_write option.map_comp comp_def algebra_simps)
qed

lemma stock_same:
  "tables w' = tables w \<Longrightarrow>
   stock_of (tables w') m = map_option (\<lambda>s. s - (taken - taken)) (stock_of (tables w) m)"
  by (simp add: option.map_ident)

lemma beginTransaction_tables: "beginTransaction e w = (r, w1) \<Longrightarrow> tables w1 = tables w"
  by (auto simp: beginTransaction_def Let_def split: if_splits)

lemma generateInvoiceNumber_same_tables:
  "generateInvoiceNumber e w = (n, w1) \<Longrightarrow> tables w1 = tables w"
  using generateInvoiceNumber_world [of e w] by simp

lemma rollbackTransaction_tables: "rollbackTransaction e c w = (r, w1) \<Longrightarrow> tables w1 = tables w"
  by (auto simp: rollbackTransaction_def Let_def split: if_splits)

lemma Invoice_findById_same_tables: "Invoice_findById e k w = (r, w1) \<Longrightarrow> tables w1 = tables w"
  using Invoice_findById_tables [of e k w] by simp

lemma insert_invoice_tables:
  "execute_insert_invoice e v c w = (r, c1, w1) \<Longrightarrow> tables w1 = tables w"
  by (cases r) (auto dest: insert_invoice_Inl(1) insert_invoice_Inr(3))

lemma insert_invoice_item_tables:
  "execute_insert_invoice_item e k it c w = (r, c1, w1) \<Longrightarrow> tables w1 = tables w"
  by (cases r) (auto dest: insert_invoice_item_Inl insert_invoice_item_Inr(3))

lemma update_stock_tables:
  "execute_update_stock e qty mid c w = (r, c1, w1) \<Longrightarrow> tables w1 = tables w"
  by (cases r) (auto dest: update_stock_Inl update_stock_Inr(2))

lemma insert_stock_movement_tables:
  "execute_insert_stock_movement e mid qty k notes p c w = (r, c1, w1) \<Longrightarrow> tables w1 = tables w"
  by (cases r) (auto dest: insert_stock_movement_Inl insert_stock_movement_Inr(3))

text \<open>
  One step of a call changes the committed stock by what the call is found to have taken
  after it, less what it had taken before.
\<close>

lemma create_step_stock:
  assumes inv: "stock_taken its m c taken"
      and step: "create_step e d its others c w = (c', w')"
  shows "\<exists>taken'. stock_taken its m c' taken' \<and>
           stock_of (tables w') m =
             map_option (\<lambda>s. s - (taken' - taken)) (stock_of (tables w) m)"
proof (cases c)
  case (Pair point connection)
  show ?thesis
  proof (cases point)
    case At_beginTransaction
    with Pair inv step show ?thesis
      by (auto split: prod.splits sum.splits intro!: exI [of _ 0] simp: option.map_ident
               dest: beginTransaction_tables)
  next
    case At_generateInvoiceNumber
    with Pair inv step show ?thesis
      by (auto split: prod.splits intro!: exI [of _ 0] simp: option.map_ident
               dest: generateInvoiceNumber_same_tables)
  next
    case (At_insert_invoice n)
    with Pair inv step show ?thesis
      by (auto split: prod.splits sum.splits if_splits intro!: exI [of _ 0] simp: option.map_ident
               dest: insert_invoice_tables)
  next
    case (At_insert_item k n it rest)
    with Pair inv step show ?thesis
      by (auto split: prod.splits sum.splits intro!: exI [of _ 0] simp: option.map_ident
               dest: insert_invoice_item_tables)
  next
    case (At_update_stock k n it rest)
    with Pair inv step show ?thesis
      by (auto split: prod.splits sum.splits intro!: exI [of _ 0]
               dest: update_stock_tables simp: quantity_sold_Cons option.map_ident)
  next
    case (At_insert_movement k n it rest)
    with Pair inv step show ?thesis
      by (auto split: prod.splits sum.splits intro!: exI [of _ 0] simp: option.map_ident
               dest: insert_stock_movement_tables)
  next
    case (At_commitTransaction k)
    obtain r w1 where m: "commitTransaction e (connection_view connection w) w = (r, w1)"
      by (metis surj_pair)
    show ?thesis
    proof (cases r)
      case (Inl err)
      with Pair At_commitTransaction inv step m commitTransaction_Inl [of e _ w err w1]
      show ?thesis
        by (auto intro!: exI [of _ 0] simp: option.map_ident)
    next
      case (Inr u)
      from commitTransaction_Inr(1) [OF m [unfolded Inr]]
      have "stock_of (tables w1) m =
              map_option (\<lambda>s. s - uncommitted connection m) (stock_of (tables w) m)"
        by (simp add: connection_view_def stock_of_apply_writes)
      with Pair At_commitTransaction inv step m Inr show ?thesis
        by (auto intro!: exI [of _ "quantity_sold its m"])
    qed
  next
    case (At_findById k)
    obtain r w1 where f: "Invoice_findById e k w = (r, w1)"
      by (metis surj_pair)
    from Invoice_findById_same_tables [OF f] Pair At_findById inv step f show ?thesis
      by (cases r) (auto intro!: exI [of _ "quantity_sold its m"] simp: option.map_ident)
  next
    case At_rollbackTransaction
    with Pair inv step show ?thesis
      by (auto split: prod.splits sum.splits intro!: exI [of _ 0] simp: option.map_ident
               dest: rollbackTransaction_tables)
  next
    case (Settled outcome)
    with Pair inv step show ?thesis
      by (auto intro!: exI [of _ taken] simp: option.map_ident)
  qed
qed

lemma two_sales_stock:
  assumes "stock_taken (sale_items a) m ca taken_a"
      and "stock_taken (sale_items b) m cb taken_b"
      and "two_sales a b schedule (ca, cb, w) = (ca', cb', w')"
  shows "\<exists>taken_a' taken_b'.
           stock_taken (sale_items a) m ca' taken_a' \<and>
           stock_taken (sale_items b) m cb' taken_b' \<and>
           stock_of (tables w') m =
             map_option (\<lambda>s. s - (taken_a' - taken_a) - (taken_b' - taken_b))
               (stock_of (tables w) m)"
  using assms
proof (induction schedule arbitrary: ca cb w taken_a taken_b)
  case Nil
  then show ?case
    by (intro exI [of _ taken_a] exI [of _ taken_b]) (simp add: option.map_ident)
next
  case (Cons t schedule)
  show ?case
  proof (cases t)
    case First
    obtain ca1 w1 where
      s: "create_step (sale_env a) (sale_data a) (sale_items a) (snd cb) ca w = (ca1, w1)"
      by (metis surj_pair)
    from create_step_stock [OF Cons.prems(1) s] obtain taken1 where
      t1: "stock_taken (sale_items a) m ca1 taken1"
          "stock_of (tables w1) m = map_option (\<lambda>s. s - (taken1 - taken_a)) (stock_of (tables w) m)"
      by blast
    have "two_sales a b schedule (ca1, cb, w1) = (ca', cb', w')"
      using Cons.prems(3) First s by simp
    from Cons.IH [OF t1(1) Cons.prems(2) this] obtain taken_a' taken_b' where
      "stock_taken (sale_items a) m ca' taken_a'" "stock_taken (sale_items b) m cb' taken_b'"
      "stock_of (tables w') m =
         map_option (\<lambda>s. s - (taken_a' - taken1) - (taken_b' - taken_b)) (stock_of (tables w1) m)"
      by blast
    with t1(2) show ?thesis
      by (intro exI [of _ taken_a'] exI [of _ taken_b'])
         (simp add: option.map_comp comp_def algebra_simps)
  next
    case Second
    obtain cb1 w1 where
      s: "create_step (sale_env b) (sale_data b) (sale_items b) (snd ca) cb w = (cb1, w1)"
      by (metis surj_pair)
    from create_step_stock [OF Cons.prems(2) s] obtain taken1 where
      t1: "stock_taken (sale_items b) m cb1 taken1"
          "stock_of (tables w1) m = map_option (\<lambda>s. s - (taken1 - taken_b)) (stock_of (tables w) m)"
      by blast
    have "two_sales a b schedule (ca, cb1, w1) = (ca', cb', w')"
      using Cons.prems(3) Second s by simp
    from Cons.IH [OF Cons.prems(1) t1(1) this] obtain taken_a' taken_b' where
      "stock_taken (sale_items a) m ca' taken_a'" "stock_taken (sale_items b) m cb' taken_b'"
      "stock_of (tables w') m =
         map_option (\<lambda>s. s - (taken_a' - taken_a) - (taken_b' - taken1)) (stock_of (tables w1) m)"
      by blast
    with t1(2) show ?thesis
      by (intro exI [of _ taken_a'] exI [of _ taken_b'])
         (simp add: option.map_comp comp_def algebra_simps)
  qed
qed

lemma stock_taken_returned:
  "stock_taken its m c taken \<Longrightarrow> returned_invoice c = Some invoice \<Longrightarrow> taken = quantity_sold its m"
  by (cases c; cases "fst c")
     (auto simp: returned_invoice_def split: awaited.splits option.splits)

lemma two_sales_both_returned:
  assumes "two_sales a b schedule (start, start, w) = (ca, cb, w')"
      and "returned_invoice ca = Some invoice_a"
      and "returned_invoice cb = Some invoice_b"
  shows "stock_of (tables w') m =
           map_option (\<lambda>s. s - quantity_sold (sale_items a) m - quantity_sold (sale_items b) m)
             (stock_of (tables w) m)"
proof -
  have "stock_taken (sale_items a) m start 0" "stock_taken (sale_items b) m start 0"
    by (simp_all add: start_def)
  from two_sales_stock [OF this assms(1)] obtain taken_a taken_b where
    t: "stock_taken (sale_items a) m ca taken_a" "stock_taken (sale_items b) m cb taken_b"
       "stock_of (tables w') m =
          map_option (\<lambda>s. s - (taken_a - 0) - (taken_b - 0)) (stock_of (tables w) m)"
    by blast
  from stock_taken_returned [OF t(1) assms(2)] stock_taken_returned [OF t(2) assms(3)] t(3)
  show ?thesis by simp
qed

lemmas step_defs = start_def connection_view_def apply_writes_def waits_for_key_def loop_from_def
  returned_invoice_def sale_of_five_def five_units_def overlapping_def together_def
  beginTransaction_def commitTransaction_def rollbackTransaction_def

lemma overlapping_sales_return:
  "map_option i_invoice_number
     (returned_invoice (fst (two_sales sale_of_five sale_of_five overlapping
        (start, start, sample_world)))) = Some ''INV-20240101-001'' \<and>
   map_option i_invoice_number
     (returned_invoice (fst (snd (two_sales sale_of_five sale_of_five overlapping
        (start, start, sample_world))))) = Some ''INV-20240101-002''"
  by (simp add: eval_defs step_defs)



text \<open>
  Two sales of the same day started together draw the same number: the insert of the second
  waits for the first to commit and is then refused, the second call rolls back and
  returns \<open>null\<close>, and the stock is reduced by the one sale that is committed.
\<close>

lemma sales_started_together:
  "map_option i_invoice_number
     (returned_invoice (fst (two_sales sale_of_five sale_of_five together
        (start, start, sample_world)))) = Some ''INV-20240101-001'' \<and>
   fst (fst (snd (two_sales sale_of_five sale_of_five together (start, start, sample_world)))) =
     Settled (Resolved None) \<and>
   stock_of (tables (snd (snd (two_sales sale_of_five sale_of_five together
      (start, start, sample_world))))) 2 = Some 5"
  by (simp add: eval_defs step_defs)

end
